(* ===== verification/Wire.thy ===== *)
theory Wire
  imports Prelude
begin

text \<open>
  The framed Erlang external-term format of \<open>rust_client/src/wire.rs\<close>: the value type, the
  encoder (\<open>encode_value\<close> and its helpers, each returning the bytes it appends to \<open>output\<close>), the
  decoder (a cursor over the payload, \<open>dec_value\<close> for \<open>Decoder::value\<close>), and the frame reader and
  writer. Lemmas about them are in \<open>Wire_Props\<close> and \<open>Wire_Roundtrip\<close>.
\<close>

section \<open>Constants\<close>

definition MAGIC :: "u8 list" where "MAGIC = as_bytes ''FIDX''"
definition ETF_VERSION :: u8 where "ETF_VERSION = 131"
definition MAXIMUM_FRAME_BYTES :: nat where "MAXIMUM_FRAME_BYTES = 64 * 1024 * 1024"
definition MAXIMUM_NESTING :: nat where "MAXIMUM_NESTING = 128"

text \<open>The tags are unfolded by the simplifier: distinct tags are distinct numerals.\<close>

definition NEW_FLOAT_EXT :: u8 where [simp]: "NEW_FLOAT_EXT = 70"
definition SMALL_INTEGER_EXT :: u8 where [simp]: "SMALL_INTEGER_EXT = 97"
definition INTEGER_EXT :: u8 where [simp]: "INTEGER_EXT = 98"
definition ATOM_EXT :: u8 where [simp]: "ATOM_EXT = 100"
definition SMALL_TUPLE_EXT :: u8 where [simp]: "SMALL_TUPLE_EXT = 104"
definition LARGE_TUPLE_EXT :: u8 where [simp]: "LARGE_TUPLE_EXT = 105"
definition NIL_EXT :: u8 where [simp]: "NIL_EXT = 106"
definition STRING_EXT :: u8 where [simp]: "STRING_EXT = 107"
definition LIST_EXT :: u8 where [simp]: "LIST_EXT = 108"
definition BINARY_EXT :: u8 where [simp]: "BINARY_EXT = 109"
definition SMALL_BIG_EXT :: u8 where [simp]: "SMALL_BIG_EXT = 110"
definition LARGE_BIG_EXT :: u8 where [simp]: "LARGE_BIG_EXT = 111"
definition SMALL_ATOM_EXT :: u8 where [simp]: "SMALL_ATOM_EXT = 115"
definition MAP_EXT :: u8 where [simp]: "MAP_EXT = 116"
definition ATOM_UTF8_EXT :: u8 where [simp]: "ATOM_UTF8_EXT = 118"
definition SMALL_ATOM_UTF8_EXT :: u8 where [simp]: "SMALL_ATOM_UTF8_EXT = 119"

section \<open>Values and errors\<close>

datatype wvalue =
    VNull
  | VBool bool
  | VUnsigned u64
  | VSigned i64
  | VFloat f64_bits
  | VBinary "u8 list"
  | VAtom string
  | VTuple "wvalue list"
  | VList "wvalue list"
  | VMap "(wvalue \<times> wvalue) list"

datatype wire_error = WireError (wire_message: string)

section \<open>Encoder\<close>

definition encode_atom :: "string \<Rightarrow> u8 list" where
  "encode_atom atom =
     (let bytes = as_bytes atom in
      (if length bytes \<le> 255
       then SMALL_ATOM_UTF8_EXT # [word_of_nat (length bytes)]
       else ATOM_UTF8_EXT # be_bytes 2 (length bytes)) @ bytes)"

function big_bytes :: "u64 \<Rightarrow> u8 list" where
  \<comment> \<open>the \<open>while magnitude != 0\<close> loop of \<open>encode_big\<close>\<close>
  "big_bytes magnitude =
     (if magnitude = 0 then [] else ucast magnitude # big_bytes (drop_bit 8 magnitude))"
  by pat_completeness auto
termination
proof (relation "measure unat")
  fix m :: u64
  assume "m \<noteq> 0"
  then have "0 < unat m" by (simp add: unat_gt_0)
  then show "(drop_bit 8 m, m) \<in> measure unat"
    by (simp add: drop_bit_eq_div unat_div)
qed simp

declare big_bytes.simps [simp del]

definition encode_big :: "u64 \<Rightarrow> bool \<Rightarrow> u8 list" where
  "encode_big magnitude negative =
     (let bytes = big_bytes magnitude;
          bytes = (if bytes = [] then [0] else bytes)
      in SMALL_BIG_EXT # word_of_nat (length bytes) # (if negative then 1 else 0) # bytes)"

definition encode_unsigned :: "u64 \<Rightarrow> u8 list" where
  "encode_unsigned v =
     (if unat v \<le> 255 then [SMALL_INTEGER_EXT, ucast v]
      else if unat v \<le> 2 ^ 31 - 1 then INTEGER_EXT # be_bytes 4 (unat v)
      else encode_big v False)"

definition unsigned_abs :: "i64 \<Rightarrow> u64" where
  "unsigned_abs v = (if sint v < 0 then - v else v)"

fun encode_value :: "wvalue \<Rightarrow> u8 list" where
  "encode_value VNull = encode_atom ''nil''"
| "encode_value (VBool b) = encode_atom (if b then ''true'' else ''false'')"
| "encode_value (VUnsigned v) = encode_unsigned v"
| "encode_value (VSigned v) =
     (if 0 \<le> sint v then encode_unsigned v
      else if - (2 ^ 31) \<le> sint v \<and> sint v \<le> 2 ^ 31 - 1
      then INTEGER_EXT # be_bytes 4 (unat (ucast v :: u32))
      else encode_big (unsigned_abs v) True)"
| "encode_value (VFloat v) = NEW_FLOAT_EXT # be_bytes 8 (unat v)"
| "encode_value (VBinary v) = BINARY_EXT # be_bytes 4 (length v) @ v"
| "encode_value (VAtom v) = encode_atom v"
| "encode_value (VTuple vs) =
     (if length vs \<le> 255 then [SMALL_TUPLE_EXT, word_of_nat (length vs)]
      else LARGE_TUPLE_EXT # be_bytes 4 (length vs)) @ concat (map encode_value vs)"
| "encode_value (VList vs) =
     (if vs = [] then [NIL_EXT]
      else LIST_EXT # be_bytes 4 (length vs) @ concat (map encode_value vs) @ [NIL_EXT])"
| "encode_value (VMap es) =
     MAP_EXT # be_bytes 4 (length es)
       @ concat (map (\<lambda>(k, v). encode_value k @ encode_value v) es)"

section \<open>Decoder\<close>

record decoder =
  dec_input :: "u8 list"
  position :: nat

definition dec_byte :: "decoder \<Rightarrow> wire_error + (u8 \<times> decoder)" where
  "dec_byte d =
     (if position d < length (dec_input d)
      then Inr (dec_input d ! position d, d\<lparr>position := position d + 1\<rparr>)
      else Inl (WireError ''truncated wire payload''))"

definition dec_take :: "nat \<Rightarrow> decoder \<Rightarrow> wire_error + (u8 list \<times> decoder)" where
  "dec_take n d =
     (if position d + n \<ge> 2 ^ 64 then Inl (WireError ''wire length overflow'')
      else if position d + n \<le> length (dec_input d)
      then Inr (take n (drop (position d) (dec_input d)), d\<lparr>position := position d + n\<rparr>)
      else Inl (WireError ''truncated wire payload''))"

definition dec_array :: "nat \<Rightarrow> decoder \<Rightarrow> wire_error + (u8 list \<times> decoder)" where
  "dec_array n d =
     rbind (dec_take n d) (\<lambda>(bs, d).
       if length bs = n then Inr (bs, d) else Inl (WireError ''truncated wire payload''))"

definition dec_u16 :: "decoder \<Rightarrow> wire_error + (nat \<times> decoder)" where
  "dec_u16 d = rbind (dec_array 2 d) (\<lambda>(bs, d). Inr (be_val bs, d))"

definition dec_i32 :: "decoder \<Rightarrow> wire_error + (u32 \<times> decoder)" where
  "dec_i32 d = rbind (dec_array 4 d) (\<lambda>(bs, d). Inr (word_of_nat (be_val bs), d))"

definition dec_length :: "decoder \<Rightarrow> wire_error + (nat \<times> decoder)" where
  "dec_length d = rbind (dec_array 4 d) (\<lambda>(bs, d). Inr (be_val bs, d))"

definition dec_f64 :: "decoder \<Rightarrow> wire_error + (f64_bits \<times> decoder)" where
  "dec_f64 d = rbind (dec_array 8 d) (\<lambda>(bs, d). Inr (word_of_nat (be_val bs), d))"

definition dec_atom :: "nat \<Rightarrow> decoder \<Rightarrow> wire_error + (wvalue \<times> decoder)" where
  "dec_atom n d =
     rbind (dec_take n d) (\<lambda>(bs, d).
     rbind (ok_or (from_utf8 bs) (WireError ''wire atom is not UTF-8'')) (\<lambda>atom.
       if atom = ''nil'' \<or> atom = ''null'' then Inr (VNull, d)
       else if atom = ''true'' then Inr (VBool True, d)
       else if atom = ''false'' then Inr (VBool False, d)
       else Inr (VAtom atom, d)))"

fun or_bytes :: "nat \<Rightarrow> u8 list \<Rightarrow> u64 \<Rightarrow> u64" where
  \<comment> \<open>the \<open>for (shift, byte)\<close> loop of \<open>big_integer\<close>\<close>
  "or_bytes shift [] magnitude = magnitude"
| "or_bytes shift (b # bs) magnitude =
     or_bytes (shift + 1) bs (magnitude OR push_bit (shift * 8) (ucast b))"

definition dec_big :: "nat \<Rightarrow> decoder \<Rightarrow> wire_error + (wvalue \<times> decoder)" where
  "dec_big n d =
     (if n > 8 then Inl (WireError ''wire integer exceeds 64 bits'')
      else rbind (dec_byte d) (\<lambda>(sign, d).
        rbind (if sign = 0 then Inr False else if sign = 1 then Inr True
               else Inl (WireError ''wire integer has an invalid sign'')) (\<lambda>negative.
        rbind (dec_take n d) (\<lambda>(bs, d).
          let magnitude = or_bytes 0 bs 0 in
          if negative then
            if magnitude = push_bit 63 1 then Inr (VSigned (push_bit 63 1), d)
            else if unat magnitude \<le> 2 ^ 63 - 1 then Inr (VSigned (- magnitude), d)
            else Inl (WireError ''negative wire integer exceeds i64'')
          else Inr (VUnsigned magnitude, d)))))"

definition ensure_collection :: "nat \<Rightarrow> nat \<Rightarrow> decoder \<Rightarrow> wire_error + unit" where
  "ensure_collection n minimum_bytes d =
     (if n > (length (dec_input d) - position d) div minimum_bytes
      then Inl (WireError ''wire collection length exceeds its payload'') else Inr ())"

fun dec_repeat :: "nat \<Rightarrow> (decoder \<Rightarrow> wire_error + ('a \<times> decoder)) \<Rightarrow> decoder
    \<Rightarrow> wire_error + ('a list \<times> decoder)" where
  \<comment> \<open>a \<open>for _ in 0..length\<close> loop that pushes what its body decodes\<close>
  "dec_repeat 0 f d = Inr ([], d)"
| "dec_repeat (Suc n) f d =
     rbind (f d) (\<lambda>(x, d). rbind (dec_repeat n f d) (\<lambda>(xs, d). Inr (x # xs, d)))"

definition dec_values :: "(decoder \<Rightarrow> wire_error + ('a \<times> decoder)) \<Rightarrow> nat \<Rightarrow> decoder
    \<Rightarrow> wire_error + ('a list \<times> decoder)" where
  \<comment> \<open>\<open>Decoder::values\<close>; \<open>f\<close> is \<open>value\<close> one level deeper\<close>
  "dec_values f n d = rbind (ensure_collection n 1 d) (\<lambda>_. dec_repeat n f d)"

definition dec_pair :: "(decoder \<Rightarrow> wire_error + ('a \<times> decoder)) \<Rightarrow> decoder
    \<Rightarrow> wire_error + (('a \<times> 'a) \<times> decoder)" where
  "dec_pair f d = rbind (f d) (\<lambda>(k, d). rbind (f d) (\<lambda>(v, d). Inr ((k, v), d)))"

definition dec_entries :: "(decoder \<Rightarrow> wire_error + ('a \<times> decoder)) \<Rightarrow> nat \<Rightarrow> decoder
    \<Rightarrow> wire_error + (('a \<times> 'a) list \<times> decoder)" where
  "dec_entries f n d = rbind (ensure_collection n 2 d) (\<lambda>_. dec_repeat n (dec_pair f) d)"

function dec_value :: "nat \<Rightarrow> decoder \<Rightarrow> wire_error + (wvalue \<times> decoder)" where
  "dec_value depth d =
    (if depth > MAXIMUM_NESTING then Inl (WireError ''wire value nesting is too deep'')
     else rbind (dec_byte d) (\<lambda>(tag, d).
       if tag = SMALL_INTEGER_EXT then
         rbind (dec_byte d) (\<lambda>(b, d). Inr (VUnsigned (ucast b), d))
       else if tag = INTEGER_EXT then
         rbind (dec_i32 d) (\<lambda>(i, d). Inr (VSigned (scast i), d))
       else if tag = NEW_FLOAT_EXT then
         rbind (dec_f64 d) (\<lambda>(f, d). Inr (VFloat f, d))
       else if tag = ATOM_EXT \<or> tag = ATOM_UTF8_EXT then
         rbind (dec_u16 d) (\<lambda>(n, d). dec_atom n d)
       else if tag = SMALL_ATOM_EXT \<or> tag = SMALL_ATOM_UTF8_EXT then
         rbind (dec_byte d) (\<lambda>(n, d). dec_atom (unat n) d)
       else if tag = SMALL_TUPLE_EXT then
         rbind (dec_byte d) (\<lambda>(n, d).
         rbind (dec_values (dec_value (depth + 1)) (unat n) d) (\<lambda>(vs, d). Inr (VTuple vs, d)))
       else if tag = LARGE_TUPLE_EXT then
         rbind (dec_length d) (\<lambda>(n, d).
         rbind (dec_values (dec_value (depth + 1)) n d) (\<lambda>(vs, d). Inr (VTuple vs, d)))
       else if tag = NIL_EXT then Inr (VList [], d)
       else if tag = STRING_EXT then
         rbind (dec_u16 d) (\<lambda>(n, d).
         rbind (dec_take n d) (\<lambda>(bs, d). Inr (VList (map (\<lambda>b. VUnsigned (ucast b)) bs), d)))
       else if tag = LIST_EXT then
         rbind (dec_length d) (\<lambda>(n, d).
         rbind (dec_values (dec_value (depth + 1)) n d) (\<lambda>(vs, d).
         rbind (dec_byte d) (\<lambda>(t, d).
           if t \<noteq> NIL_EXT then Inl (WireError ''improper wire lists are unsupported'')
           else Inr (VList vs, d))))
       else if tag = BINARY_EXT then
         rbind (dec_length d) (\<lambda>(n, d).
         rbind (dec_take n d) (\<lambda>(bs, d). Inr (VBinary bs, d)))
       else if tag = SMALL_BIG_EXT then
         rbind (dec_byte d) (\<lambda>(n, d). dec_big (unat n) d)
       else if tag = LARGE_BIG_EXT then
         rbind (dec_length d) (\<lambda>(n, d). dec_big n d)
       else if tag = MAP_EXT then
         rbind (dec_length d) (\<lambda>(n, d).
         rbind (dec_entries (dec_value (depth + 1)) n d) (\<lambda>(es, d). Inr (VMap es, d)))
       else Inl (WireError (''unsupported external-term tag '' @ show_nat (unat tag)))))"
  by pat_completeness auto
termination
  by (relation "measure (\<lambda>(depth, d). MAXIMUM_NESTING + 1 - depth)") auto

declare dec_value.simps [simp del]

definition decode_payload :: "u8 list \<Rightarrow> wire_error + wvalue" where
  "decode_payload payload =
     rbind (dec_byte \<lparr>dec_input = payload, position = 0\<rparr>) (\<lambda>(version, d).
       if version \<noteq> ETF_VERSION then Inl (WireError ''wire payload is not an external term'')
       else rbind (dec_value 0 d) (\<lambda>(v, d).
         if position d \<noteq> length payload
         then Inl (WireError ''wire payload has trailing bytes'') else Inr v))"

section \<open>Frames\<close>

text \<open>
  A reader is what the operating system will still deliver: the bytes to come, and how the
  stream ends after them (end of file, or an I/O error with its message). A read that runs into
  the end has consumed what there was. A writer accumulates the bytes handed to the peer; a
  broken pipe is a writer whose every write fails.
\<close>

datatype stream_end = Eof | ReadFailed string

record reader =
  incoming :: "u8 list"
  ending :: stream_end

datatype io_error = UnexpectedEof | InvalidInput string | IoError string

definition read_exact :: "nat \<Rightarrow> reader \<Rightarrow> (io_error + u8 list) \<times> reader" where
  \<comment> \<open>\<open>Read::read_exact\<close> of the standard library\<close>
  "read_exact n r =
     (if n \<le> length (incoming r) then (Inr (take n (incoming r)), r\<lparr>incoming := drop n (incoming r)\<rparr>)
      else (Inl (case ending r of Eof \<Rightarrow> UnexpectedEof | ReadFailed e \<Rightarrow> IoError e), r\<lparr>incoming := []\<rparr>))"

definition show_io_error :: "io_error \<Rightarrow> string" where
  "show_io_error e =
     (case e of UnexpectedEof \<Rightarrow> ''failed to fill whole buffer'' | InvalidInput m \<Rightarrow> m | IoError m \<Rightarrow> m)"

definition read_exact_frame :: "nat \<Rightarrow> reader \<Rightarrow> (wire_error + u8 list) \<times> reader" where
  "read_exact_frame n r =
     (case read_exact n r of (m, r) \<Rightarrow>
       (map_err (\<lambda>e. if e = UnexpectedEof then WireError ''unexpected end of bridge stream''
                     else WireError (''bridge frame read failed: '' @ show_io_error e)) m, r))"

definition read_frame :: "u8 \<Rightarrow> reader \<Rightarrow> (wire_error + wvalue) \<times> reader" where
  "read_frame protocol_version r =
     (case read_exact_frame 9 r of
       (Inl e, r) \<Rightarrow> (Inl e, r)
     | (Inr header, r) \<Rightarrow>
         if take 4 header \<noteq> MAGIC then (Inl (WireError ''invalid Findex frame magic''), r)
         else if header ! 4 \<noteq> protocol_version then
           (Inl (WireError (''wire protocol '' @ show_nat (unat (header ! 4))
              @ '' is unsupported; expected '' @ show_nat (unat protocol_version))), r)
         else let n = be_val (drop 5 header) in
           if n > MAXIMUM_FRAME_BYTES then
             (Inl (WireError (''wire frame is '' @ show_nat n @ '' bytes; maximum is ''
                @ show_nat MAXIMUM_FRAME_BYTES)), r)
           else (case read_exact_frame n r of
               (Inl e, r) \<Rightarrow> (Inl e, r)
             | (Inr payload, r) \<Rightarrow> (decode_payload payload, r)))"

record writer =
  sent :: "u8 list"
  broken :: "io_error option"

definition frame_payload :: "wvalue \<Rightarrow> u8 list" where
  "frame_payload v = ETF_VERSION # encode_value v"

definition frame_bytes :: "u8 \<Rightarrow> wvalue \<Rightarrow> u8 list" where
  "frame_bytes protocol_version v =
     MAGIC @ [protocol_version] @ be_bytes 4 (length (frame_payload v)) @ frame_payload v"

definition write_frame :: "u8 \<Rightarrow> wvalue \<Rightarrow> writer \<Rightarrow> (io_error + unit) \<times> writer" where
  "write_frame protocol_version v w =
     (if length (frame_payload v) \<ge> 2 ^ 32
      then (Inl (InvalidInput ''wire frame exceeds 4 GiB''), w)
      else case broken w of
        Some e \<Rightarrow> (Inl e, w)
      | None \<Rightarrow> (Inr (), w\<lparr>sent := sent w @ frame_bytes protocol_version v\<rparr>))"

end
