(* ===== verification/Wire_Codec.thy ===== *)
theory Wire_Codec
  imports Wire
begin

text \<open>
  Reading what was written. A cursor \<open>at\<close> some bytes steps over each primitive of the format
  (byte, slice, big-endian integer, atom, big integer). The locale \<open>codec\<close> is the contract
  between an encoder and a decoder of one kind of element; its lemmas lift the contract to the
  sequences and maps of such elements, whatever the element is. \<open>Wire_Roundtrip\<close> uses it at
  every nesting level and interprets it on the values themselves.
\<close>

section \<open>Cursor positions\<close>

definition adv :: "nat \<Rightarrow> decoder \<Rightarrow> decoder" where
  "adv n d = d\<lparr>position := position d + n\<rparr>"

definition at :: "decoder \<Rightarrow> u8 list \<Rightarrow> bool" where
  "at d xs \<longleftrightarrow> position d \<le> length (dec_input d) \<and> length (dec_input d) < 2 ^ 64
     \<and> drop (position d) (dec_input d) = xs"

named_theorems cursor \<open>stepping a cursor over the bytes it is at\<close>

lemma adv_adv [simp]: "adv m (adv n d) = adv (n + m) d"
  by (simp add: adv_def add.assoc)

lemma adv_0 [simp]: "adv 0 d = d"
  by (simp add: adv_def)

lemma position_adv [simp]: "position (adv n d) = position d + n"
  by (simp add: adv_def)

lemma dec_input_adv [simp]: "dec_input (adv n d) = dec_input d"
  by (simp add: adv_def)

lemma at_length: "at d xs \<Longrightarrow> length (dec_input d) = position d + length xs"
  by (auto simp: at_def)

lemma at_bound: "at d xs \<Longrightarrow> position d + length xs < 2 ^ 64"
  using at_length [of d xs] unfolding at_def by linarith

lemma at_adv:
  assumes "at d (xs @ ys)"
  shows "at (adv (length xs) d) ys"
proof -
  have "drop (length xs) (drop (position d) (dec_input d)) = ys"
    using assms by (simp add: at_def)
  then have "drop (position d + length xs) (dec_input d) = ys"
    by (simp add: add.commute)
  then show ?thesis
    using assms at_length [OF assms] by (simp add: at_def adv_def)
qed

lemma at_adv1 [cursor]: "at d (x # xs) \<Longrightarrow> at (adv 1 d) xs"
  using at_adv [of d "[x]" xs] by simp

lemma at_advn [cursor]: "at d (xs @ ys) \<Longrightarrow> n = length xs \<Longrightarrow> at (adv n d) ys"
  using at_adv by blast

lemma dec_byte_at [cursor]:
  assumes "at d (b # xs)"
  shows "dec_byte d = Inr (b, adv 1 d)"
proof -
  have p: "position d < length (dec_input d)"
    using at_length [OF assms] by simp
  have "drop (position d) (dec_input d) = b # xs"
    using assms by (simp add: at_def)
  then have "dec_input d ! position d = b"
    using hd_drop_conv_nth [OF p] by simp
  then show ?thesis using p by (simp add: dec_byte_def adv_def)
qed

lemma dec_take_at [cursor]:
  "at d (xs @ ys) \<Longrightarrow> n = length xs \<Longrightarrow> dec_take n d = Inr (xs, adv n d)"
  using at_length [of d "xs @ ys"] at_bound [of d "xs @ ys"]
  by (simp add: dec_take_def adv_def) (simp add: at_def)

lemma dec_array_at: "at d (xs @ ys) \<Longrightarrow> n = length xs \<Longrightarrow> dec_array n d = Inr (xs, adv n d)"
  by (simp add: dec_array_def dec_take_at)

lemma dec_length_at [cursor]:
  "at d (be_bytes 4 n @ ys) \<Longrightarrow> n < 2 ^ 32 \<Longrightarrow> dec_length d = Inr (n, adv 4 d)"
  by (simp add: dec_length_def dec_array_at be_val_be_bytes)

lemma dec_u16_at [cursor]:
  "at d (be_bytes 2 n @ ys) \<Longrightarrow> n < 2 ^ 16 \<Longrightarrow> dec_u16 d = Inr (n, adv 2 d)"
  by (simp add: dec_u16_def dec_array_at be_val_be_bytes)

lemma dec_i32_at [cursor]:
  "at d (be_bytes 4 n @ ys) \<Longrightarrow> n < 2 ^ 32 \<Longrightarrow> dec_i32 d = Inr (word_of_nat n, adv 4 d)"
  by (simp add: dec_i32_def dec_array_at be_val_be_bytes)

lemma dec_f64_at [cursor]: "at d (be_bytes 8 (unat f) @ ys) \<Longrightarrow> dec_f64 d = Inr (f, adv 8 d)"
  by (simp add: dec_f64_def dec_array_at be_val_be_bytes)

lemma ensure_collection_at:
  "at d xs \<Longrightarrow> 0 < m \<Longrightarrow> n * m \<le> length xs \<Longrightarrow> ensure_collection n m d = Inr ()"
  using at_length [of d xs] by (simp add: ensure_collection_def less_eq_div_iff_mult_less_eq not_less)

section \<open>Big integers\<close>

lemma big_bytes_Cons: "m \<noteq> 0 \<Longrightarrow> big_bytes m = ucast m # big_bytes (drop_bit 8 m)"
  by (simp add: big_bytes.simps)

lemma big_bytes_0 [simp]: "big_bytes 0 = []"
  by (simp add: big_bytes.simps)

lemma or_low_byte:
  "push_bit n (ucast (ucast (m :: u64) :: u8)) OR push_bit (n + 8) (drop_bit 8 m) = (push_bit n m :: u64)"
proof (rule bit_word_eqI)
  fix i
  assume "i < LENGTH(64)"
  moreover have "\<not> i - n < 8 \<Longrightarrow> n \<le> i \<Longrightarrow> 8 + (i - (n + 8)) = i - n"
    by linarith
  ultimately show "bit (push_bit n (ucast (ucast m :: u8)) OR push_bit (n + 8) (drop_bit 8 m) :: u64) i
      \<longleftrightarrow> bit (push_bit n m :: u64) i"
    by (cases "i - n < 8") (auto simp: bit_simps)
qed

lemma or_bytes_big_bytes:
  "or_bytes n (big_bytes m) acc = acc OR push_bit (n * 8) m"
proof (induction m arbitrary: n acc rule: big_bytes.induct)
  case (1 m)
  show ?case
  proof (cases "m = 0")
    case True
    then show ?thesis by simp
  next
    case False
    then have "or_bytes n (big_bytes m) acc
      = (acc OR push_bit (n * 8) (ucast (ucast m :: u8))) OR push_bit (Suc n * 8) (drop_bit 8 m)"
      using 1 by (simp add: big_bytes_Cons)
    also have "\<dots> = acc OR push_bit (n * 8) m"
      using or_low_byte [of "n * 8" m] by (simp add: or.assoc add.commute)
    finally show ?thesis .
  qed
qed

lemma length_big_bytes: "unat m < 256 ^ k \<Longrightarrow> length (big_bytes m) \<le> k"
proof (induction k arbitrary: m)
  case 0
  then have "m = 0" by (simp add: unat_eq_0)
  then show ?case by simp
next
  case (Suc k)
  have "unat (drop_bit 8 m) < 256 ^ k"
    using Suc.prems by (simp add: drop_bit_eq_div unat_div less_mult_imp_div_less mult.commute)
  then show ?case
    using Suc.IH by (cases "m = 0") (simp_all add: big_bytes_Cons)
qed

lemma length_big_bytes_8: "length (big_bytes m) \<le> 8"
  by (rule length_big_bytes) simp

definition big_payload :: "u64 \<Rightarrow> u8 list" where
  "big_payload m = (if big_bytes m = [] then [0] else big_bytes m)"

lemma or_bytes_big_payload: "or_bytes 0 (big_payload m) 0 = m"
proof (cases "m = 0")
  case False
  then show ?thesis
    using or_bytes_big_bytes [of 0 m 0] by (simp add: big_payload_def big_bytes_Cons)
qed (simp add: big_payload_def)

lemma length_big_payload: "length (big_payload m) \<le> 8"
  using length_big_bytes_8 [of m] by (simp add: big_payload_def)

lemma encode_big_eq:
  "encode_big m neg = SMALL_BIG_EXT # word_of_nat (length (big_payload m))
     # (if neg then 1 else 0) # big_payload m"
  by (simp add: encode_big_def big_payload_def Let_def)

lemma dec_big_unsigned_at [cursor]:
  "at d (0 # big_payload m @ ys) \<Longrightarrow> n = length (big_payload m)
     \<Longrightarrow> dec_big n d = Inr (VUnsigned m, adv (1 + n) d)"
  using length_big_payload [of m] at_adv1 [of d 0 "big_payload m @ ys"]
  by (simp add: dec_big_def dec_byte_at dec_take_at or_bytes_big_payload)

lemma dec_big_negative_at [cursor]:
  assumes "at d (1 # big_payload m @ ys)" and "n = length (big_payload m)" and "unat m \<le> 2 ^ 63"
  shows "dec_big n d = Inr (VSigned (- m), adv (1 + n) d)"
proof -
  have "dec_big n d = rbind (dec_take n (adv 1 d)) (\<lambda>(bs, d).
      let magnitude = or_bytes 0 bs 0 in
      if magnitude = push_bit 63 1 then Inr (VSigned (push_bit 63 1), d)
      else if unat magnitude \<le> 2 ^ 63 - 1 then Inr (VSigned (- magnitude), d)
      else Inl (WireError ''negative wire integer exceeds i64''))"
    using assms(1,2) length_big_payload [of m] by (simp add: dec_big_def dec_byte_at)
  also have "\<dots> = Inr (VSigned (- m), adv (1 + n) d)"
  proof (cases "m = push_bit 63 1")
    case True
    then show ?thesis
      using at_adv1 [OF assms(1)] assms(2) by (simp add: dec_take_at or_bytes_big_payload)
  next
    case False
    then have "unat m \<noteq> 2 ^ 63" by (auto simp: word_unat_eq_iff)
    then show ?thesis
      using at_adv1 [OF assms(1)] assms(2,3) False by (simp add: dec_take_at or_bytes_big_payload)
  qed
  finally show ?thesis .
qed

section \<open>The contract of an element codec\<close>

locale codec =
  fixes enc :: "'a \<Rightarrow> u8 list"
    and dec :: "decoder \<Rightarrow> wire_error + ('b \<times> decoder)"
    and canon :: "'a \<Rightarrow> 'b"
    and ok :: "'a \<Rightarrow> bool"
  assumes dec_enc: "ok x \<Longrightarrow> at d (enc x @ ys) \<Longrightarrow> dec d = Inr (canon x, adv (length (enc x)) d)"
    and enc_not_Nil: "enc x \<noteq> []"
begin

lemma length_enc: "1 \<le> length (enc x)"
  using enc_not_Nil [of x] by (cases "enc x") auto

lemma length_concat_enc: "length xs \<le> length (concat (map enc xs))"
proof (induction xs)
  case (Cons x xs)
  then show ?case using length_enc [of x] by simp
qed simp

lemma dec_repeat_enc:
  "\<lbrakk>\<And>x. x \<in> set xs \<Longrightarrow> ok x; at d (concat (map enc xs) @ ys)\<rbrakk>
   \<Longrightarrow> dec_repeat (length xs) dec d = Inr (map canon xs, adv (length (concat (map enc xs))) d)"
proof (induction xs arbitrary: d)
  case (Cons x xs)
  have "dec d = Inr (canon x, adv (length (enc x)) d)"
    using Cons.prems by (intro dec_enc) simp_all
  moreover have "at (adv (length (enc x)) d) (concat (map enc xs) @ ys)"
    using Cons.prems(2) by (intro at_adv) simp
  ultimately show ?case using Cons.IH Cons.prems(1) by simp
qed simp

lemma dec_values_enc:
  assumes "\<And>x. x \<in> set xs \<Longrightarrow> ok x" and "at d (concat (map enc xs) @ ys)"
  shows "dec_values dec (length xs) d = Inr (map canon xs, adv (length (concat (map enc xs))) d)"
proof -
  have "ensure_collection (length xs) 1 d = Inr ()"
    by (rule ensure_collection_at [OF assms(2)]) (use length_concat_enc [of xs] in simp_all)
  then show ?thesis
    using assms by (simp add: dec_values_def dec_repeat_enc)
qed

end

text \<open>Pairs of elements form a codec again, and a map is a sequence of pairs.\<close>

definition enc_pair :: "('a \<Rightarrow> u8 list) \<Rightarrow> 'a \<times> 'a \<Rightarrow> u8 list" where
  "enc_pair enc p = enc (fst p) @ enc (snd p)"

context codec
begin

lemma pair_codec:
  "codec (enc_pair enc) (dec_pair dec) (map_prod canon canon) (\<lambda>p. ok (fst p) \<and> ok (snd p))"
proof
  fix p d ys
  assume ok: "ok (fst p) \<and> ok (snd p)" and d: "at d (enc_pair enc p @ ys)"
  have "dec d = Inr (canon (fst p), adv (length (enc (fst p))) d)"
    using ok d by (intro dec_enc) (simp_all add: enc_pair_def)
  moreover have d': "at (adv (length (enc (fst p))) d) (enc (snd p) @ ys)"
    using d by (intro at_adv) (simp add: enc_pair_def)
  moreover note dec_enc [OF conjunct2 [OF ok] d']
  ultimately show "dec_pair dec d = Inr (map_prod canon canon p, adv (length (enc_pair enc p)) d)"
    by (cases p) (simp add: dec_pair_def enc_pair_def)
qed (simp add: enc_pair_def enc_not_Nil)

lemma length_concat_pairs: "2 * length ps \<le> length (concat (map (enc_pair enc) ps))"
proof (induction ps)
  case (Cons p ps)
  then show ?case
    using length_enc [of "fst p"] length_enc [of "snd p"] by (simp add: enc_pair_def)
qed simp

lemma dec_entries_enc:
  assumes "\<And>p. p \<in> set ps \<Longrightarrow> ok (fst p) \<and> ok (snd p)"
    and "at d (concat (map (enc_pair enc) ps) @ ys)"
  shows "dec_entries dec (length ps) d
    = Inr (map (map_prod canon canon) ps, adv (length (concat (map (enc_pair enc) ps))) d)"
proof -
  have "ensure_collection (length ps) 2 d = Inr ()"
    by (rule ensure_collection_at [OF assms(2)]) (use length_concat_pairs [of ps] in simp_all)
  then show ?thesis
    using codec.dec_repeat_enc [OF pair_codec assms] by (simp add: dec_entries_def)
qed

end

end
