(* ===== verification/Wire_Roundtrip.thy ===== *)
theory Wire_Roundtrip
  imports Wire_Codec
begin

text \<open>
  The round trip of \<open>wire.rs\<close>. \<open>encodable depth v\<close> says that \<open>v\<close>, met at a nesting depth, fits
  the format: lengths fit their length fields, atoms are UTF-8, and nothing lies deeper than
  \<open>MAXIMUM_NESTING\<close>. The decoder does not return the value itself but its canonical form
  \<open>canon v\<close>: the format has one encoding for an integer or an atom that several values share
  (\<open>VUnsigned 300\<close> comes back as \<open>VSigned 300\<close>, the atom \<open>nil\<close> as \<open>VNull\<close>).
\<close>

section \<open>Canonical and encodable values\<close>

definition atom_value :: "string \<Rightarrow> wvalue" where
  "atom_value atom =
     (if atom = ''nil'' \<or> atom = ''null'' then VNull
      else if atom = ''true'' then VBool True
      else if atom = ''false'' then VBool False
      else VAtom atom)"

definition canon_unsigned :: "u64 \<Rightarrow> wvalue" where
  "canon_unsigned v = (if 255 < unat v \<and> unat v \<le> 2 ^ 31 - 1 then VSigned v else VUnsigned v)"

fun canon :: "wvalue \<Rightarrow> wvalue" where
  "canon (VUnsigned v) = canon_unsigned v"
| "canon (VSigned v) = (if 0 \<le> sint v then canon_unsigned v else VSigned v)"
| "canon (VAtom s) = atom_value s"
| "canon (VTuple vs) = VTuple (map canon vs)"
| "canon (VList vs) = VList (map canon vs)"
| "canon (VMap es) = VMap (map (map_prod canon canon) es)"
| "canon v = v"

fun encodable :: "nat \<Rightarrow> wvalue \<Rightarrow> bool" where
  "encodable depth (VBinary b) = (depth \<le> MAXIMUM_NESTING \<and> length b < 2 ^ 32)"
| "encodable depth (VAtom s) = (depth \<le> MAXIMUM_NESTING \<and> length s < 2 ^ 16 \<and> rust_str s)"
| "encodable depth (VTuple vs) =
     (depth \<le> MAXIMUM_NESTING \<and> length vs < 2 ^ 32 \<and> (\<forall>v \<in> set vs. encodable (depth + 1) v))"
| "encodable depth (VList vs) =
     (depth \<le> MAXIMUM_NESTING \<and> length vs < 2 ^ 32 \<and> (\<forall>v \<in> set vs. encodable (depth + 1) v))"
| "encodable depth (VMap es) =
     (depth \<le> MAXIMUM_NESTING \<and> length es < 2 ^ 32
        \<and> (\<forall>p \<in> set es. encodable (depth + 1) (fst p) \<and> encodable (depth + 1) (snd p)))"
| "encodable depth v = (depth \<le> MAXIMUM_NESTING)"

lemma encodable_depth: "encodable depth v \<Longrightarrow> depth \<le> MAXIMUM_NESTING"
  by (cases v) auto

section \<open>Scalars\<close>

lemma scast_ucast_u32:
  fixes v :: i64
  assumes "- (2 ^ 31) \<le> sint v" and "sint v \<le> 2 ^ 31 - 1"
  shows "scast (ucast v :: u32) = v"
proof -
  have "sint (ucast v :: u32) = sint v"
    using assms
  proof (transfer fixing: )
    fix k :: int
    assume "- (2 ^ 31) \<le> signed_take_bit (LENGTH(64) - Suc 0) k"
      and "signed_take_bit (LENGTH(64) - Suc 0) k \<le> 2 ^ 31 - 1"
    then have "signed_take_bit 31 (signed_take_bit 63 k) = signed_take_bit 63 k"
      by (intro signed_take_bit_int_eq_self) simp_all
    then show "signed_take_bit (LENGTH(32) - Suc 0) (take_bit LENGTH(64) k)
        = signed_take_bit (LENGTH(64) - Suc 0) k"
      by (simp add: signed_take_bit_take_bit)
  qed
  then show ?thesis by (simp add: scast_eq)
qed

lemma scast_small:
  fixes v :: u64
  assumes "unat v \<le> 2 ^ 31 - 1"
  shows "scast (word_of_nat (unat v) :: u32) = v"
proof -
  have "int (unat v) \<le> int (2 ^ 31 - 1)" using assms by (simp only: of_nat_le_iff)
  then have u: "uint v \<le> 2147483647" by simp
  have "- (2 ^ 31) \<le> uint v" by (rule order_trans [OF _ uint_ge_0]) simp
  moreover have "uint v < 2 ^ 31" using u by simp
  ultimately have "signed_take_bit 31 (uint v) = uint v" by (rule signed_take_bit_int_eq_self)
  then have "sint (word_of_nat (unat v) :: u32) = uint v"
    using u by (simp add: sint_uint unsigned_ucast_eq take_bit_int_eq_self)
  then show ?thesis by (simp add: scast_eq)
qed

lemma ucast_ucast_u8: "unat (v :: u64) \<le> 255 \<Longrightarrow> ucast (ucast v :: u8) = v"
proof -
  assume "unat v \<le> 255"
  then have "take_bit 8 (unat v) = unat v" by (simp add: take_bit_nat_eq_self)
  then show "ucast (ucast v :: u8) = v"
    by (simp add: word_unat_eq_iff unsigned_ucast_eq unsigned_take_bit_eq)
qed

lemma uint_uminus_i64:
  fixes v :: i64
  assumes "sint v < 0"
  shows "uint (- v) = - sint v"
proof -
  have "uint (- v) = - uint v mod 2 ^ 64"
    by (simp add: uint_word_ariths)
  also have "\<dots> = - sint v mod 2 ^ 64"
    by (simp add: uint_sint take_bit_eq_mod mod_minus_eq)
  also have "\<dots> = - sint v"
    using assms sint_ge [of v] by (intro mod_pos_pos_trivial) simp_all
  finally show ?thesis .
qed

lemma dec_atom_at:
  "rust_str s \<Longrightarrow> at d (as_bytes s @ ys) \<Longrightarrow> n = length s
    \<Longrightarrow> dec_atom n d = Inr (atom_value s, adv n d)"
  by (simp add: dec_atom_def dec_take_at atom_value_def)

lemma dec_value_atom:
  assumes "depth \<le> MAXIMUM_NESTING" "length s < 2 ^ 16" "rust_str s"
    and d: "at d (encode_atom s @ ys)"
  shows "dec_value depth d = Inr (atom_value s, adv (length (encode_atom s)) d)"
proof (cases "length s \<le> 255")
  case True
  with d have d: "at d (SMALL_ATOM_UTF8_EXT # word_of_nat (length s) # as_bytes s @ ys)"
    by (simp add: encode_atom_def)
  have d1: "at (adv 1 d) (word_of_nat (length s) # as_bytes s @ ys)"
    using d by (rule at_adv1)
  have d2: "at (adv 2 d) (as_bytes s @ ys)"
    using at_adv1 [OF d1] by (simp add: numeral_2_eq_2)
  have "dec_atom (length s) (adv 2 d) = Inr (atom_value s, adv (2 + length s) d)"
    using dec_atom_at [OF assms(3) d2] by simp
  then show ?thesis
    using True assms(1) dec_byte_at [OF d] dec_byte_at [OF d1]
    by (simp add: dec_value.simps encode_atom_def unat_of_nat flip: numeral_2_eq_2)
next
  case False
  with d have d: "at d (ATOM_UTF8_EXT # be_bytes 2 (length s) @ as_bytes s @ ys)"
    by (simp add: encode_atom_def)
  have d1: "at (adv 1 d) (be_bytes 2 (length s) @ as_bytes s @ ys)"
    using d by (rule at_adv1)
  have d2: "at (adv 3 d) (as_bytes s @ ys)"
    using at_adv [OF d1] by (simp add: numeral_3_eq_3)
  have "dec_atom (length s) (adv 3 d) = Inr (atom_value s, adv (Suc (Suc (Suc (length s)))) d)"
    using dec_atom_at [OF assms(3) d2] by simp
  then show ?thesis
    using False assms(1,2) dec_byte_at [OF d] dec_u16_at [OF d1]
    by (simp add: dec_value.simps encode_atom_def flip: numeral_3_eq_3)
qed

lemma dec_value_integer_ext:
  assumes "depth \<le> MAXIMUM_NESTING" "n < 2 ^ 32" and d: "at d (INTEGER_EXT # be_bytes 4 n @ ys)"
  shows "dec_value depth d = Inr (VSigned (scast (word_of_nat n :: u32)), adv 5 d)"
  using assms(1) dec_byte_at [OF d] dec_i32_at [OF at_adv1 [OF d] assms(2)]
  by (simp add: dec_value.simps)

lemma dec_value_big:
  assumes "depth \<le> MAXIMUM_NESTING" and d: "at d (encode_big m neg @ ys)"
    and "neg \<Longrightarrow> unat m \<le> 2 ^ 63"
  shows "dec_value depth d
    = Inr (if neg then VSigned (- m) else VUnsigned m, adv (length (encode_big m neg)) d)"
proof -
  let ?n = "length (big_payload m)"
  from d have d: "at d (SMALL_BIG_EXT # word_of_nat ?n # (if neg then 1 else 0) # big_payload m @ ys)"
    by (simp add: encode_big_eq)
  have d1: "at (adv 1 d) (word_of_nat ?n # (if neg then 1 else 0) # big_payload m @ ys)"
    using d by (rule at_adv1)
  have d2: "at (adv 2 d) ((if neg then 1 else 0) # big_payload m @ ys)"
    using at_adv1 [OF d1] by (simp add: numeral_2_eq_2)
  have n: "unat (word_of_nat ?n :: u8) = ?n"
    using length_big_payload [of m] by (simp add: unat_of_nat)
  have "dec_big ?n (adv 2 d) = Inr (if neg then VSigned (- m) else VUnsigned m, adv (Suc (Suc (Suc ?n))) d)"
  proof (cases neg)
    case True
    then show ?thesis using d2 assms(3) dec_big_negative_at [of "adv 2 d" m ys ?n] by simp
  next
    case False
    then show ?thesis using d2 dec_big_unsigned_at [of "adv 2 d" m ys ?n] by simp
  qed
  then show ?thesis
    using assms(1) dec_byte_at [OF d] dec_byte_at [OF d1] n
    by (simp add: dec_value.simps encode_big_eq flip: numeral_2_eq_2)
qed

lemma dec_value_unsigned:
  assumes depth: "depth \<le> MAXIMUM_NESTING" and d: "at d (encode_unsigned v @ ys)"
  shows "dec_value depth d = Inr (canon_unsigned v, adv (length (encode_unsigned v)) d)"
proof -
  consider "unat v \<le> 255" | "255 < unat v" "unat v \<le> 2 ^ 31 - 1" | "2 ^ 31 - 1 < unat v"
    by linarith
  then show ?thesis
  proof cases
    case 1
    then have "ucast (ucast v :: u8) = v" by (rule ucast_ucast_u8)
    moreover from d 1 have d: "at d (SMALL_INTEGER_EXT # ucast v # ys)"
      by (simp add: encode_unsigned_def)
    ultimately show ?thesis
      using 1 depth dec_byte_at [OF d] dec_byte_at [OF at_adv1 [OF d]]
      by (simp add: dec_value.simps canon_unsigned_def encode_unsigned_def)
  next
    case 2
    with d have "at d (INTEGER_EXT # be_bytes 4 (unat v) @ ys)"
      by (simp add: encode_unsigned_def)
    from dec_value_integer_ext [OF depth _ this] 2 scast_small [of v] show ?thesis
      by (simp add: canon_unsigned_def encode_unsigned_def)
  next
    case 3
    with d have "at d (encode_big v False @ ys)" by (simp add: encode_unsigned_def)
    from dec_value_big [OF depth this] 3 show ?thesis
      by (simp add: canon_unsigned_def encode_unsigned_def)
  qed
qed

lemma dec_value_signed:
  assumes depth: "depth \<le> MAXIMUM_NESTING" and d: "at d (encode_value (VSigned v) @ ys)"
  shows "dec_value depth d = Inr (canon (VSigned v), adv (length (encode_value (VSigned v))) d)"
proof -
  consider "0 \<le> sint v" | "sint v < 0" "- (2 ^ 31) \<le> sint v" | "sint v < - (2 ^ 31)"
    by linarith
  then show ?thesis
  proof cases
    case 1
    then show ?thesis using d dec_value_unsigned [OF depth, of d v ys] by simp
  next
    case 2
    with d have "at d (INTEGER_EXT # be_bytes 4 (unat (ucast v :: u32)) @ ys)" by simp
    from dec_value_integer_ext [OF depth _ this] 2 scast_ucast_u32 [of v] show ?thesis by simp
  next
    case 3
    have abs: "- unsigned_abs v = v" using 3 by (simp add: unsigned_abs_def)
    have "unat (unsigned_abs v) \<le> 2 ^ 63"
    proof -
      have "uint (- v) \<le> 2 ^ 63"
        using 3 sint_ge [of v] uint_uminus_i64 [of v] by simp
      then have "int (unat (- v)) \<le> int (2 ^ 63)" by simp
      then have "unat (- v) \<le> 2 ^ 63" by (simp only: of_nat_le_iff)
      then show ?thesis using 3 by (simp add: unsigned_abs_def)
    qed
    with 3 d abs show ?thesis using dec_value_big [OF depth, of d "unsigned_abs v" True ys] by simp
  qed
qed

section \<open>Every value\<close>

lemma rust_str_literals: "rust_str ''nil''" "rust_str ''true''" "rust_str ''false''"
  by code_simp+

lemma encode_atom_not_Nil: "encode_atom s \<noteq> []"
  by (simp add: encode_atom_def Let_def)

lemma encode_value_not_Nil [simp]: "encode_value v \<noteq> []"
  by (cases v) (simp_all add: encode_atom_not_Nil encode_unsigned_def encode_big_def Let_def)

lemma encode_map_entries:
  "concat (map (\<lambda>(k, v). encode_value k @ encode_value v) es) = concat (map (enc_pair encode_value) es)"
  by (simp add: enc_pair_def [abs_def] case_prod_unfold)

text \<open>One level of nesting is a \<^const>\<open>codec\<close> for the elements the level below can round-trip.\<close>

lemma element_codec:
  assumes "\<And>v d ys. v \<in> V \<Longrightarrow> encodable (depth + 1) v \<Longrightarrow> at d (encode_value v @ ys)
    \<Longrightarrow> dec_value (depth + 1) d = Inr (canon v, adv (length (encode_value v)) d)"
  shows "codec encode_value (dec_value (depth + 1)) canon (\<lambda>v. v \<in> V \<and> encodable (depth + 1) v)"
  by unfold_locales (use assms in auto)

lemma dec_value_tuple:
  assumes c: "codec encode_value (dec_value (depth + 1)) canon (\<lambda>v. v \<in> set vs \<and> encodable (depth + 1) v)"
    and ok: "encodable depth (VTuple vs)" and d: "at d (encode_value (VTuple vs) @ ys)"
  shows "dec_value depth d = Inr (canon (VTuple vs), adv (length (encode_value (VTuple vs))) d)"
proof (cases "length vs \<le> 255")
  case True
  let ?body = "concat (map encode_value vs)"
  from d True have d: "at d (SMALL_TUPLE_EXT # word_of_nat (length vs) # ?body @ ys)" by simp
  have d1: "at (adv 1 d) (word_of_nat (length vs) # ?body @ ys)" using d by (rule at_adv1)
  have d2: "at (adv 2 d) (?body @ ys)"
    using at_adv1 [OF d1] by (simp add: numeral_2_eq_2)
  have "dec_values (dec_value (depth + 1)) (length vs) (adv 2 d)
      = Inr (map canon vs, adv (length ?body) (adv 2 d))"
    using ok by (intro codec.dec_values_enc [OF c _ d2]) simp
  then show ?thesis
    using True ok dec_byte_at [OF d] dec_byte_at [OF d1]
    by (simp add: dec_value.simps unat_of_nat flip: numeral_2_eq_2)
next
  case False
  let ?body = "concat (map encode_value vs)"
  from d False have d: "at d (LARGE_TUPLE_EXT # be_bytes 4 (length vs) @ ?body @ ys)" by simp
  have d1: "at (adv 1 d) (be_bytes 4 (length vs) @ ?body @ ys)" using d by (rule at_adv1)
  have d2: "at (adv 5 d) (?body @ ys)" using at_adv [OF d1] by simp
  have "dec_values (dec_value (depth + 1)) (length vs) (adv 5 d)
      = Inr (map canon vs, adv (length ?body) (adv 5 d))"
    using ok by (intro codec.dec_values_enc [OF c _ d2]) simp
  then show ?thesis
    using False ok dec_byte_at [OF d] dec_length_at [OF d1] by (simp add: dec_value.simps)
qed

lemma dec_value_list:
  assumes c: "codec encode_value (dec_value (depth + 1)) canon (\<lambda>v. v \<in> set vs \<and> encodable (depth + 1) v)"
    and ok: "encodable depth (VList vs)" and d: "at d (encode_value (VList vs) @ ys)"
  shows "dec_value depth d = Inr (canon (VList vs), adv (length (encode_value (VList vs))) d)"
proof (cases "vs = []")
  case True
  with d have d: "at d (NIL_EXT # ys)" by simp
  show ?thesis using True ok dec_byte_at [OF d] by (simp add: dec_value.simps)
next
  case False
  let ?body = "concat (map encode_value vs)"
  from d False have d: "at d (LIST_EXT # be_bytes 4 (length vs) @ ?body @ NIL_EXT # ys)" by simp
  have d1: "at (adv 1 d) (be_bytes 4 (length vs) @ ?body @ NIL_EXT # ys)" using d by (rule at_adv1)
  have d2: "at (adv 5 d) (?body @ NIL_EXT # ys)" using at_adv [OF d1] by simp
  have d3: "at (adv (5 + length ?body) d) (NIL_EXT # ys)" using at_adv [OF d2] by simp
  have "dec_values (dec_value (depth + 1)) (length vs) (adv 5 d)
      = Inr (map canon vs, adv (length ?body) (adv 5 d))"
    using ok by (intro codec.dec_values_enc [OF c _ d2]) simp
  then show ?thesis
    using False ok dec_byte_at [OF d] dec_length_at [OF d1] dec_byte_at [OF d3]
    by (simp add: dec_value.simps)
qed

lemma dec_value_map:
  assumes c: "codec encode_value (dec_value (depth + 1)) canon
      (\<lambda>v. v \<in> fst ` set es \<union> snd ` set es \<and> encodable (depth + 1) v)"
    and ok: "encodable depth (VMap es)" and d: "at d (encode_value (VMap es) @ ys)"
  shows "dec_value depth d = Inr (canon (VMap es), adv (length (encode_value (VMap es))) d)"
proof -
  let ?body = "concat (map (enc_pair encode_value) es)"
  from d have d: "at d (MAP_EXT # be_bytes 4 (length es) @ ?body @ ys)"
    by (simp add: encode_map_entries)
  have d1: "at (adv 1 d) (be_bytes 4 (length es) @ ?body @ ys)" using d by (rule at_adv1)
  have d2: "at (adv 5 d) (?body @ ys)" using at_adv [OF d1] by simp
  have "dec_entries (dec_value (depth + 1)) (length es) (adv 5 d)
      = Inr (map (map_prod canon canon) es, adv (length ?body) (adv 5 d))"
    using ok by (intro codec.dec_entries_enc [OF c _ d2]) auto
  then show ?thesis
    using ok dec_byte_at [OF d] dec_length_at [OF d1]
    by (simp add: dec_value.simps encode_map_entries)
qed

lemma dec_value_encode_value:
  "encodable depth v \<Longrightarrow> at d (encode_value v @ ys)
    \<Longrightarrow> dec_value depth d = Inr (canon v, adv (length (encode_value v)) d)"
proof (induction v arbitrary: depth d ys rule: encode_value.induct)
  case 1
  then show ?case
    using dec_value_atom [of depth "''nil''" d ys] rust_str_literals
    by (simp add: atom_value_def)
next
  case (2 b)
  then show ?case
    using dec_value_atom [of depth "if b then ''true'' else ''false''" d ys]
      rust_str_literals
    by (cases b) (simp_all add: atom_value_def)
next
  case (3 v)
  then show ?case using dec_value_unsigned [of depth d v ys] by simp
next
  case (4 v)
  then show ?case using dec_value_signed by simp
next
  case (5 v)
  then have d: "at d (NEW_FLOAT_EXT # be_bytes 8 (unat v) @ ys)" by simp
  show ?case
    using 5 dec_byte_at [OF d] dec_f64_at [OF at_adv1 [OF d]] by (simp add: dec_value.simps)
next
  case (6 v)
  then have d: "at d (BINARY_EXT # be_bytes 4 (length v) @ v @ ys)" by simp
  have d1: "at (adv 1 d) (be_bytes 4 (length v) @ v @ ys)" using d by (rule at_adv1)
  have d2: "at (adv 5 d) (v @ ys)" using at_adv [OF d1] by simp
  show ?case
    using 6 dec_byte_at [OF d] dec_length_at [OF d1] dec_take_at [OF d2]
    by (simp add: dec_value.simps)
next
  case (7 s)
  then show ?case using dec_value_atom [of depth s d ys] by simp
next
  case (8 vs)
  show ?case
    by (rule dec_value_tuple [OF element_codec]) (use 8 in auto)
next
  case (9 vs)
  show ?case
    by (rule dec_value_list [OF element_codec]) (use 9 in \<open>auto split: if_splits\<close>)
next
  case (10 es)
  show ?case
    by (rule dec_value_map [OF element_codec]) (use 10 in auto)
qed

text \<open>The value format satisfies the contract at every depth.\<close>

interpretation wire_value: codec encode_value "dec_value depth" canon "encodable depth" for depth
  by unfold_locales (simp_all add: dec_value_encode_value)

end
