(* ===== verification/Wire_Bounds.thy ===== *)
theory Wire_Bounds
  imports Wire
begin

text \<open>
  What the decoder can be made to build. \<open>decodes n f w P\<close> is a small program logic for decoding
  steps: whenever \<open>f\<close> succeeds it has moved the cursor forward inside the same payload, the
  weight \<open>w\<close> of its result is covered by the \<open>n\<close> bytes of credit it started with plus the bytes
  it consumed, and the result satisfies \<open>P\<close>. One rule per primitive; \<open>dec_value\<close> then follows by
  applying the rules, and bounds the memory, the nesting and the atoms of a decoded value.
\<close>

section \<open>A logic of decoding steps\<close>

definition decodes :: "nat \<Rightarrow> (decoder \<Rightarrow> wire_error + ('a \<times> decoder)) \<Rightarrow> ('a \<Rightarrow> nat)
    \<Rightarrow> ('a \<Rightarrow> bool) \<Rightarrow> bool" where
  "decodes n f w P \<longleftrightarrow>
     (\<forall>d x d'. position d \<le> length (dec_input d) \<longrightarrow> f d = Inr (x, d') \<longrightarrow>
        dec_input d' = dec_input d \<and> position d' \<le> length (dec_input d)
        \<and> position d \<le> position d' \<and> position d + w x \<le> position d' + n \<and> P x)"

named_theorems decodes_rules \<open>rules of the logic of decoding steps\<close>

lemma decodesD:
  assumes "decodes n f w P" and "position d \<le> length (dec_input d)" and "f d = Inr (x, d')"
  shows "dec_input d' = dec_input d" "position d' \<le> length (dec_input d)"
    "position d \<le> position d'" "position d + w x \<le> position d' + n" "P x"
  using assms unfolding decodes_def by blast+

lemma decodesI:
  assumes "\<And>d x d'. position d \<le> length (dec_input d) \<Longrightarrow> f d = Inr (x, d') \<Longrightarrow>
      dec_input d' = dec_input d \<and> position d' \<le> length (dec_input d)
      \<and> position d \<le> position d' \<and> position d + w x \<le> position d' + n \<and> P x"
  shows "decodes n f w P"
  unfolding decodes_def using assms by blast

lemma decodes_bind:
  assumes f: "decodes 0 f w' P'" and g: "\<And>x. P' x \<Longrightarrow> decodes (n + w' x) (g x) w P"
  shows "decodes n (\<lambda>d. rbind (f d) (\<lambda>(x, d). g x d)) w P"
proof (rule decodesI)
  fix d y d'
  assume d: "position d \<le> length (dec_input d)"
    and eq: "rbind (f d) (\<lambda>(x, d). g x d) = Inr (y, d')"
  then obtain x e where x: "f d = Inr (x, e)" and y: "g x e = Inr (y, d')"
    by (auto simp: res_simps)
  note 1 = decodesD [OF f d x]
  have e: "position e \<le> length (dec_input e)" using 1 by simp
  note 2 = decodesD [OF g [OF 1(5)] e y]
  show "dec_input d' = dec_input d \<and> position d' \<le> length (dec_input d)
      \<and> position d \<le> position d' \<and> position d + w y \<le> position d' + n \<and> P y"
    using 1 2 by simp
qed

lemma decodes_return [decodes_rules]: "w x \<le> n \<Longrightarrow> P x \<Longrightarrow> decodes n (\<lambda>d. Inr (x, d)) w P"
  by (rule decodesI) auto

lemma decodes_error [decodes_rules]: "decodes n (\<lambda>d. Inl e) w P"
  by (simp add: decodes_def)

lemma decodes_if [decodes_rules]:
  "(c \<Longrightarrow> decodes n f w P) \<Longrightarrow> (\<not> c \<Longrightarrow> decodes n g w P)
    \<Longrightarrow> decodes n (\<lambda>d. if c then f d else g d) w P"
  by (cases c) simp_all

lemma decodes_weaken:
  assumes "decodes m f w P" and "m \<le> n" and "\<And>x. P x \<Longrightarrow> Q x"
  shows "decodes n f w Q"
proof (rule decodesI)
  fix d x d'
  assume "position d \<le> length (dec_input d)" and "f d = Inr (x, d')"
  from decodesD [OF assms(1) this] assms(2,3)
  show "dec_input d' = dec_input d \<and> position d' \<le> length (dec_input d)
      \<and> position d \<le> position d' \<and> position d + w x \<le> position d' + n \<and> Q x" by auto
qed

lemma decodes_byte0: "decodes 0 dec_byte (\<lambda>_. 1) (\<lambda>_. True)"
  by (rule decodesI) (auto simp: dec_byte_def split: if_splits)

lemma decodes_take0: "decodes 0 (dec_take k) length (\<lambda>bs. length bs = k)"
  by (rule decodesI) (auto simp: dec_take_def split: if_splits)

lemma decodes_byte [decodes_rules]:
  "(\<And>b. decodes (n + 1) (g b) w P) \<Longrightarrow> decodes n (\<lambda>d. rbind (dec_byte d) (\<lambda>(b, d). g b d)) w P"
  by (rule decodes_bind [OF decodes_byte0])

lemma decodes_take [decodes_rules]:
  "(\<And>bs. length bs = k \<Longrightarrow> decodes (n + k) (g bs) w P)
    \<Longrightarrow> decodes n (\<lambda>d. rbind (dec_take k d) (\<lambda>(bs, d). g bs d)) w P"
  by (rule decodes_bind [OF decodes_take0]) simp

lemma decodes_array0: "decodes 0 (dec_array k) length (\<lambda>bs. length bs = k)"
  unfolding dec_array_def [abs_def] by (intro decodes_rules) auto

lemma be_val_bound: "length bs = k \<Longrightarrow> be_val bs < 256 ^ k"
  using be_val_less [of bs] by simp

lemma decodes_u16: "decodes 0 dec_u16 (\<lambda>_. 2) (\<lambda>n. n < 2 ^ 16)"
  unfolding dec_u16_def [abs_def]
  by (rule decodes_bind [OF decodes_array0]) (use be_val_bound [where k = 2] in \<open>auto intro: decodes_return\<close>)

lemma decodes_i32: "decodes 0 dec_i32 (\<lambda>_. 4) (\<lambda>_. True)"
  unfolding dec_i32_def [abs_def]
  by (rule decodes_bind [OF decodes_array0]) (auto intro: decodes_return)

lemma decodes_length: "decodes 0 dec_length (\<lambda>_. 4) (\<lambda>n. n < 2 ^ 32)"
  unfolding dec_length_def [abs_def]
  by (rule decodes_bind [OF decodes_array0]) (use be_val_bound [where k = 4] in \<open>auto intro: decodes_return\<close>)

lemma decodes_f64: "decodes 0 dec_f64 (\<lambda>_. 8) (\<lambda>_. True)"
  unfolding dec_f64_def [abs_def]
  by (rule decodes_bind [OF decodes_array0]) (auto intro: decodes_return)

lemma decodes_integer [decodes_rules]:
  "(\<And>x. x < 2 ^ 16 \<Longrightarrow> decodes (n + 2) (g x) w P) \<Longrightarrow> decodes n (\<lambda>d. rbind (dec_u16 d) (\<lambda>(x, d). g x d)) w P"
  "(\<And>x. decodes (n + 4) (h x) w P) \<Longrightarrow> decodes n (\<lambda>d. rbind (dec_i32 d) (\<lambda>(x, d). h x d)) w P"
  "(\<And>x. x < 2 ^ 32 \<Longrightarrow> decodes (n + 4) (i x) w P) \<Longrightarrow> decodes n (\<lambda>d. rbind (dec_length d) (\<lambda>(x, d). i x d)) w P"
  "(\<And>x. decodes (n + 8) (j x) w P) \<Longrightarrow> decodes n (\<lambda>d. rbind (dec_f64 d) (\<lambda>(x, d). j x d)) w P"
  by (rule decodes_bind [OF decodes_u16] decodes_bind [OF decodes_i32]
      decodes_bind [OF decodes_length] decodes_bind [OF decodes_f64]; simp)+

lemma decodes_pure [decodes_rules]:
  "(\<And>x. m = Inr x \<Longrightarrow> decodes n (g x) w P) \<Longrightarrow> decodes n (\<lambda>d. rbind m (\<lambda>x. g x d)) w P"
  by (cases m) (simp_all add: decodes_error)

lemma decodes_guard:
  assumes "decodes n g w P"
  shows "decodes n (\<lambda>d. rbind (m d) (\<lambda>_. g d)) w P"
proof (rule decodesI)
  fix d x d'
  assume d: "position d \<le> length (dec_input d)" and "rbind (m d) (\<lambda>_. g d) = Inr (x, d')"
  then have "g d = Inr (x, d')" by (auto simp: res_simps)
  from decodesD [OF assms d this]
  show "dec_input d' = dec_input d \<and> position d' \<le> length (dec_input d)
      \<and> position d \<le> position d' \<and> position d + w x \<le> position d' + n \<and> P x" by simp
qed

lemma decodes_repeat0:
  assumes "decodes 0 f w P"
  shows "decodes 0 (dec_repeat k f) (\<lambda>xs. sum_list (map w xs)) (\<lambda>xs. length xs = k \<and> (\<forall>x \<in> set xs. P x))"
proof (induction k)
  case 0
  show ?case by (rule decodesI) auto
next
  case (Suc k)
  show ?case
    unfolding dec_repeat.simps [abs_def]
    by (rule decodes_bind [OF assms], rule decodes_bind [OF Suc.IH]) (auto intro!: decodes_rules)
qed

lemma decodes_values0:
  assumes "decodes 0 f w P"
  shows "decodes 0 (dec_values f k) (\<lambda>xs. sum_list (map w xs)) (\<lambda>xs. length xs = k \<and> (\<forall>x \<in> set xs. P x))"
  unfolding dec_values_def [abs_def] by (rule decodes_guard [OF decodes_repeat0 [OF assms]])

lemma decodes_pair0:
  assumes "decodes 0 f w P"
  shows "decodes 0 (dec_pair f) (\<lambda>p. w (fst p) + w (snd p)) (\<lambda>p. P (fst p) \<and> P (snd p))"
  unfolding dec_pair_def [abs_def]
  by (rule decodes_bind [OF assms], rule decodes_bind [OF assms]) (auto intro!: decodes_rules)

lemma decodes_entries0:
  assumes "decodes 0 f w P"
  shows "decodes 0 (dec_entries f k) (\<lambda>es. sum_list (map (\<lambda>p. w (fst p) + w (snd p)) es))
    (\<lambda>es. length es = k \<and> (\<forall>p \<in> set es. P (fst p) \<and> P (snd p)))"
  unfolding dec_entries_def [abs_def]
  by (rule decodes_guard [OF decodes_repeat0 [OF decodes_pair0 [OF assms]]])

section \<open>The decoded value\<close>

fun footprint :: "wvalue \<Rightarrow> nat" where
  \<comment> \<open>value nodes plus the bytes they hold\<close>
  "footprint (VBinary b) = 1 + length b"
| "footprint (VAtom s) = 1 + length s"
| "footprint (VTuple vs) = 1 + sum_list (map footprint vs)"
| "footprint (VList vs) = 1 + sum_list (map footprint vs)"
| "footprint (VMap es) = 1 + sum_list (map (\<lambda>p. footprint (fst p) + footprint (snd p)) es)"
| "footprint v = 1"

fun height_le :: "wvalue \<Rightarrow> nat \<Rightarrow> bool" where
  \<comment> \<open>at most \<open>h\<close> levels of collections below the value\<close>
  "height_le (VTuple vs) h = (vs = [] \<or> 0 < h \<and> (\<forall>v \<in> set vs. height_le v (h - 1)))"
| "height_le (VList vs) h = (vs = [] \<or> 0 < h \<and> (\<forall>v \<in> set vs. height_le v (h - 1)))"
| "height_le (VMap es) h =
     (es = [] \<or> 0 < h \<and> (\<forall>p \<in> set es. height_le (fst p) (h - 1) \<and> height_le (snd p) (h - 1)))"
| "height_le v h = True"

fun proper_atoms :: "wvalue \<Rightarrow> bool" where
  \<comment> \<open>every atom is UTF-8 and is not one of the names with a value of their own\<close>
  "proper_atoms (VAtom s) = (rust_str s \<and> s \<notin> {''nil'', ''null'', ''true'', ''false''})"
| "proper_atoms (VTuple vs) = (\<forall>v \<in> set vs. proper_atoms v)"
| "proper_atoms (VList vs) = (\<forall>v \<in> set vs. proper_atoms v)"
| "proper_atoms (VMap es) = (\<forall>p \<in> set es. proper_atoms (fst p) \<and> proper_atoms (snd p))"
| "proper_atoms v = True"

definition decoded_ok :: "nat \<Rightarrow> wvalue \<Rightarrow> bool" where
  "decoded_ok depth v \<longleftrightarrow> proper_atoms v \<and> height_le v (MAXIMUM_NESTING + 1 - depth)"

lemma decodes_atom:
  "1 \<le> n \<Longrightarrow> decodes n (dec_atom k) footprint (decoded_ok depth)"
  unfolding dec_atom_def [abs_def]
  by (intro decodes_rules) (auto simp: decoded_ok_def ok_or_def from_utf8_Some rust_str_def split: option.splits)

lemma decodes_big: "decodes n (dec_big k) footprint (decoded_ok depth)"
  unfolding dec_big_def [abs_def] Let_def
  by (intro decodes_rules) (auto simp: decoded_ok_def split: if_splits)

lemma sum_list_ones: "(\<Sum>b\<leftarrow>bs. Suc 0) = length bs"
  by (induction bs) auto

lemma decoded_ok_children:
  "\<forall>v \<in> set vs. decoded_ok (depth + 1) v \<Longrightarrow> depth \<le> MAXIMUM_NESTING \<Longrightarrow> decoded_ok depth (VTuple vs)"
  "\<forall>v \<in> set vs. decoded_ok (depth + 1) v \<Longrightarrow> depth \<le> MAXIMUM_NESTING \<Longrightarrow> decoded_ok depth (VList vs)"
  "\<forall>p \<in> set es. decoded_ok (depth + 1) (fst p) \<and> decoded_ok (depth + 1) (snd p)
    \<Longrightarrow> depth \<le> MAXIMUM_NESTING \<Longrightarrow> decoded_ok depth (VMap es)"
  by (auto simp: decoded_ok_def)

lemma decoded_ok_leaf:
  "decoded_ok depth (VUnsigned u)" "decoded_ok depth (VSigned i)" "decoded_ok depth (VFloat f)"
  "decoded_ok depth (VBinary bs)" "decoded_ok depth (VList [])"
  "depth \<le> MAXIMUM_NESTING \<Longrightarrow> decoded_ok depth (VList (map (\<lambda>b. VUnsigned (g b)) bs))"
  by (auto simp: decoded_ok_def)

lemma decodes_value_step:
  assumes depth: "depth \<le> MAXIMUM_NESTING"
    and IH: "decodes 0 (dec_value (depth + 1)) footprint (decoded_ok (depth + 1))"
  shows "decodes 0 (dec_value depth) footprint (decoded_ok depth)"
  unfolding dec_value.simps [of depth, abs_def]
  by (intro decodes_rules decodes_bind [OF decodes_values0 [OF IH]]
      decodes_bind [OF decodes_entries0 [OF IH]] decodes_big decodes_atom)
    (use depth in \<open>auto simp: decoded_ok_leaf decoded_ok_children sum_list_ones comp_def\<close>)

lemma decodes_value: "decodes 0 (dec_value depth) footprint (decoded_ok depth)"
proof (induction "MAXIMUM_NESTING + 1 - depth" arbitrary: depth rule: less_induct)
  case less
  show ?case
  proof (cases "depth \<le> MAXIMUM_NESTING")
    case True
    then have "decodes 0 (dec_value (depth + 1)) footprint (decoded_ok (depth + 1))"
      by (intro less.hyps) simp
    with True show ?thesis by (rule decodes_value_step)
  next
    case False
    then have "dec_value depth d = Inl (WireError ''wire value nesting is too deep'')" for d
      by (subst dec_value.simps) simp
    then show ?thesis by (intro decodesI) simp
  qed
qed

end
