(* ===== verification/Wire_Frames.thy ===== *)
theory Wire_Frames
  imports Wire_Roundtrip Wire_Bounds
begin

text \<open>
  The properties of the frame layer: the round trip through a frame, the bounds on what a peer
  can make the decoder build, and which condition of the stream produces the message that the
  client takes for the backend's exit.
\<close>

section \<open>Round trip\<close>

lemma decode_payload_frame:
  assumes "encodable 0 v" and "length (frame_payload v) \<le> MAXIMUM_FRAME_BYTES"
  shows "decode_payload (frame_payload v) = Inr (canon v)"
proof -
  let ?d = "\<lparr>dec_input = frame_payload v, position = 0\<rparr>"
  have d: "at ?d (ETF_VERSION # encode_value v @ [])"
    using assms(2) by (simp add: at_def frame_payload_def MAXIMUM_FRAME_BYTES_def)
  have "dec_value 0 (adv 1 ?d) = Inr (canon v, adv (1 + length (encode_value v)) ?d)"
    using dec_value_encode_value [OF assms(1) at_adv1 [OF d]] by simp
  then show ?thesis
    using dec_byte_at [OF d] by (simp add: decode_payload_def frame_payload_def)
qed

lemma read_frame_bytes:
  assumes "incoming r = MAGIC @ [ver] @ be_bytes 4 n @ payload @ rest"
    and "length payload = n" and "n \<le> MAXIMUM_FRAME_BYTES"
  shows "read_frame ver r = (decode_payload payload, r\<lparr>incoming := rest\<rparr>)"
  using assms
  by (simp add: read_frame_def read_exact_frame_def read_exact_def MAGIC_def as_bytes_def
      be_val_be_bytes MAXIMUM_FRAME_BYTES_def nth_append)

text \<open>
  C1. A frame that \<open>write_frame\<close> hands to a working pipe is read back by \<open>read_frame\<close> of the same
  protocol version as the canonical form of the value, and leaves the reader exactly at the bytes
  that follow the frame.
\<close>
theorem frame_roundtrip:
  assumes "encodable 0 v" and "length (frame_payload v) \<le> MAXIMUM_FRAME_BYTES"
    and "broken w = None" and "write_frame ver v w = (res, w')"
    and "sent w' = sent w @ bytes" and "incoming r = bytes @ rest"
  shows "res = Inr () \<and> read_frame ver r = (Inr (canon v), r\<lparr>incoming := rest\<rparr>)"
proof -
  have len: "length (frame_payload v) < 2 ^ 32"
    using assms(2) by (simp add: MAXIMUM_FRAME_BYTES_def)
  with assms(3-5) have res: "res = Inr ()" and "bytes = frame_bytes ver v"
    by (auto simp: write_frame_def)
  then have "incoming r = MAGIC @ [ver] @ be_bytes 4 (length (frame_payload v)) @ frame_payload v @ rest"
    using assms(6) by (simp add: frame_bytes_def)
  from read_frame_bytes [OF this refl assms(2)] decode_payload_frame [OF assms(1,2)] res
  show ?thesis by simp
qed

definition sample_value :: wvalue where
  "sample_value = VMap [(VBinary (as_bytes ''id''), VUnsigned (- 1)),
     (VBinary (as_bytes ''payload''), VBinary [0, 1, 0xff]),
     (VBinary (as_bytes ''items''), VList [VSigned (- 1), VUnsigned 300, VNull])]"

definition sample_bytes :: "u8 list" where
  "sample_bytes = snd (case write_frame 6 sample_value \<lparr>sent = [], broken = None\<rparr> of (res, w) \<Rightarrow> (res, sent w))"

theorem frame_roundtrip_witness:
  "canon sample_value \<noteq> sample_value \<and>
   read_frame 6 \<lparr>incoming = sample_bytes @ [1, 2], ending = Eof\<rparr>
     = (Inr (canon sample_value), \<lparr>incoming = [1, 2], ending = Eof\<rparr>)"
proof -
  let ?w = "\<lparr>sent = [], broken = None\<rparr>" and ?r = "\<lparr>incoming = sample_bytes @ [1, 2], ending = Eof\<rparr>"
  have e: "encodable 0 sample_value" by code_simp
  have l: "length (frame_payload sample_value) \<le> MAXIMUM_FRAME_BYTES" by code_simp
  obtain res w where w: "write_frame 6 sample_value ?w = (res, w)" by fastforce
  then have s: "sent w = sent ?w @ sample_bytes" by (simp add: sample_bytes_def)
  have "canon sample_value \<noteq> sample_value" by code_simp
  with frame_roundtrip [OF e l _ w s, of ?r "[1, 2]"] show ?thesis by simp
qed

section \<open>Bounds\<close>

text \<open>
  C2. Whatever bytes the peer sends, a payload that decodes gives a value whose nodes and stored
  bytes together number fewer than the payload's bytes, whose collections nest at most \<open>MAXIMUM_NESTING + 1\<close> deep, and
  whose atoms are UTF-8 and none of the names \<open>nil\<close>, \<open>null\<close>, \<open>true\<close>, \<open>false\<close>.
\<close>
theorem decode_payload_bounded:
  assumes "decode_payload payload = Inr v"
  shows "footprint v < length payload \<and> height_le v (MAXIMUM_NESTING + 1) \<and> proper_atoms v"
proof -
  let ?d = "\<lparr>dec_input = payload, position = 0\<rparr>"
  from assms obtain b d d' where b: "dec_byte ?d = Inr (b, d)"
    and v: "dec_value 0 d = Inr (v, d')" and "position d' = length payload"
    by (auto simp: decode_payload_def res_simps split: if_splits)
  note 1 = decodesD [OF decodes_byte0 _ b]
  have d: "position d \<le> length (dec_input d)" and "dec_input d = payload" using 1 by auto
  moreover note 2 = decodesD [OF decodes_value d v]
  ultimately show ?thesis using 1(4) by (auto simp: decoded_ok_def)
qed

theorem decode_payload_bounded_witness:
  "footprint (canon sample_value) < length (frame_payload sample_value)
   \<and> height_le (canon sample_value) (MAXIMUM_NESTING + 1) \<and> proper_atoms (canon sample_value)"
  by (rule decode_payload_bounded, rule decode_payload_frame) (code_simp, code_simp)

section \<open>Errors\<close>

text \<open>
  Which errors a decoding step can raise, by rules in the same style: every error message of the
  decoder differs from the end-of-stream message.
\<close>

definition eof_error :: wire_error where
  "eof_error = WireError ''unexpected end of bridge stream''"

definition no_eof :: "(decoder \<Rightarrow> wire_error + 'a) \<Rightarrow> bool" where
  "no_eof f \<longleftrightarrow> (\<forall>d. f d \<noteq> Inl eof_error)"

named_theorems no_eof_rules \<open>errors of decoding steps\<close>

lemma no_eof_bind [no_eof_rules]:
  "no_eof f \<Longrightarrow> (\<And>x. no_eof (g x)) \<Longrightarrow> no_eof (\<lambda>d. rbind (f d) (\<lambda>(x, d). g x d))"
  by (auto simp: no_eof_def rbind_eq_Inl_iff)

lemma no_eof_bind_pure [no_eof_rules]:
  "m \<noteq> Inl eof_error \<Longrightarrow> (\<And>x. no_eof (g x)) \<Longrightarrow> no_eof (\<lambda>d. rbind m (\<lambda>x. g x d))"
  by (auto simp: no_eof_def rbind_eq_Inl_iff)

lemma no_eof_guard:
  "no_eof f \<Longrightarrow> no_eof g \<Longrightarrow> no_eof (\<lambda>d. rbind (f d) (\<lambda>_. g d))"
  by (auto simp: no_eof_def rbind_eq_Inl_iff)

lemma no_eof_if [no_eof_rules]: "no_eof f \<Longrightarrow> no_eof g \<Longrightarrow> no_eof (\<lambda>d. if c then f d else g d)"
  by (simp add: no_eof_def)

lemma no_eof_return [no_eof_rules]: "no_eof (\<lambda>d. Inr (h d))"
  by (simp add: no_eof_def)

lemma no_eof_error [no_eof_rules]: "e \<noteq> eof_error \<Longrightarrow> no_eof (\<lambda>d. Inl e)"
  by (simp add: no_eof_def)

lemma no_eof_primitives [no_eof_rules]: "no_eof dec_byte" "no_eof (dec_take k)" "no_eof (ensure_collection k m)"
  by (auto simp: no_eof_def dec_byte_def dec_take_def ensure_collection_def eof_error_def)

lemma no_eof_integers [no_eof_rules]:
  "no_eof (dec_array k)" "no_eof dec_u16" "no_eof dec_i32" "no_eof dec_length" "no_eof dec_f64"
  unfolding dec_u16_def [abs_def] dec_i32_def [abs_def] dec_length_def [abs_def] dec_f64_def [abs_def]
    dec_array_def [abs_def]
  by (intro no_eof_rules; simp add: eof_error_def)+

lemma no_eof_repeat: "no_eof f \<Longrightarrow> no_eof (dec_repeat k f)"
  by (induction k) (auto simp: dec_repeat.simps [abs_def] intro!: no_eof_rules)

lemma no_eof_collections:
  "no_eof f \<Longrightarrow> no_eof (dec_values f k)" "no_eof f \<Longrightarrow> no_eof (dec_entries f k)"
  unfolding dec_values_def [abs_def] dec_entries_def [abs_def] dec_pair_def [abs_def]
  by (intro no_eof_guard no_eof_repeat no_eof_rules; assumption)+

lemma no_eof_scalars: "no_eof (dec_atom k)" "no_eof (dec_big k)"
  unfolding dec_atom_def [abs_def] dec_big_def [abs_def] Let_def
  by (intro no_eof_rules; simp add: eof_error_def ok_or_def split: option.splits)+

lemma no_eof_value: "no_eof (dec_value depth)"
proof (induction "MAXIMUM_NESTING + 1 - depth" arbitrary: depth rule: less_induct)
  case less
  show ?case
  proof (cases "depth \<le> MAXIMUM_NESTING")
    case True
    then have IH: "no_eof (dec_value (depth + 1))" by (intro less.hyps) simp
    show ?thesis
      unfolding dec_value.simps [of depth, abs_def]
      by (intro no_eof_rules no_eof_scalars no_eof_collections [OF IH]; simp add: eof_error_def)
  next
    case False
    then have "dec_value depth d = Inl (WireError ''wire value nesting is too deep'')" for d
      by (subst dec_value.simps) simp
    then show ?thesis by (simp add: no_eof_def eof_error_def)
  qed
qed

lemma decode_payload_no_eof: "decode_payload p \<noteq> Inl eof_error"
proof -
  have "no_eof (dec_value 0)" by (rule no_eof_value)
  moreover have "no_eof dec_byte" by (rule no_eof_primitives)
  ultimately show ?thesis
    by (auto simp: decode_payload_def no_eof_def rbind_eq_Inl_iff eof_error_def split: if_splits)
qed

definition truncated_frame :: "u8 \<Rightarrow> u8 list \<Rightarrow> bool" where
  \<comment> \<open>the bytes stop inside a header, or inside the payload an acceptable header announces\<close>
  "truncated_frame ver bs \<longleftrightarrow>
     length bs < 9 \<or>
     (take 4 bs = MAGIC \<and> bs ! 4 = ver \<and> be_val (take 4 (drop 5 bs)) \<le> MAXIMUM_FRAME_BYTES
       \<and> length bs < 9 + be_val (take 4 (drop 5 bs)))"

lemma read_frame_eof:
  "fst (read_frame ver r) = Inl (WireError ''unexpected end of bridge stream'')
     \<longleftrightarrow> ending r = Eof \<and> truncated_frame ver (incoming r)"
proof (cases "length (incoming r) < 9")
  case True
  then show ?thesis
    by (cases "ending r") (auto simp: read_frame_def read_exact_frame_def read_exact_def
        truncated_frame_def show_io_error_def)
next
  case False
  let ?bs = "incoming r"
  have hdr: "drop 5 (take 9 ?bs) = take 4 (drop 5 ?bs)" by (simp add: drop_take)
  have rf: "read_frame ver r =
     (if take 4 ?bs \<noteq> MAGIC then (Inl (WireError ''invalid Findex frame magic''), r\<lparr>incoming := drop 9 ?bs\<rparr>)
      else if ?bs ! 4 \<noteq> ver then
           (Inl (WireError (''wire protocol '' @ show_nat (unat (?bs ! 4))
              @ '' is unsupported; expected '' @ show_nat (unat ver))), r\<lparr>incoming := drop 9 ?bs\<rparr>)
      else if be_val (take 4 (drop 5 ?bs)) > MAXIMUM_FRAME_BYTES then
             (Inl (WireError (''wire frame is '' @ show_nat (be_val (take 4 (drop 5 ?bs)))
                @ '' bytes; maximum is '' @ show_nat MAXIMUM_FRAME_BYTES)), r\<lparr>incoming := drop 9 ?bs\<rparr>)
      else (case read_exact_frame (be_val (take 4 (drop 5 ?bs))) (r\<lparr>incoming := drop 9 ?bs\<rparr>) of
               (Inl e, r) \<Rightarrow> (Inl e, r)
             | (Inr payload, r) \<Rightarrow> (decode_payload payload, r)))"
    using False by (simp add: read_frame_def read_exact_frame_def read_exact_def hdr Let_def)
  show ?thesis
    using False decode_payload_no_eof
    by (cases "ending r")
      (auto simp: rf read_exact_frame_def read_exact_def truncated_frame_def show_io_error_def
        eof_error_def not_le)
qed

text \<open>
  C3. The client recognises the backend's exit by the error message
  \<open>unexpected end of bridge stream\<close>. \<open>read_frame\<close> reports it exactly when the stream ended (rather
  than failed) inside a frame or between frames; no malformed frame, failed read or undecodable
  payload is mistaken for it.
\<close>
theorem read_frame_eof_iff:
  "fst (read_frame ver r) = Inl (WireError ''unexpected end of bridge stream'')
     \<longleftrightarrow> ending r = Eof \<and> truncated_frame ver (incoming r)"
  by (rule read_frame_eof)

end
