(* ===== verification/Json.thy ===== *)
theory Json
  imports Wire_Frames
begin

text \<open>
  The conversions between JSON values and wire values (\<open>Value::from_json\<close>, \<open>Value::into_json\<close>,
  \<open>binary_json\<close> of \<open>wire.rs\<close>). The JSON side belongs to the crates \<open>serde_json\<close> and \<open>base64\<close>, which
  are not part of the repository: numbers are a type variable \<open>'n\<close>, and the library operations the
  code calls are the fields of a \<open>json_lib\<close> record that every definition takes as an argument. What
  the code relies on is the predicate \<open>json_library\<close>, the documented behaviour of those operations.
\<close>

section \<open>The JSON library as a parameter\<close>

datatype 'n json =
    JNull
  | JBool bool
  | JNumber 'n
  | JString string
  | JArray "'n json list"
  | JObject "(string \<times> 'n json) list"
    \<comment> \<open>the entries of a \<open>serde_json::Map\<close> in its iteration order\<close>

record 'n json_lib =
  num_as_u64 :: "'n \<Rightarrow> u64 option"
  num_as_i64 :: "'n \<Rightarrow> i64 option"
  num_as_f64 :: "'n \<Rightarrow> f64_bits option"
  num_of_u64 :: "u64 \<Rightarrow> 'n"
  num_of_i64 :: "i64 \<Rightarrow> 'n"
  num_of_f64 :: "f64_bits \<Rightarrow> 'n option"
  map_insert :: "string \<Rightarrow> 'n json \<Rightarrow> (string \<times> 'n json) list
    \<Rightarrow> 'n json option \<times> (string \<times> 'n json) list"
  map_valid :: "(string \<times> 'n json) list \<Rightarrow> bool"
  base64_encode :: "u8 list \<Rightarrow> string"

definition map_rebuild :: "'n json_lib \<Rightarrow> (string \<times> 'n json) list \<Rightarrow> (string \<times> 'n json) list \<Rightarrow> (string \<times> 'n json) list" where
  "map_rebuild L es m = fold (\<lambda>(k, j) m. snd (map_insert L k j m)) es m"

text \<open>
  \<open>Number\<close>: the integer views agree with the conversions from integers, a number with no integer
  view is the float it reads as, and only finite floats are numbers. \<open>Map\<close>: \<open>insert\<close> returns the
  value it replaces and otherwise behaves as a finite map with distinct keys, and inserting the
  entries of a map in its iteration order into an empty map gives that map again.
\<close>

definition json_library :: "'n json_lib \<Rightarrow> bool" where
  "json_library L \<longleftrightarrow>
     (\<forall>n u. num_as_u64 L n = Some u \<longrightarrow> num_of_u64 L u = n)
   \<and> (\<forall>n i. num_as_u64 L n = None \<longrightarrow> num_as_i64 L n = Some i \<longrightarrow> num_of_i64 L i = n)
   \<and> (\<forall>n f. num_as_u64 L n = None \<longrightarrow> num_as_i64 L n = None \<longrightarrow> num_as_f64 L n = Some f
        \<longrightarrow> num_of_f64 L f = Some n)
   \<and> (\<forall>n. num_as_f64 L n \<noteq> None)
   \<and> (\<forall>i. 0 \<le> sint i \<longrightarrow> num_of_i64 L i = num_of_u64 L i)
   \<and> map_valid L []
   \<and> (\<forall>k j m. map_valid L m \<longrightarrow>
        map_valid L (snd (map_insert L k j m))
      \<and> fst (map_insert L k j m) = map_of m k
      \<and> map_of (snd (map_insert L k j m)) = (map_of m)(k \<mapsto> j))
   \<and> (\<forall>m. map_valid L m \<longrightarrow> distinct (map fst m) \<and> map_rebuild L m [] = m)"

lemma json_library_numbers:
  assumes "json_library L"
  shows "num_as_u64 L n = Some u \<Longrightarrow> num_of_u64 L u = n"
    and "num_as_u64 L n = None \<Longrightarrow> num_as_i64 L n = Some i \<Longrightarrow> num_of_i64 L i = n"
    and "num_as_u64 L n = None \<Longrightarrow> num_as_i64 L n = None \<Longrightarrow> num_as_f64 L n = Some f
      \<Longrightarrow> num_of_f64 L f = Some n"
    and "num_as_f64 L n \<noteq> None"
    and "0 \<le> sint i \<Longrightarrow> num_of_i64 L i = num_of_u64 L i"
  using assms unfolding json_library_def by blast+

lemma json_library_maps:
  assumes "json_library L"
  shows "map_valid L []"
    and "map_valid L m \<Longrightarrow> map_valid L (snd (map_insert L k j m))"
    and "map_valid L m \<Longrightarrow> fst (map_insert L k j m) = map_of m k"
    and "map_valid L m \<Longrightarrow> map_of (snd (map_insert L k j m)) = (map_of m)(k \<mapsto> j)"
    and "map_valid L m \<Longrightarrow> distinct (map fst m)"
    and "map_valid L m \<Longrightarrow> map_rebuild L m [] = m"
  using assms unfolding json_library_def by blast+

section \<open>Conversions\<close>

fun from_json :: "'n json_lib \<Rightarrow> 'n json \<Rightarrow> wire_error + wvalue" where
  "from_json L JNull = Inr VNull"
| "from_json L (JBool b) = Inr (VBool b)"
| "from_json L (JNumber n) =
     (case num_as_u64 L n of Some v \<Rightarrow> Inr (VUnsigned v)
      | None \<Rightarrow> (case num_as_i64 L n of Some v \<Rightarrow> Inr (VSigned v)
      | None \<Rightarrow> (case num_as_f64 L n of Some v \<Rightarrow> Inr (VFloat v)
      | None \<Rightarrow> Inl (WireError ''JSON number cannot be represented on the wire''))))"
| "from_json L (JString s) = Inr (VBinary (as_bytes s))"
| "from_json L (JArray js) = rbind (rmap_list (from_json L) js) (\<lambda>vs. Inr (VList vs))"
| "from_json L (JObject es) =
     rbind (rmap_list (\<lambda>(k, j). rbind (from_json L j) (\<lambda>v. Inr (VBinary (as_bytes k), v))) es)
       (\<lambda>es. Inr (VMap es))"

definition binary_json :: "'n json_lib \<Rightarrow> u8 list \<Rightarrow> 'n json" where
  "binary_json L bs =
     (case from_utf8 bs of
        Some s \<Rightarrow> JString s
      | None \<Rightarrow> JObject (snd (map_insert L ''base64'' (JString (base64_encode L bs)) [])))"

definition map_key :: "wvalue \<Rightarrow> wire_error + string" where
  "map_key v =
     (case v of
        VBinary bs \<Rightarrow> ok_or (from_utf8 bs) (WireError ''wire map key is not UTF-8'')
      | VAtom s \<Rightarrow> Inr s
      | _ \<Rightarrow> Inl (WireError ''wire map key is not a string''))"

fun insert_entries :: "'n json_lib \<Rightarrow> (wvalue \<Rightarrow> wire_error + 'n json) \<Rightarrow> (wvalue \<times> wvalue) list
    \<Rightarrow> (string \<times> 'n json) list \<Rightarrow> wire_error + (string \<times> 'n json) list" where
  \<comment> \<open>the \<open>for (key, value) in entries\<close> loop of \<open>into_json\<close>\<close>
  "insert_entries L f [] values = Inr values"
| "insert_entries L f ((k, v) # es) values =
     rbind (map_key k) (\<lambda>key.
     rbind (f v) (\<lambda>j.
       case map_insert L key j values of (old, values) \<Rightarrow>
         if old \<noteq> None then Inl (WireError ''wire map contains a duplicate key'')
         else insert_entries L f es values))"

lemma insert_entries_cong [fundef_cong]:
  "L = L' \<Longrightarrow> es = es' \<Longrightarrow> m = m' \<Longrightarrow> (\<And>p. p \<in> set es' \<Longrightarrow> f (snd p) = g (snd p))
    \<Longrightarrow> insert_entries L f es m = insert_entries L' g es' m'"
proof (induction es' arbitrary: es m m')
  case (Cons p es')
  obtain k v where p: "p = (k, v)" by force
  have "insert_entries L f es' x = insert_entries L g es' x" for x
    using Cons by auto
  moreover have "f v = g v" using Cons.prems(4) [of p] p by simp
  ultimately show ?case using Cons.prems p by (simp add: case_prod_unfold cong: if_cong)
qed simp

fun into_json :: "'n json_lib \<Rightarrow> wvalue \<Rightarrow> wire_error + 'n json" where
  "into_json L VNull = Inr JNull"
| "into_json L (VBool b) = Inr (JBool b)"
| "into_json L (VUnsigned v) = Inr (JNumber (num_of_u64 L v))"
| "into_json L (VSigned v) = Inr (JNumber (num_of_i64 L v))"
| "into_json L (VFloat v) =
     ok_or (map_option JNumber (num_of_f64 L v)) (WireError ''non-finite floating-point wire value'')"
| "into_json L (VBinary v) = Inr (binary_json L v)"
| "into_json L (VAtom s) =
     (if s = ''nil'' \<or> s = ''null'' then Inr JNull
      else if s = ''true'' then Inr (JBool True)
      else if s = ''false'' then Inr (JBool False)
      else Inr (JString s))"
| "into_json L (VTuple vs) = rbind (rmap_list (into_json L) vs) (\<lambda>js. Inr (JArray js))"
| "into_json L (VList vs) = rbind (rmap_list (into_json L) vs) (\<lambda>js. Inr (JArray js))"
| "into_json L (VMap es) = rbind (insert_entries L (into_json L) es []) (\<lambda>m. Inr (JObject m))"

fun json_get :: "string \<Rightarrow> 'n json \<Rightarrow> 'n json option" where
  \<comment> \<open>\<open>serde_json::Value::get\<close> with a string index\<close>
  "json_get k (JObject es) = map_of es k"
| "json_get k _ = None"

fun json_as_str :: "'n json \<Rightarrow> string option" where
  \<comment> \<open>\<open>serde_json::Value::as_str\<close>\<close>
  "json_as_str (JString s) = Some s"
| "json_as_str _ = None"

section \<open>JSON through the wire\<close>

fun json_fits :: "'n json_lib \<Rightarrow> nat \<Rightarrow> 'n json \<Rightarrow> bool" where
  \<comment> \<open>a well-formed JSON value, met at a nesting depth, that fits the wire format\<close>
  "json_fits L depth (JString s) = (depth \<le> MAXIMUM_NESTING \<and> rust_str s \<and> length s < 2 ^ 32)"
| "json_fits L depth (JArray js) =
     (depth \<le> MAXIMUM_NESTING \<and> length js < 2 ^ 32 \<and> (\<forall>j \<in> set js. json_fits L (depth + 1) j))"
| "json_fits L depth (JObject es) =
     (depth \<le> MAXIMUM_NESTING \<and> length es < 2 ^ 32 \<and> map_valid L es
       \<and> (\<forall>p \<in> set es. json_fits L (depth + 1) (JString (fst p)) \<and> json_fits L (depth + 1) (snd p)))"
| "json_fits L depth j = (depth \<le> MAXIMUM_NESTING)"

lemma insert_entries_rebuild:
  assumes L: "json_library L"
  shows "\<lbrakk>\<And>p. p \<in> set es \<Longrightarrow> rust_str (fst p) \<and> f (g (snd p)) = Inr (snd p); map_valid L m;
     distinct (map fst es); fst ` set es \<inter> dom (map_of m) = {}\<rbrakk>
    \<Longrightarrow> insert_entries L f (map (\<lambda>(k, j). (VBinary (as_bytes k), g j)) es) m = Inr (map_rebuild L es m)"
proof (induction es arbitrary: m)
  case Nil
  then show ?case by (simp add: map_rebuild_def)
next
  case (Cons p es)
  obtain k j where p: "p = (k, j)" by force
  let ?m = "snd (map_insert L k j m)"
  have "dom (map_of ?m) = insert k (dom (map_of m))"
    using json_library_maps(4) [OF L Cons.prems(2)] by simp
  then have "fst ` set es \<inter> dom (map_of ?m) = {}"
    using Cons.prems(3,4) p by simp
  then have "insert_entries L f (map (\<lambda>(k, j). (VBinary (as_bytes k), g j)) es) ?m
      = Inr (map_rebuild L es ?m)"
    using Cons.prems(1,3) p json_library_maps(2) [OF L Cons.prems(2)] by (intro Cons.IH) auto
  moreover have "fst (map_insert L k j m) = None"
    using Cons.prems(4) p json_library_maps(3) [OF L Cons.prems(2)] by auto
  moreover have "rust_str k" "f (g j) = Inr j" using Cons.prems(1) [of p] p by simp_all
  ultimately show ?case
    using p by (simp add: map_key_def map_rebuild_def case_prod_unfold)
qed

definition wire_of :: "'n json_lib \<Rightarrow> 'n json \<Rightarrow> wvalue" where
  "wire_of L j = projr (from_json L j)"

definition travels :: "'n json_lib \<Rightarrow> nat \<Rightarrow> 'n json \<Rightarrow> bool" where
  "travels L depth j \<longleftrightarrow> from_json L j = Inr (wire_of L j) \<and> encodable depth (wire_of L j)
     \<and> into_json L (canon (wire_of L j)) = Inr j"

lemma travelsI:
  "from_json L j = Inr v \<Longrightarrow> encodable depth v \<Longrightarrow> into_json L (canon v) = Inr j \<Longrightarrow> travels L depth j"
  by (simp add: travels_def wire_of_def)

lemma into_json_unsigned:
  "json_library L \<Longrightarrow> into_json L (canon_unsigned v) = Inr (JNumber (num_of_u64 L v))"
proof (cases "255 < unat v \<and> unat v \<le> 2 ^ 31 - 1")
  case True
  assume L: "json_library L"
  have "int (unat v) \<le> int (2 ^ 31 - 1)" using True by (simp only: of_nat_le_iff)
  then have "uint v < 2 ^ 63" by simp
  moreover have "- (2 ^ 63) \<le> uint v" by (rule order_trans [OF _ uint_ge_0]) simp
  ultimately have "signed_take_bit 63 (uint v) = uint v" by (intro signed_take_bit_int_eq_self)
  then have "0 \<le> sint v" by (simp add: sint_uint)
  then show ?thesis using json_library_numbers(5) [OF L] True by (simp add: canon_unsigned_def)
qed (auto simp: canon_unsigned_def)

lemma travels_number:
  assumes L: "json_library L" and "depth \<le> MAXIMUM_NESTING"
  shows "travels L depth (JNumber n)"
proof -
  consider u where "num_as_u64 L n = Some u"
    | i where "num_as_u64 L n = None" "num_as_i64 L n = Some i"
    | f where "num_as_u64 L n = None" "num_as_i64 L n = None" "num_as_f64 L n = Some f"
    using json_library_numbers(4) [OF L, of n] by (metis not_None_eq)
  then show ?thesis
  proof cases
    case 1
    then show ?thesis
      using assms into_json_unsigned [OF L, of u] json_library_numbers(1) [OF L]
      by (intro travelsI [where v = "VUnsigned u"]) simp_all
  next
    case 2
    then have i: "num_of_i64 L i = n" by (rule json_library_numbers(2) [OF L])
    then have "0 \<le> sint i \<Longrightarrow> num_of_u64 L i = n" using json_library_numbers(5) [OF L, of i] by simp
    with 2 i show ?thesis
      using assms into_json_unsigned [OF L, of i] by (intro travelsI [where v = "VSigned i"]) simp_all
  next
    case 3
    then show ?thesis
      using assms json_library_numbers(3) [OF L]
      by (intro travelsI [where v = "VFloat f"]) simp_all
  qed
qed

lemma travels_array:
  assumes "\<And>j. j \<in> set js \<Longrightarrow> travels L (depth + 1) j"
    and "depth \<le> MAXIMUM_NESTING" "length js < 2 ^ 32"
  shows "travels L depth (JArray js)"
proof (rule travelsI [where v = "VList (map (wire_of L) js)"])
  show "from_json L (JArray js) = Inr (VList (map (wire_of L) js))"
    using assms(1) by (simp add: rmap_list_all_Inr [where g = "wire_of L"] travels_def)
  show "encodable depth (VList (map (wire_of L) js))"
    using assms by (simp add: travels_def)
  have "rmap_list (\<lambda>j. into_json L (canon (wire_of L j))) js = Inr js"
    using assms(1) rmap_list_all_Inr [of js "\<lambda>j. into_json L (canon (wire_of L j))" "\<lambda>j. j"]
    by (simp add: travels_def)
  then show "into_json L (canon (VList (map (wire_of L) js))) = Inr (JArray js)"
    by (simp add: rmap_list_map)
qed

lemma travels_object:
  assumes L: "json_library L"
    and es: "\<And>p. p \<in> set es \<Longrightarrow> rust_str (fst p) \<and> length (fst p) < 2 ^ 32 \<and> travels L (depth + 1) (snd p)"
    and "depth + 1 \<le> MAXIMUM_NESTING \<or> es = []" "depth \<le> MAXIMUM_NESTING" "length es < 2 ^ 32" "map_valid L es"
  shows "travels L depth (JObject es)"
proof (rule travelsI [where v = "VMap (map (\<lambda>(k, j). (VBinary (as_bytes k), wire_of L j)) es)"])
  show "from_json L (JObject es) = Inr (VMap (map (\<lambda>(k, j). (VBinary (as_bytes k), wire_of L j)) es))"
    using es by (simp add: rmap_list_all_Inr [where g = "\<lambda>(k, j). (VBinary (as_bytes k), wire_of L j)"]
        travels_def case_prod_unfold)
  show "encodable depth (VMap (map (\<lambda>(k, j). (VBinary (as_bytes k), wire_of L j)) es))"
    using assms(3-5) es by (auto simp: travels_def)
  have "insert_entries L (into_json L)
      (map (\<lambda>(k, j). (VBinary (as_bytes k), canon (wire_of L j))) es) [] = Inr (map_rebuild L es [])"
    using es json_library_maps [OF L] assms(6)
    by (intro insert_entries_rebuild [OF L]) (auto simp: travels_def)
  then show "into_json L (canon (VMap (map (\<lambda>(k, j). (VBinary (as_bytes k), wire_of L j)) es)))
      = Inr (JObject es)"
    using json_library_maps(6) [OF L assms(6)] by (simp add: comp_def case_prod_unfold)
qed

lemma json_fits_depth: "json_fits L depth j \<Longrightarrow> depth \<le> MAXIMUM_NESTING"
  by (cases j) auto

lemma json_fits_travels:
  "json_library L \<Longrightarrow> json_fits L depth j \<Longrightarrow> travels L depth j"
proof (induction L j arbitrary: depth rule: from_json.induct)
  case (1 L)
  then show ?case by (intro travelsI [where v = VNull]) simp_all
next
  case (2 L b)
  then show ?case by (intro travelsI [where v = "VBool b"]) simp_all
next
  case (3 L n)
  then show ?case by (intro travels_number) simp_all
next
  case (4 L s)
  then show ?case
    by (intro travelsI [where v = "VBinary (as_bytes s)"]) (simp_all add: binary_json_def)
next
  case (5 L js)
  then show ?case by (intro travels_array) auto
next
  case (6 L es)
  have "depth + 1 \<le> MAXIMUM_NESTING \<or> es = []"
    using 6(3) by (cases es) auto
  then show ?case using 6 by (intro travels_object) auto
qed

text \<open>
  C4. A JSON request survives the trip: for a library that behaves as documented, a well-formed
  JSON value that fits the format converts to a wire value, and a peer that reads the frame of
  that value and converts it back gets exactly the JSON value that was sent.
\<close>
theorem json_through_frame:
  assumes "json_library L" and "json_fits L 0 j"
    and "length (frame_payload (projr (from_json L j))) \<le> MAXIMUM_FRAME_BYTES"
    and "incoming r = frame_bytes ver (projr (from_json L j)) @ rest"
  shows "\<exists>v v'. from_json L j = Inr v \<and> read_frame ver r = (Inr v', r\<lparr>incoming := rest\<rparr>)
    \<and> into_json L v' = Inr j"
proof -
  have t: "travels L 0 j" using assms(1,2) by (rule json_fits_travels)
  have "read_frame ver r = (decode_payload (frame_payload (wire_of L j)), r\<lparr>incoming := rest\<rparr>)"
    using assms(3,4) by (intro read_frame_bytes [OF _ refl]) (simp_all add: frame_bytes_def wire_of_def)
  moreover have "decode_payload (frame_payload (wire_of L j)) = Inr (canon (wire_of L j))"
    using t assms(3) by (intro decode_payload_frame) (simp_all add: travels_def wire_of_def)
  ultimately show ?thesis using t by (auto simp: travels_def)
qed

end
