(* ===== verification/Json_Demo.thy ===== *)
theory Json_Demo
  imports Json "HOL-Library.List_Lexorder" "HOL-Library.Char_ord"
begin

text \<open>
  A concrete JSON library that satisfies \<open>json_library\<close>, with which the witnesses of the
  properties about JSON evaluate: numbers are unsigned, negative or floating, objects are
  association lists sorted by key (the default map of \<open>serde_json\<close> is ordered by key).
\<close>

datatype demo_number = Whole u64 | Below "63 word" | Real f64_bits
  \<comment> \<open>\<open>Below k\<close> is the number \<open>- 1 - k\<close>\<close>

fun sorted_insert :: "string \<Rightarrow> 'a \<Rightarrow> (string \<times> 'a) list \<Rightarrow> 'a option \<times> (string \<times> 'a) list" where
  "sorted_insert k v [] = (None, [(k, v)])"
| "sorted_insert k v ((l, w) # m) =
     (if k < l then (None, (k, v) # (l, w) # m)
      else if k = l then (Some w, (k, v) # m)
      else (case sorted_insert k v m of (old, m) \<Rightarrow> (old, (l, w) # m)))"

definition sorted_map :: "(string \<times> 'a) list \<Rightarrow> bool" where
  "sorted_map m \<longleftrightarrow> sorted_wrt (<) (map fst m)"

definition demo_lib :: "demo_number json_lib" where
  "demo_lib = \<lparr>
     num_as_u64 = (\<lambda>n. case n of Whole u \<Rightarrow> Some u | _ \<Rightarrow> None),
     num_as_i64 = (\<lambda>n. case n of Whole u \<Rightarrow> if 0 \<le> sint u then Some u else None
                        | Below k \<Rightarrow> Some (NOT (ucast k)) | Real _ \<Rightarrow> None),
     num_as_f64 = (\<lambda>n. case n of Real f \<Rightarrow> Some f | _ \<Rightarrow> Some 0),
     num_of_u64 = Whole,
     num_of_i64 = (\<lambda>i. if 0 \<le> sint i then Whole i else Below (ucast (NOT i))),
     num_of_f64 = (\<lambda>f. Some (Real f)),
     map_insert = sorted_insert,
     map_valid = sorted_map,
     base64_encode = concat \<circ> map (\<lambda>b. show_nat (unat b)) \<rparr>"

lemma demo_lib_simps [simp]:
  "num_as_u64 demo_lib = (\<lambda>n. case n of Whole u \<Rightarrow> Some u | _ \<Rightarrow> None)"
  "num_as_i64 demo_lib = (\<lambda>n. case n of Whole u \<Rightarrow> if 0 \<le> sint u then Some u else None
                        | Below k \<Rightarrow> Some (NOT (ucast k)) | Real _ \<Rightarrow> None)"
  "num_as_f64 demo_lib = (\<lambda>n. case n of Real f \<Rightarrow> Some f | _ \<Rightarrow> Some 0)"
  "num_of_u64 demo_lib = Whole"
  "num_of_i64 demo_lib = (\<lambda>i. if 0 \<le> sint i then Whole i else Below (ucast (NOT i)))"
  "num_of_f64 demo_lib = (\<lambda>f. Some (Real f))"
  "map_insert demo_lib = sorted_insert"
  "map_valid demo_lib = sorted_map"
  by (simp_all add: demo_lib_def)

lemma sorted_insert_dom: "fst ` set (snd (sorted_insert k v m)) = insert k (fst ` set m)"
proof (induction m)
  case (Cons p m)
  then show ?case
    by (cases p; cases "sorted_insert k v m") (simp add: insert_commute)
qed simp

lemma sorted_insert_valid: "sorted_map m \<Longrightarrow> sorted_map (snd (sorted_insert k v m))"
proof (induction m)
  case Nil
  then show ?case by (simp add: sorted_map_def)
next
  case (Cons p m)
  obtain l w where p: "p = (l, w)" by force
  let ?m = "snd (sorted_insert k v m)"
  have m: "sorted_map m" "\<And>x. x \<in> fst ` set m \<Longrightarrow> l < x"
    using Cons.prems p by (auto simp: sorted_map_def)
  consider "k < l" | "k = l" | "l < k" by (rule linorder_cases)
  then show ?case
  proof cases
    case 3
    then have "snd (sorted_insert k v (p # m)) = (l, w) # ?m"
      using p by (auto split: prod.splits)
    moreover have "\<And>x. x \<in> fst ` set ?m \<Longrightarrow> l < x"
      using 3 m(2) by (auto simp: sorted_insert_dom)
    ultimately show ?thesis using Cons.IH [OF m(1)] by (auto simp: sorted_map_def)
  qed (use m p in \<open>force simp: sorted_map_def\<close>)+
qed

lemma sorted_insert_old: "sorted_map m \<Longrightarrow> fst (sorted_insert k v m) = map_of m k"
proof (induction m)
  case (Cons p m)
  obtain l w where p: "p = (l, w)" by force
  have m: "sorted_map m" "\<And>x. x \<in> fst ` set m \<Longrightarrow> l < x"
    using Cons.prems p by (auto simp: sorted_map_def)
  then have "k < l \<Longrightarrow> map_of m k = None"
    by (metis map_of_eq_None_iff less_asym)
  then show ?case using Cons.IH [OF m(1)] p by (auto split: prod.splits)
qed simp

lemma sorted_insert_map_of: "map_of (snd (sorted_insert k v m)) = (map_of m)(k \<mapsto> v)"
  by (induction m) (auto split: prod.splits simp: fun_eq_iff)

lemma sorted_insert_last:
  "(\<And>x. x \<in> fst ` set m \<Longrightarrow> x < k) \<Longrightarrow> snd (sorted_insert k v m) = m @ [(k, v)]"
proof (induction m)
  case (Cons p m)
  then have "fst p < k" by simp
  with Cons show ?case
    by (cases p; cases "sorted_insert k v m") (auto simp: less_not_sym)
qed simp

lemma sorted_map_rebuild: "sorted_map (m @ es) \<Longrightarrow> map_rebuild demo_lib es m = m @ es"
proof (induction es arbitrary: m)
  case (Cons p es)
  obtain k v where p: "p = (k, v)" by force
  have "snd (sorted_insert k v m) = m @ [(k, v)]"
    using Cons.prems p by (intro sorted_insert_last) (auto simp: sorted_map_def sorted_wrt_append)
  then show ?case
    using Cons.IH [of "m @ [(k, v)]"] Cons.prems p by (simp add: map_rebuild_def)
qed (simp add: map_rebuild_def)

lemma sorted_map_Nil: "sorted_map []"
  by (simp add: sorted_map_def)

lemma sorted_map_distinct: "sorted_map m \<Longrightarrow> distinct (map fst m)"
  by (simp add: sorted_map_def strict_sorted_iff)

lemma demo_number_roundtrip: "(ucast (ucast k :: 64 word) :: 63 word) = k"
  by (simp add: unsigned_ucast_eq take_bit_word_eq_self flip: unsigned_take_bit_eq)

lemma demo_below_negative: "sint (NOT (ucast (k :: 63 word)) :: 64 word) < 0"
proof -
  have "\<not> bit (ucast k :: 64 word) 63"
    by (simp add: bit_ucast_iff) (simp add: impossible_bit)
  then have "bit (NOT (ucast k :: 64 word)) 63" by (simp add: bit_not_iff)
  then show ?thesis
    by (simp add: bit_last_iff [where 'a = 64, simplified])
qed

lemma demo_lib_ok: "json_library demo_lib"
  unfolding json_library_def demo_lib_simps
  using demo_below_negative
  by (auto simp: sorted_insert_valid sorted_insert_old sorted_insert_map_of sorted_map_rebuild
      demo_number_roundtrip not_le [symmetric] sorted_map_Nil sorted_map_distinct
      split: demo_number.splits if_splits)

definition demo_request :: "demo_number json" where
  "demo_request = JObject [(''id'', JNumber (Whole 7)), (''ids'', JArray [JNumber (Below 4), JNumber (Real 9)]),
     (''nested'', JObject [(''size'', JNumber (Whole (- 1)))]), (''op'', JString ''ping'')]"

theorem json_through_frame_witness:
  "\<exists>v v'. from_json demo_lib demo_request = Inr v
    \<and> read_frame 6 \<lparr>incoming = frame_bytes 6 (projr (from_json demo_lib demo_request)) @ [9], ending = Eof\<rparr>
        = (Inr v', \<lparr>incoming = [9], ending = Eof\<rparr>)
    \<and> into_json demo_lib v' = Inr demo_request"
proof -
  let ?r = "\<lparr>incoming = frame_bytes 6 (projr (from_json demo_lib demo_request)) @ [9], ending = Eof\<rparr>"
  have "json_fits demo_lib 0 demo_request" by code_simp
  moreover have "length (frame_payload (projr (from_json demo_lib demo_request))) \<le> MAXIMUM_FRAME_BYTES"
    by code_simp
  ultimately show ?thesis
    using json_through_frame [OF demo_lib_ok, of demo_request ?r 6 "[9]"] by simp
qed

end
