(* ===== verification/Types.thy ===== *)
theory Types
  imports Json
begin

text \<open>
  The public data of the client crate: options, handles, pages and reports (\<open>types.rs\<close>) and its
  errors (\<open>error.rs\<close>). A \<open>BTreeMap<String, _>\<close> is the list of its entries in key order. A path is
  the byte string of the operating system.
\<close>

section \<open>Options, handles, reports\<close>

datatype mount_policy = StayOnFilesystem | Cross

datatype ranking = DefaultRanking | NameBiased | Macos

record scan_options =
  opt_fields :: "string list"
  opt_concurrency :: "u32 option"
  opt_buffer_size :: "u32 option"
  opt_ranking :: ranking
  opt_mount_policy :: mount_policy
  opt_failure_sample_limit :: "u32 option"

definition default_scan_options :: scan_options where
  "default_scan_options = \<lparr>opt_fields = [''type''], opt_concurrency = None, opt_buffer_size = None,
     opt_ranking = DefaultRanking, opt_mount_policy = StayOnFilesystem, opt_failure_sample_limit = None\<rparr>"

datatype scan_outcome = OutcomeOk | OutcomeFatal

type_synonym index_id = u64

record index_handle =
  handle_index_id :: index_id
  handle_root :: string

datatype encoded_binary = Utf8 string | Base64 string

definition as_utf8 :: "encoded_binary \<Rightarrow> string option" where
  "as_utf8 b = (case b of Utf8 value \<Rightarrow> Some value | Base64 _ \<Rightarrow> None)"

record store_stats =
  directory_count :: u64
  published_directory_count :: u64
  failed_directory_count :: u64
  pending_directory_count :: u64
  completion_count :: u64
  store_entry_count :: u64
  block_bytes :: u64
  payload_bytes :: u64
  directory_table_bytes :: u64
  completion_journal_bytes :: u64
  root_name_bytes :: u64
  native_bytes :: u64

record directory_failure =
  failure_id :: u64
  failure_path :: encoded_binary
  failure_phase :: string
  failure_reason :: string
  failure_category :: string

record scan_report =
  report_root :: string
  report_complete :: bool
  report_elapsed_ms :: f64_bits
  report_entries :: u64
  report_directories :: u64
  report_regular_files :: u64
  report_symlinks :: u64
  report_other :: u64
  report_metadata_errors :: u64
  report_metadata_error_counts :: "(string \<times> u64) list"
  report_directory_failure_counts :: "(string \<times> u64) list"
  report_directory_failure_reasons :: "(string \<times> u64) list"
  directory_failure_samples :: "directory_failure list"
  report_skipped_mounts :: u64
  report_store :: store_stats

record scan_failure =
  scan_failure_kind :: string
  scan_failure_reason :: string

record scan_result =
  result_outcome :: scan_outcome
  result_report :: scan_report
  result_failure :: "scan_failure option"

datatype index_state = Running | Finished

record scan_counters =
  cnt_entries :: u64
  cnt_directories :: u64
  cnt_regular_files :: u64
  cnt_symlinks :: u64
  cnt_other :: u64
  cnt_metadata_errors :: u64
  cnt_metadata_error_counts :: "(string \<times> u64) list"
  cnt_directory_failure_counts :: "(string \<times> u64) list"
  cnt_directory_failure_reasons :: "(string \<times> u64) list"
  cnt_skipped_mounts :: u64

record index_status_record =
  status_index_id :: index_id
  status_root :: string
  status_state :: index_state
  status_ranking :: ranking
  status_pending :: u64
  status_in_flight :: u64
  status_counters :: scan_counters
  status_store :: store_stats
  status_outcome :: "string option"

record completion_page =
  page_index_id :: index_id
  page_from_cursor :: u64
  page_cursor :: u64
  page_directory_ids :: "u32 list"

datatype directory_state = DirPending | DirPublished | DirFailed

record 'n entry_row =
  row_number :: u64
  child_directory_id :: "u32 option"
  row_values :: "(string \<times> 'n json) list"

record 'n directory_page =
  dp_index_id :: index_id
  dp_directory_id :: u32
  dp_state :: directory_state
  dp_parent_id :: "u32 option"
  dp_name :: encoded_binary
  dp_error :: "'n json option"
  dp_entry_count :: u64
  dp_child_count :: u64
  dp_offset :: u64
  dp_next_offset :: u64
  dp_done :: bool
  dp_entries :: "'n entry_row list"

record sized_name =
  sized_name :: encoded_binary
  sized_size :: u64

record 'n directory_stats =
  ds_directory_id :: u32
  ds_state :: directory_state
  ds_parent_id :: "u32 option"
  ds_name :: encoded_binary
  ds_error :: "'n json option"
  ds_entry_count :: u64
  ds_child_count :: u64
  ds_size_bytes :: u64
  ds_largest :: "sized_name list"
  ds_histogram :: "(u64 \<times> u64 \<times> u64) list"
    \<comment> \<open>\<open>[u64; 3]\<close>: bucket, count, bytes\<close>

record backend_error =
  error_code :: string
  error_message :: string

section \<open>Errors\<close>

text \<open>
  The exit status of a Unix process is its exit code or the signal that ended it; \<open>code\<close> and
  \<open>success\<close> are the standard library's. Rendering a signal by name and rendering a path that is not
  UTF-8 are left to the standard library: they are arguments of the \<open>Display\<close> function.
\<close>

datatype exit_status = Exited "32 word" | Signalled nat

definition status_code :: "exit_status \<Rightarrow> 32 word option" where
  "status_code s = (case s of Exited c \<Rightarrow> Some c | Signalled _ \<Rightarrow> None)"

definition status_success :: "exit_status \<Rightarrow> bool" where
  "status_success s \<longleftrightarrow> status_code s = Some 0"

datatype client_error =
    Io io_error
  | Serialization string
  | Protocol string
  | Backend backend_error
  | BackendExited "32 word option"
  | BackendFailed exit_status
  | NonUtf8Path "u8 list"
  | RequestIdExhausted

definition show_int :: "int \<Rightarrow> string" where
  "show_int i = (if i < 0 then ''-'' @ show_nat (nat (- i)) else show_nat (nat i))"

definition show_option :: "('a \<Rightarrow> string) \<Rightarrow> 'a option \<Rightarrow> string" where
  \<comment> \<open>the \<open>Debug\<close> form of an \<open>Option\<close>\<close>
  "show_option f x = (case x of None \<Rightarrow> ''None'' | Some a \<Rightarrow> ''Some('' @ f a @ '')'')"

definition show_client_error :: "(exit_status \<Rightarrow> string) \<Rightarrow> (u8 list \<Rightarrow> string) \<Rightarrow> client_error \<Rightarrow> string" where
  "show_client_error show_status show_path e =
     (case e of
        Io error \<Rightarrow> ''backend I/O failed: '' @ show_io_error error
      | Serialization error \<Rightarrow> ''invalid bridge value: '' @ error
      | Protocol message \<Rightarrow> ''bridge protocol error: '' @ message
      | Backend error \<Rightarrow> ''backend rejected request ('' @ error_code error @ ''): '' @ error_message error
      | BackendExited code \<Rightarrow> ''backend exited unexpectedly: '' @ show_option (\<lambda>c. show_int (sint c)) code
      | BackendFailed status \<Rightarrow> ''backend exited with '' @ show_status status
      | NonUtf8Path path \<Rightarrow> ''path is not valid UTF-8: '' @ show_path path
      | RequestIdExhausted \<Rightarrow> ''bridge request IDs are exhausted'')"

text \<open>\<open>Error::source\<close>: only the errors that wrap another error have one.\<close>

datatype error_source = IoSource io_error | SerializationSource string

definition source :: "client_error \<Rightarrow> error_source option" where
  "source e = (case e of Io error \<Rightarrow> Some (IoSource error)
     | Serialization error \<Rightarrow> Some (SerializationSource error) | _ \<Rightarrow> None)"

end
