(* ===== verification/Client.thy ===== *)
theory Client
  imports Types
begin

text \<open>
  The bridge client of \<open>rust_client/src/client.rs\<close>: one long-lived child process, its pipes, the
  request counter and the queue of events that arrived while a response was areaped. Each method
  that takes \<open>&mut self\<close> is a function from the client to its result and the client afterwards.
\<close>

section \<open>The child process\<close>

text \<open>
  What the operating system will answer is part of the model's state: \<open>polls\<close> are the answers of
  the successive \<open>try_wait\<close> calls (a child not polled to its end is still running), \<open>wait_answer\<close>
  is the answer of \<open>wait\<close>. \<open>killed\<close> records a call of \<open>kill\<close>, \<open>reaped\<close> that the client saw the exit or
  waited for it: a child that is not reaped is left running or becomes a zombie.
\<close>

record child =
  child_id :: u32
  polls :: "(io_error + exit_status option) list"
  wait_answer :: "io_error + exit_status"
  killed :: bool
  reaped :: bool

definition try_wait :: "child \<Rightarrow> (io_error + exit_status option) \<times> child" where
  "try_wait ch =
     (case polls ch of
        [] \<Rightarrow> (Inr None, ch)
      | Inr (Some status) # as \<Rightarrow> (Inr (Some status), ch\<lparr>polls := as, reaped := True\<rparr>)
      | a # as \<Rightarrow> (a, ch\<lparr>polls := as\<rparr>))"

definition kill :: "child \<Rightarrow> child" where
  "kill ch = ch\<lparr>killed := True\<rparr>"

definition wait :: "child \<Rightarrow> (io_error + exit_status) \<times> child" where
  "wait ch = (wait_answer ch, ch\<lparr>reaped := True\<rparr>)"

definition terminate :: "child \<Rightarrow> child" where
  "terminate ch =
     (case try_wait ch of
        (Inr (Some _), ch) \<Rightarrow> ch
      | (_, ch) \<Rightarrow> snd (wait (kill ch)))"

section \<open>Messages\<close>

datatype bridge_event =
    Ready
  | ScanFinished index_id "scan_result option" "string option"
  | ProtocolError string

definition event_index_id :: "bridge_event \<Rightarrow> index_id option" where
  "event_index_id ev = (case ev of ScanFinished i _ _ \<Rightarrow> Some i | _ \<Rightarrow> None)"

record ready_frame =
  ready_event :: string
  ready_protocol :: u32
  ready_pid :: string

record scan_finished_event =
  finished_index_id :: index_id
  finished_result :: "scan_result option"
  finished_error :: "string option"

record 'n wire_response =
  response_id :: "u64 option"
  response_status :: string
  response_result :: "'n json option"
  response_error :: "backend_error option"

record ping_result =
  ping_pid :: string
  ping_protocol :: u32

record release_result =
  release_index_id :: index_id
  released :: bool

datatype 'n bridge_message = Response "'n wire_response" | Event bridge_event

text \<open>The request structures, with the fields they serialise.\<close>

datatype bridge_request =
    PingRequest u64 string
  | StartScanRequest u64 string string "string list" "u32 option" "u32 option" ranking mount_policy "u32 option"
  | IndexRequest u64 string index_id
  | CompletionRequest u64 string index_id u64 u32
  | SummarizeDirectoriesRequest u64 string index_id "u32 list" string u32
  | FetchDirectoryRequest u64 string index_id u32 u64 u32
  | ShutdownRequest u64 string

fun request_id :: "bridge_request \<Rightarrow> u64" where
  "request_id (PingRequest i _) = i"
| "request_id (StartScanRequest i _ _ _ _ _ _ _ _) = i"
| "request_id (IndexRequest i _ _) = i"
| "request_id (CompletionRequest i _ _ _ _) = i"
| "request_id (SummarizeDirectoriesRequest i _ _ _ _ _) = i"
| "request_id (FetchDirectoryRequest i _ _ _ _ _) = i"
| "request_id (ShutdownRequest i _) = i"

text \<open>
  The code that \<open>serde\<close> derives for these types is generated when the crate is built: the
  serialiser of the requests and the deserialisers of the answers are parameters, with their
  errors as rendered messages.
\<close>

record 'n serde =
  lib :: "'n json_lib"
  to_value :: "bridge_request \<Rightarrow> string + 'n json"
  de_ready :: "'n json \<Rightarrow> string + ready_frame"
  de_scan_finished :: "'n json \<Rightarrow> string + scan_finished_event"
  de_protocol_error :: "'n json \<Rightarrow> string + string"
  de_response :: "'n json \<Rightarrow> string + 'n wire_response"
  de_ping :: "'n json \<Rightarrow> string + ping_result"
  de_handle :: "'n json \<Rightarrow> string + index_handle"
  de_status :: "'n json \<Rightarrow> string + index_status_record"
  de_completion :: "'n json \<Rightarrow> string + completion_page"
  de_directory :: "'n json \<Rightarrow> string + 'n directory_page"
  de_summaries :: "'n json \<Rightarrow> string + 'n directory_stats list"
  de_release :: "'n json \<Rightarrow> string + release_result"
  de_shutdown :: "'n json \<Rightarrow> string + bool"

section \<open>The client\<close>

definition PROTOCOL_VERSION :: u32 where "PROTOCOL_VERSION = 6"

definition protocol_byte :: u8 where "protocol_byte = ucast PROTOCOL_VERSION"

record client =
  client_child :: "child option"
  client_input :: "writer option"
  client_output :: reader
  next_request_id :: u64
  beam_pid :: string
  events :: "bridge_event list"

definition process_id :: "client \<Rightarrow> u32" where
  "process_id c = (case client_child c of None \<Rightarrow> 0 | Some ch \<Rightarrow> child_id ch)"

definition reserve_request_id :: "client \<Rightarrow> (client_error + u64) \<times> client" where
  "reserve_request_id c =
     (let i = next_request_id c in
      if unat i + 1 < 2 ^ 64 then (Inr i, c\<lparr>next_request_id := i + 1\<rparr>)
      else (Inl RequestIdExhausted, c))"

definition write_wire_value :: "wvalue \<Rightarrow> client \<Rightarrow> (client_error + unit) \<times> client" where
  "write_wire_value v c =
     (case client_input c of
        None \<Rightarrow> (Inl (Protocol ''backend stdin is closed''), c)
      | Some w \<Rightarrow> (case write_frame protocol_byte v w of
          (res, w) \<Rightarrow> (map_err Io res, c\<lparr>client_input := Some w\<rparr>)))"

definition parse_event :: "'n serde \<Rightarrow> 'n json \<Rightarrow> client_error + bridge_event" where
  "parse_event S j =
     rbind (ok_or (Option.bind (json_get ''event'' j) json_as_str)
             (Protocol ''event frame has no string event name'')) (\<lambda>event.
       if event = ''ready'' then Inr Ready
       else if event = ''scan_finished'' then
         rbind (map_err Serialization (de_scan_finished S j)) (\<lambda>e.
           Inr (ScanFinished (finished_index_id e) (finished_result e) (finished_error e)))
       else if event = ''protocol_error'' then
         rbind (map_err Serialization (de_protocol_error S j)) (\<lambda>m. Inr (ProtocolError m))
       else Inl (Protocol (''unknown bridge event: '' @ event)))"

definition exit_code_now :: "client \<Rightarrow> 32 word option \<times> client" where
  \<comment> \<open>\<open>child.as_mut().and_then(|child| child.try_wait().ok().flatten()).and_then(|status| status.code())\<close>\<close>
  "exit_code_now c =
     (case client_child c of
        None \<Rightarrow> (None, c)
      | Some ch \<Rightarrow> (case try_wait ch of
          (Inr (Some st), ch) \<Rightarrow> (status_code st, c\<lparr>client_child := Some ch\<rparr>)
        | (_, ch) \<Rightarrow> (None, c\<lparr>client_child := Some ch\<rparr>)))"

definition read_message :: "'n serde \<Rightarrow> client \<Rightarrow> (client_error + 'n bridge_message) \<times> client" where
  "read_message S c =
     (case read_frame protocol_byte (client_output c) of
        (Inl e, r) \<Rightarrow>
          let c = c\<lparr>client_output := r\<rparr> in
          if wire_message e = ''unexpected end of bridge stream''
          then (case exit_code_now c of (code, c) \<Rightarrow> (Inl (BackendExited code), c))
          else (Inl (Protocol (wire_message e)), c)
      | (Inr v, r) \<Rightarrow>
          (rbind (map_err (\<lambda>e. Protocol (wire_message e)) (into_json (lib S) v)) (\<lambda>j.
             if json_get ''event'' j \<noteq> None then rbind (parse_event S j) (\<lambda>ev. Inr (Event ev))
             else rbind (map_err Serialization (de_response S j)) (\<lambda>r. Inr (Response r))),
           c\<lparr>client_output := r\<rparr>))"

definition register_event :: "bridge_event \<Rightarrow> client_error + bool" where
  "register_event ev =
     (case ev of
        ProtocolError m \<Rightarrow> Inl (Protocol m)
      | Ready \<Rightarrow> Inl (Protocol ''duplicate ready event'')
      | ScanFinished _ _ _ \<Rightarrow> Inr True)"

lemma register_event_keeps: "register_event ev = Inr keep \<Longrightarrow> keep"
  by (cases ev) (auto simp: register_event_def)

section \<open>Reading until the answer\<close>

text \<open>
  The two loops end because every message consumes a frame header at least: the bytes still to
  come are the measure.
\<close>

definition bytes_to_come :: "client \<Rightarrow> nat" where
  "bytes_to_come c = length (incoming (client_output c))"

lemma read_frame_consumes:
  "read_frame ver r = (Inr v, r') \<Longrightarrow> length (incoming r') < length (incoming r)"
  by (auto simp: read_frame_def read_exact_frame_def read_exact_def Let_def
      split: if_splits prod.splits sum.splits)

lemma read_message_consumes:
  "read_message S c = (Inr m, c') \<Longrightarrow> bytes_to_come c' < bytes_to_come c"
  by (auto simp: read_message_def bytes_to_come_def Let_def exit_code_now_def
      dest: read_frame_consumes split: if_splits prod.splits sum.splits option.splits)

definition push_event :: "bridge_event \<Rightarrow> client \<Rightarrow> client" where
  "push_event ev c = c\<lparr>events := events c @ [ev]\<rparr>"

lemma bytes_to_come_push [simp]: "bytes_to_come (push_event ev c) = bytes_to_come c"
  by (simp add: push_event_def bytes_to_come_def)

definition response_result_of :: "('n json \<Rightarrow> string + 'r) \<Rightarrow> u64 \<Rightarrow> 'n wire_response \<Rightarrow> client_error + 'r" where
  \<comment> \<open>the \<open>Message::Response\<close> arm of \<open>request_value\<close>\<close>
  "response_result_of de expected_id response =
     (if response_id response \<noteq> Some expected_id then
        Inl (Protocol (''response ID '' @ show_option (\<lambda>i. show_nat (unat i)) (response_id response)
          @ '' does not match request '' @ show_nat (unat expected_id)))
      else if response_status response = ''ok'' then
        rbind (ok_or (response_result response) (Protocol ''successful response has no result'')) (\<lambda>j.
          map_err Serialization (de j))
      else if response_status response = ''error'' then
        rbind (ok_or (response_error response) (Protocol ''error response has no error object'')) (\<lambda>e.
          Inl (Backend e))
      else Inl (Protocol (''unknown response status: '' @ response_status response)))"

function await_response :: "'n serde \<Rightarrow> ('n json \<Rightarrow> string + 'r) \<Rightarrow> u64 \<Rightarrow> client
    \<Rightarrow> (client_error + 'r) \<times> client" where
  \<comment> \<open>the loop of \<open>request_value\<close>\<close>
  "await_response S de expected_id c =
     (case read_message S c of
        (Inl e, c) \<Rightarrow> (Inl e, c)
      | (Inr (Event ev), c) \<Rightarrow>
          (case register_event ev of
             Inl e \<Rightarrow> (Inl e, c)
           | Inr keep \<Rightarrow> await_response S de expected_id (if keep then push_event ev c else c))
      | (Inr (Response response), c) \<Rightarrow> (response_result_of de expected_id response, c))"
  by pat_completeness auto
termination
  by (relation "measure (\<lambda>(S, de, i, c). bytes_to_come c)")
    (auto dest: read_message_consumes [OF sym])

declare await_response.simps [simp del]

definition request_value :: "'n serde \<Rightarrow> ('n json \<Rightarrow> string + 'r) \<Rightarrow> wvalue \<Rightarrow> u64 \<Rightarrow> client
    \<Rightarrow> (client_error + 'r) \<times> client" where
  "request_value S de v expected_id =
     sbind (write_wire_value v) (\<lambda>_. await_response S de expected_id)"

definition request :: "'n serde \<Rightarrow> ('n json \<Rightarrow> string + 'r) \<Rightarrow> bridge_request \<Rightarrow> u64 \<Rightarrow> client
    \<Rightarrow> (client_error + 'r) \<times> client" where
  "request S de req expected_id =
     sbind (spure (rbind (map_err Serialization (to_value S req)) (\<lambda>j.
                   map_err (\<lambda>e. Protocol (wire_message e)) (from_json (lib S) j))))
       (\<lambda>v. request_value S de v expected_id)"

function read_event :: "'n serde \<Rightarrow> client \<Rightarrow> (client_error + bridge_event) \<times> client" where
  "read_event S c =
     (case read_message S c of
        (Inl e, c) \<Rightarrow> (Inl e, c)
      | (Inr (Event ev), c) \<Rightarrow>
          (case register_event ev of
             Inl e \<Rightarrow> (Inl e, c)
           | Inr keep \<Rightarrow> if keep then (Inr ev, c) else read_event S c)
      | (Inr (Response response), c) \<Rightarrow>
          (Inl (Protocol (''unexpected response frame with ID ''
             @ show_option (\<lambda>i. show_nat (unat i)) (response_id response))), c))"
  by pat_completeness auto
termination
  by (relation "measure (\<lambda>(S, c). bytes_to_come c)") (auto dest: read_message_consumes [OF sym])

declare read_event.simps [simp del]

section \<open>Queued events\<close>

fun take_first :: "('a \<Rightarrow> bool) \<Rightarrow> 'a list \<Rightarrow> ('a \<times> 'a list) option" where
  \<comment> \<open>\<open>iter().position(..)\<close> followed by \<open>remove(position)\<close>\<close>
  "take_first P [] = None"
| "take_first P (x # xs) =
     (if P x then Some (x, xs) else map_option (\<lambda>(y, ys). (y, x # ys)) (take_first P xs))"

definition take_index_event :: "index_id \<Rightarrow> client \<Rightarrow> bridge_event option \<times> client" where
  "take_index_event i c =
     (case take_first (\<lambda>ev. event_index_id ev = Some i) (events c) of
        None \<Rightarrow> (None, c) | Some (ev, evs) \<Rightarrow> (Some ev, c\<lparr>events := evs\<rparr>))"

definition finished_event :: "bridge_event \<Rightarrow> index_id \<Rightarrow> client_error + scan_result" where
  "finished_event ev i =
     (case ev of
        ScanFinished _ result error \<Rightarrow>
          (case error of
             Some error \<Rightarrow> Inl (Protocol error)
           | None \<Rightarrow> ok_or result (Protocol ''scan completion has no result''))
      | ProtocolError m \<Rightarrow> Inl (Protocol m)
      | Ready \<Rightarrow> Inl (Protocol (''duplicate ready event while awaiting index '' @ show_nat (unat i))))"

lemma read_event_consumes: "read_event S c = (Inr ev, c') \<Longrightarrow> bytes_to_come c' < bytes_to_come c"
  by (subst (asm) read_event.simps)
    (auto dest!: read_message_consumes register_event_keeps
      split: prod.splits sum.splits bridge_message.splits if_splits)

lemma take_index_event_None: "take_index_event i c = (None, c') \<Longrightarrow> c' = c"
  by (auto simp: take_index_event_def split: option.splits)

function await_scan :: "'n serde \<Rightarrow> index_id \<Rightarrow> client \<Rightarrow> (client_error + scan_result) \<times> client" where
  "await_scan S i c =
     (case take_index_event i c of
        (Some ev, c) \<Rightarrow> (finished_event ev i, c)
      | (None, c) \<Rightarrow>
          (case read_event S c of
             (Inl e, c) \<Rightarrow> (Inl e, c)
           | (Inr ev, c) \<Rightarrow>
               if event_index_id ev = Some i then (finished_event ev i, c)
               else await_scan S i (push_event ev c)))"
  by pat_completeness auto
termination
  by (relation "measure (\<lambda>(S, i, c). bytes_to_come c)")
    (auto dest: read_event_consumes [OF sym] take_index_event_None [OF sym])

declare await_scan.simps [simp del]

section \<open>Requests\<close>

definition ping :: "'n serde \<Rightarrow> client \<Rightarrow> (client_error + string) \<times> client" where
  "ping S =
     sbind reserve_request_id (\<lambda>i.
     sbind (request S (de_ping S) (PingRequest i ''ping'') i) (\<lambda>response.
     spure (if ping_protocol response \<noteq> PROTOCOL_VERSION
       then Inl (Protocol (''ping reported protocol '' @ show_nat (unat (ping_protocol response))))
       else Inr (ping_pid response))))"

definition start_scan :: "'n serde \<Rightarrow> u8 list \<Rightarrow> scan_options \<Rightarrow> client \<Rightarrow> (client_error + index_handle) \<times> client" where
  "start_scan S root options =
     sbind (spure (ok_or (from_utf8 root) (NonUtf8Path root))) (\<lambda>root_text.
     sbind reserve_request_id (\<lambda>i.
     request S (de_handle S)
       (StartScanRequest i ''start_scan'' root_text (opt_fields options) (opt_concurrency options)
          (opt_buffer_size options) (opt_ranking options) (opt_mount_policy options)
          (opt_failure_sample_limit options)) i))"

definition index_status :: "'n serde \<Rightarrow> index_id \<Rightarrow> client \<Rightarrow> (client_error + index_status_record) \<times> client" where
  "index_status S index =
     sbind reserve_request_id (\<lambda>i. request S (de_status S) (IndexRequest i ''index_status'' index) i)"

definition completed_directories :: "'n serde \<Rightarrow> index_id \<Rightarrow> u64 \<Rightarrow> u32 \<Rightarrow> client
    \<Rightarrow> (client_error + completion_page) \<times> client" where
  "completed_directories S index cursor limit =
     sbind reserve_request_id (\<lambda>i.
     request S (de_completion S) (CompletionRequest i ''completed_directories'' index cursor limit) i)"

definition fetch_directory :: "'n serde \<Rightarrow> index_id \<Rightarrow> u32 \<Rightarrow> u64 \<Rightarrow> u32 \<Rightarrow> client
    \<Rightarrow> (client_error + 'n directory_page) \<times> client" where
  "fetch_directory S index directory off limit =
     sbind reserve_request_id (\<lambda>i.
     request S (de_directory S) (FetchDirectoryRequest i ''fetch_directory'' index directory off limit) i)"

definition summarize_directories :: "'n serde \<Rightarrow> index_id \<Rightarrow> u32 list \<Rightarrow> string \<Rightarrow> u32 \<Rightarrow> client
    \<Rightarrow> (client_error + 'n directory_stats list) \<times> client" where
  "summarize_directories S index directories size_field largest_limit =
     sbind reserve_request_id (\<lambda>i.
     request S (de_summaries S)
       (SummarizeDirectoriesRequest i ''summarize_directories'' index directories size_field largest_limit) i)"

definition release_index :: "'n serde \<Rightarrow> index_id \<Rightarrow> client \<Rightarrow> (client_error + unit) \<times> client" where
  "release_index S index =
     sbind reserve_request_id (\<lambda>i.
     sbind (request S (de_release S) (IndexRequest i ''release_index'' index) i) (\<lambda>response c.
       if released response \<and> release_index_id response = index
       then (Inr (), c\<lparr>events := filter (\<lambda>ev. event_index_id ev \<noteq> Some index) (events c)\<rparr>)
       else (Inl (Protocol ''backend declined index release''), c)))"

definition scan :: "'n serde \<Rightarrow> u8 list \<Rightarrow> scan_options \<Rightarrow> client \<Rightarrow> (client_error + scan_result) \<times> client" where
  "scan S root options =
     sbind (start_scan S root options) (\<lambda>index c.
       case await_scan S (handle_index_id index) c of
         (result, c) \<Rightarrow>
           (case release_index S (handle_index_id index) c of
              (release, c) \<Rightarrow>
                (case result of
                   Inr result \<Rightarrow> rbind release (\<lambda>_. Inr result)
                 | Inl error \<Rightarrow> Inl error, c)))"

section \<open>Life cycle\<close>

definition read_typed_frame :: "'n serde \<Rightarrow> ('n json \<Rightarrow> string + 'a) \<Rightarrow> reader \<Rightarrow> (client_error + 'a) \<times> reader" where
  "read_typed_frame S de r =
     (case read_frame protocol_byte r of (m, r) \<Rightarrow>
       (rbind (map_err (\<lambda>e. Protocol (wire_message e)) m) (\<lambda>v.
        rbind (map_err (\<lambda>e. Protocol (wire_message e)) (into_json (lib S) v)) (\<lambda>j.
        map_err Serialization (de j))), r))"

text \<open>
  \<open>spawn\<close> gets what the operating system made of the command: an error, or a child with the two
  pipe ends the command asked for. Its second result is the child of a failed spawn, as it was left.
\<close>

definition spawn :: "'n serde \<Rightarrow> io_error + (child \<times> writer option \<times> reader option)
    \<Rightarrow> (client_error + client) \<times> child option" where
  "spawn S spawned =
     (case spawned of
        Inl e \<Rightarrow> (Inl (Io e), None)
      | Inr (ch, None, _) \<Rightarrow> (Inl (Protocol ''backend stdin was not piped''), Some (terminate ch))
      | Inr (ch, Some inp, None) \<Rightarrow> (Inl (Protocol ''backend stdout was not piped''), Some (terminate ch))
      | Inr (ch, Some inp, Some out) \<Rightarrow>
          (case read_typed_frame S (de_ready S) out of
             (Inl e, out) \<Rightarrow> (Inl e, Some (terminate ch))
           | (Inr startup, out) \<Rightarrow>
               if ready_event startup \<noteq> ''ready'' then
                 (Inl (Protocol (''expected ready event, received '' @ ready_event startup)), Some (terminate ch))
               else if ready_protocol startup \<noteq> PROTOCOL_VERSION then
                 (Inl (Protocol (''protocol '' @ show_nat (unat (ready_protocol startup))
                    @ '' is unsupported; expected '' @ show_nat (unat PROTOCOL_VERSION))), Some (terminate ch))
               else (Inr \<lparr>client_child = Some ch, client_input = Some inp, client_output = out,
                       next_request_id = 0, beam_pid = ready_pid startup, events = []\<rparr>, None)))"

definition drop_client :: "client \<Rightarrow> client" where
  "drop_client c = c\<lparr>client_input := None, client_child := map_option terminate (client_child c)\<rparr>"

definition shutdown :: "'n serde \<Rightarrow> client \<Rightarrow> (client_error + unit) \<times> client \<times> child option" where
  \<comment> \<open>consumes the client, which is dropped on every path; last, the child that was reaped for\<close>
  "shutdown S c =
     (case sbind reserve_request_id (\<lambda>i. request S (de_shutdown S) (ShutdownRequest i ''shutdown'') i) c of
        (Inl e, c) \<Rightarrow> (Inl e, drop_client c, None)
      | (Inr accepted, c) \<Rightarrow>
          if \<not> accepted then (Inl (Protocol ''backend declined shutdown''), drop_client c, None)
          else
            let c = c\<lparr>client_input := None\<rparr> in
            (case client_child c of
               None \<Rightarrow> (Inl (Protocol ''backend child is missing''), drop_client c, None)
             | Some ch \<Rightarrow>
                 let c = c\<lparr>client_child := None\<rparr> in
                 (case wait ch of
                    (Inl e, ch) \<Rightarrow> (Inl (Io e), drop_client c, Some ch)
                  | (Inr status, ch) \<Rightarrow>
                      (if status_success status then Inr () else Inl (BackendFailed status),
                       drop_client c, Some ch))))"

section \<open>The development command\<close>

record command =
  program :: "u8 list"
  arguments :: "string list"
  current_dir :: "u8 list option"

definition path_join :: "u8 list \<Rightarrow> u8 list \<Rightarrow> u8 list" where
  \<comment> \<open>\<open>Path::join\<close> on Unix\<close>
  "path_join base p =
     (if p \<noteq> [] \<and> hd p = 0x2F then p
      else if base = [] \<or> last base = 0x2F then base @ p
      else base @ [0x2F] @ p)"

definition development_command :: "u8 list \<Rightarrow> command" where
  "development_command workspace_root =
     \<lparr>program = as_bytes ''elixir'',
      arguments = [''-pa'', ''_build/dev/lib/findex/ebin'', ''-pa'',
        ''_build/dev/lib/findex_rust_backend/ebin'', ''backend.exs''],
      current_dir = Some (path_join workspace_root (as_bytes ''rust_client/backend''))\<rparr>"

end
