(* ===== verification/Client_Queue.thy ===== *)
theory Client_Queue
  imports Client "HOL-Library.Sublist"
begin

text \<open>
  What the client's methods do with the message stream. \<open>delivers\<close> is the abstract view of the
  stream: the events that successive reads deliver. Against it, the loop of \<open>request_value\<close> is
  \<open>collect events until the response\<close>, and \<open>await_scan\<close> is \<open>the first event of the index in the
  queue followed by the stream\<close>. \<open>later\<close> is the contract every method keeps: the queue, the
  request counter, the pipes and the child only move forward.
\<close>

section \<open>The event stream\<close>

inductive delivers :: "'n serde \<Rightarrow> client \<Rightarrow> bridge_event list \<Rightarrow> client \<Rightarrow> bool" for S where
  delivers_nil: "delivers S c [] c"
| delivers_event: "\<lbrakk>read_message S c = (Inr (Event ev), c1); register_event ev = Inr True; delivers S c1 evs c2\<rbrakk>
    \<Longrightarrow> delivers S c (ev # evs) c2"

inductive_cases delivers_nilE: "delivers S c [] c'"
inductive_cases delivers_eventE: "delivers S c (ev # evs) c'"

definition with_events :: "bridge_event list \<Rightarrow> client \<Rightarrow> client" where
  "with_events evs c = c\<lparr>events := evs\<rparr>"

lemma with_events_simps [simp]:
  "events (with_events evs c) = evs"
  "with_events evs (with_events evs' c) = with_events evs c"
  "with_events (events c) c = c"
  "client_output (with_events evs c) = client_output c"
  "client_child (with_events evs c) = client_child c"
  "client_input (with_events evs c) = client_input c"
  "next_request_id (with_events evs c) = next_request_id c"
  "beam_pid (with_events evs c) = beam_pid c"
  by (simp_all add: with_events_def)

lemma push_event_eq: "push_event ev c = with_events (events c @ [ev]) c"
  by (simp add: push_event_def with_events_def)

lemma exit_code_now_events: "exit_code_now (with_events evs c) = map_prod id (with_events evs) (exit_code_now c)"
  by (auto simp: exit_code_now_def with_events_def split: option.splits prod.splits sum.splits)

lemma read_message_with_events:
  "read_message S (with_events evs c) = map_prod id (with_events evs) (read_message S c)"
proof -
  have *: "(with_events evs c)\<lparr>client_output := r\<rparr> = with_events evs (c\<lparr>client_output := r\<rparr>)" for r
    by (simp add: with_events_def)
  show ?thesis
    by (cases "read_frame protocol_byte (client_output c)"; cases "fst (read_frame protocol_byte (client_output c))")
      (auto simp: read_message_def Let_def * exit_code_now_events split: prod.splits)
qed

lemma read_message_events: "read_message S c = (m, c') \<Longrightarrow> events c' = events c"
  by (auto simp: read_message_def Let_def exit_code_now_def
      split: if_splits prod.splits sum.splits option.splits)

lemma delivers_events: "delivers S c evs c' \<Longrightarrow> events c' = events c"
  by (induction rule: delivers.induct) (auto dest: read_message_events)

lemma delivers_with_events:
  "delivers S c evs c' \<Longrightarrow> delivers S (with_events q c) evs (with_events q c')"
  by (induction rule: delivers.induct)
    (auto intro!: delivers.intros simp: read_message_with_events)

lemma register_event_cases: "register_event ev = Inr True \<longleftrightarrow> event_index_id ev \<noteq> None"
  by (cases ev) (auto simp: register_event_def event_index_id_def)

section \<open>Awaiting a response\<close>

definition halts :: "client_error + 'n bridge_message \<Rightarrow> bool" where
  \<comment> \<open>a read that ends the loop: an error, a response, or an event no client may get\<close>
  "halts m \<longleftrightarrow> (case m of Inr (Event ev) \<Rightarrow> event_index_id ev = None | _ \<Rightarrow> True)"

definition verdict :: "('n json \<Rightarrow> string + 'r) \<Rightarrow> u64 \<Rightarrow> client_error + 'n bridge_message \<Rightarrow> client_error + 'r" where
  "verdict de i m =
     (case m of
        Inl e \<Rightarrow> Inl e
      | Inr (Response response) \<Rightarrow> response_result_of de i response
      | Inr (Event ev) \<Rightarrow> Inl (case ev of ProtocolError t \<Rightarrow> Protocol t | _ \<Rightarrow> Protocol ''duplicate ready event''))"

lemma await_response_delivers:
  "delivers S c evs c' \<Longrightarrow>
     await_response S de i (with_events q c) = await_response S de i (with_events (q @ evs) c')"
proof (induction arbitrary: q rule: delivers.induct)
  case (delivers_event c ev c1 evs c2)
  have "await_response S de i (with_events q c) = await_response S de i (with_events (q @ [ev]) c1)"
    by (subst await_response.simps) (simp add: delivers_event.hyps read_message_with_events push_event_eq)
  then show ?case using delivers_event.IH [of "q @ [ev]"] by simp
qed simp

lemma await_response_halts:
  assumes "read_message S c = (m, c')" "halts m"
  shows "await_response S de i c = (verdict de i m, c')"
  using assms
  by (subst await_response.simps)
    (auto simp: halts_def verdict_def event_index_id_def register_event_def
      split: sum.splits bridge_message.splits bridge_event.splits)

lemma stream_halts: "\<exists>evs c1 m c2. delivers S c evs c1 \<and> read_message S c1 = (m, c2) \<and> halts m"
proof (induction "bytes_to_come c" arbitrary: c rule: less_induct)
  case less
  obtain m c1 where m: "read_message S c = (m, c1)" by force
  show ?case
  proof (cases "halts m")
    case True
    then show ?thesis using m delivers_nil by blast
  next
    case False
    then obtain ev where ev: "m = Inr (Event ev)" "register_event ev = Inr True"
      by (auto simp: halts_def register_event_cases split: sum.splits bridge_message.splits)
    have "bytes_to_come c1 < bytes_to_come c" using m ev(1) by (auto dest: read_message_consumes)
    from less.hyps [OF this] ev m show ?thesis by (blast intro: delivers_event)
  qed
qed

lemma await_response_outcome_aux:
  "\<exists>evs c1 m c2. delivers S c evs c1 \<and> read_message S c1 = (m, c2) \<and> halts m
     \<and> await_response S de i c = (verdict de i m, with_events (events c @ evs) c2)"
proof -
  obtain evs c1 m c2 where d: "delivers S c evs c1" and m: "read_message S c1 = (m, c2)" and "halts m"
    using stream_halts by blast
  have "read_message S (with_events (events c @ evs) c1) = (m, with_events (events c @ evs) c2)"
    using m by (simp add: read_message_with_events)
  from await_response_halts [OF this \<open>halts m\<close>]
  have "await_response S de i c = (verdict de i m, with_events (events c @ evs) c2)"
    using await_response_delivers [OF d, of de i "events c"] by simp
  then show ?thesis using d m \<open>halts m\<close> by blast
qed

text \<open>
  C5. Awaiting a response always returns, and what it returns is determined by the stream: it
  queues the scan completions that arrive first, behind those queued before and in their order,
  and gives the verdict on the first other message: the decoded result of the response with the
  expected id, or the error of a failed read, of a response with another id, or of an event that
  is a protocol violation.
\<close>
theorem await_response_outcome:
  "\<exists>evs c1 m c2. delivers S c evs c1 \<and> read_message S c1 = (m, c2) \<and> halts m
     \<and> await_response S de i c = (verdict de i m, with_events (events c @ evs) c2)"
  by (rule await_response_outcome_aux)

section \<open>Awaiting a completion\<close>

lemma take_first_None: "take_first P xs = None \<longleftrightarrow> (\<forall>x \<in> set xs. \<not> P x)"
  by (induction xs) auto

lemma take_first_Some:
  "take_first P xs = Some (x, ys) \<Longrightarrow>
     \<exists>pre post. xs = pre @ x # post \<and> ys = pre @ post \<and> P x \<and> (\<forall>y \<in> set pre. \<not> P y)"
proof (induction xs arbitrary: ys)
  case (Cons a xs)
  show ?case
  proof (cases "P a")
    case True
    with Cons.prems have "a # xs = [] @ x # xs \<and> ys = [] @ xs \<and> P x" by auto
    then show ?thesis by fastforce
  next
    case False
    with Cons.prems obtain zs where "take_first P xs = Some (x, zs)" "ys = a # zs" by auto
    with Cons.IH obtain pre post where "xs = pre @ x # post" "ys = (a # pre) @ post" "P x" "\<forall>y \<in> set pre. \<not> P y"
      by fastforce
    with False show ?thesis by (intro exI [of _ "a # pre"] exI [of _ post]) simp
  qed
qed simp

definition for_index :: "index_id \<Rightarrow> bridge_event \<Rightarrow> bool" where
  "for_index i ev \<longleftrightarrow> event_index_id ev = Some i"

lemma read_event_with_events:
  "read_event S (with_events q c) = map_prod id (with_events q) (read_event S c)"
proof (induction S c rule: read_event.induct)
  case (1 S c)
  show ?case
    by (subst (1 2) read_event.simps)
      (auto simp: read_message_with_events dest: register_event_keeps
        split: prod.splits sum.splits bridge_message.splits)
qed

definition scan_verdict :: "index_id \<Rightarrow> client_error + 'n bridge_message \<Rightarrow> client_error + scan_result" where
  "scan_verdict i m =
     (case m of
        Inl e \<Rightarrow> Inl e
      | Inr (Response r) \<Rightarrow> Inl (Protocol (''unexpected response frame with ID ''
             @ show_option (\<lambda>i. show_nat (unat i)) (response_id r)))
      | Inr (Event ev) \<Rightarrow>
          rbind (register_event ev) (\<lambda>_. finished_event ev i))"

definition scan_halts :: "index_id \<Rightarrow> client_error + 'n bridge_message \<Rightarrow> bool" where
  "scan_halts i m \<longleftrightarrow> (case m of Inr (Event ev) \<Rightarrow> event_index_id ev \<in> {None, Some i} | _ \<Rightarrow> True)"

lemma take_index_event_eq:
  "take_index_event i c =
     (case take_first (for_index i) (events c) of
        None \<Rightarrow> (None, c) | Some (ev, evs) \<Rightarrow> (Some ev, with_events evs c))"
  unfolding take_index_event_def for_index_def [abs_def] with_events_def ..

lemma await_scan_queued:
  "take_first (for_index i) (events c) = Some (ev, evs) \<Longrightarrow>
     await_scan S i c = (finished_event ev i, with_events evs c)"
  by (subst await_scan.simps) (simp add: take_index_event_eq)

lemma await_scan_not_queued:
  assumes "\<forall>ev \<in> set (events c). \<not> for_index i ev"
  shows "await_scan S i c = (case read_event S c of
             (Inl e, c) \<Rightarrow> (Inl e, c)
           | (Inr ev, c) \<Rightarrow>
               if event_index_id ev = Some i then (finished_event ev i, c)
               else await_scan S i (push_event ev c))"
proof -
  have "take_first (for_index i) (events c) = None" using assms by (simp add: take_first_None)
  then have "take_index_event i c = (None, c)" by (simp add: take_index_event_eq)
  then show ?thesis by (subst await_scan.simps) simp
qed

lemma await_scan_delivers:
  "\<lbrakk>delivers S c evs c'; \<forall>ev \<in> set (q @ evs). \<not> for_index i ev\<rbrakk> \<Longrightarrow>
     await_scan S i (with_events q c) = await_scan S i (with_events (q @ evs) c')"
proof (induction arbitrary: q rule: delivers.induct)
  case (delivers_event c ev c1 evs c2)
  have "read_event S (with_events q c) = (Inr ev, with_events q c1)"
    by (subst read_event.simps) (simp add: delivers_event.hyps read_message_with_events)
  moreover have "event_index_id ev \<noteq> Some i" using delivers_event.prems by (simp add: for_index_def)
  ultimately have "await_scan S i (with_events q c) = await_scan S i (with_events (q @ [ev]) c1)"
    using delivers_event.prems by (subst await_scan_not_queued) (simp_all add: push_event_eq)
  then show ?case using delivers_event.IH [of "q @ [ev]"] delivers_event.prems by simp
qed simp

lemma await_scan_halts:
  assumes "read_message S c = (m, c')" "scan_halts i m" "\<forall>ev \<in> set (events c). \<not> for_index i ev"
  shows "await_scan S i c = (scan_verdict i m, c')"
proof -
  have "read_event S c = (case m of Inr (Event ev) \<Rightarrow> (rbind (register_event ev) (\<lambda>_. Inr ev), c')
     | _ \<Rightarrow> (map_err id (rbind (scan_verdict i m) (\<lambda>_. Inr Ready)), c'))"
    using assms(1)
    by (subst read_event.simps)
      (auto simp: scan_verdict_def dest: register_event_keeps split: sum.splits bridge_message.splits)
  then show ?thesis
    using assms(2)
    by (subst await_scan_not_queued [OF assms(3)])
      (auto simp: scan_verdict_def scan_halts_def register_event_def event_index_id_def
        split: sum.splits bridge_message.splits bridge_event.splits)
qed

lemma stream_scan_halts:
  "\<exists>evs c1 m c2. delivers S c evs c1 \<and> read_message S c1 = (m, c2) \<and> scan_halts i m
     \<and> (\<forall>ev \<in> set evs. \<not> for_index i ev)"
proof (induction "bytes_to_come c" arbitrary: c rule: less_induct)
  case less
  obtain m c1 where m: "read_message S c = (m, c1)" by force
  show ?case
  proof (cases "scan_halts i m")
    case True
    then show ?thesis using m delivers_nil by fastforce
  next
    case False
    then obtain ev where ev: "m = Inr (Event ev)" "register_event ev = Inr True" "\<not> for_index i ev"
      by (auto simp: scan_halts_def for_index_def register_event_cases split: sum.splits bridge_message.splits)
    have "bytes_to_come c1 < bytes_to_come c" using m ev(1) by (auto dest: read_message_consumes)
    from less.hyps [OF this] obtain evs c2 m' c3 where
      "delivers S c1 evs c2" "read_message S c2 = (m', c3)" "scan_halts i m'" "\<forall>ev \<in> set evs. \<not> for_index i ev"
      by blast
    with ev m show ?thesis
      by (intro exI [of _ "ev # evs"] exI [of _ c2] exI [of _ m'] exI [of _ c3]) (auto intro: delivers_event)
  qed
qed

definition scan_awaited :: "'n serde \<Rightarrow> index_id \<Rightarrow> client \<Rightarrow> (client_error + scan_result) \<times> client \<Rightarrow> bool" where
  \<comment> \<open>the specification of \<open>await_scan\<close> over the queue and the stream\<close>
  "scan_awaited S i c result \<longleftrightarrow>
     (\<exists>pre ev post. events c = pre @ ev # post \<and> for_index i ev \<and> (\<forall>ev \<in> set pre. \<not> for_index i ev)
        \<and> result = (finished_event ev i, with_events (pre @ post) c))
   \<or> ((\<forall>ev \<in> set (events c). \<not> for_index i ev)
        \<and> (\<exists>evs c1 m c2. delivers S c evs c1 \<and> (\<forall>ev \<in> set evs. \<not> for_index i ev)
             \<and> read_message S c1 = (m, c2) \<and> scan_halts i m
             \<and> result = (scan_verdict i m, with_events (events c @ evs) c2)))"

lemma await_scan_outcome_aux: "scan_awaited S i c (await_scan S i c)"
proof (cases "take_first (for_index i) (events c)")
  case None
  then have q: "\<forall>ev \<in> set (events c). \<not> for_index i ev" by (simp add: take_first_None)
  obtain evs c1 m c2 where d: "delivers S c evs c1" and m: "read_message S c1 = (m, c2)"
    and h: "scan_halts i m" and e: "\<forall>ev \<in> set evs. \<not> for_index i ev"
    using stream_scan_halts by blast
  have "await_scan S i c = await_scan S i (with_events (events c @ evs) c1)"
    using await_scan_delivers [OF d, of "events c"] q e by auto
  also have "\<dots> = (scan_verdict i m, with_events (events c @ evs) c2)"
    using m h q e by (intro await_scan_halts) (auto simp: read_message_with_events)
  finally show ?thesis using q d m h e unfolding scan_awaited_def by blast
next
  case (Some p)
  obtain ev evs where p: "p = (ev, evs)" by force
  from take_first_Some [OF Some [unfolded p]] await_scan_queued [OF Some [unfolded p]]
  show ?thesis unfolding scan_awaited_def by blast
qed

text \<open>
  C6. \<open>await_scan\<close> always returns. If a completion of the index is queued, the oldest one is taken
  out of the queue and decides the result without reading; otherwise messages are read up to the
  first completion of the index or error, and the completions of other indexes read on the way are
  queued in their order behind those queued before: none is lost, duplicated or reordered.
\<close>
theorem await_scan_outcome: "scan_awaited S i c (await_scan S i c)"
  by (rule await_scan_outcome_aux)

end
