(* ===== verification/Client_Contract.thy ===== *)
theory Client_Contract
  imports Client_Queue
begin

text \<open>
  The contract that every method of the client keeps, as a locale interpreted on each of them:
  request ids only grow, the pipes and the child only move forward, and the queue holds scan
  completions only. It gives the invariant of every client a program can reach, and with it that
  the errors for a missing child or a closed pipe, and the violations that \<open>finished_event\<close>
  provides for, never arise from the queue.
\<close>

section \<open>Moving forward\<close>

definition queue_ok :: "bridge_event list \<Rightarrow> bool" where
  "queue_ok evs \<longleftrightarrow> (\<forall>ev \<in> set evs. event_index_id ev \<noteq> None)"

definition pipe_later :: "writer option \<Rightarrow> writer option \<Rightarrow> bool" where
  "pipe_later p p' = rel_option (\<lambda>w w'. broken w' = broken w \<and> prefix (sent w) (sent w')) p p'"

definition child_later :: "child option \<Rightarrow> child option \<Rightarrow> bool" where
  "child_later p p' = rel_option (\<lambda>a b. suffix (polls b) (polls a) \<and> child_id b = child_id a
     \<and> killed b = killed a \<and> (reaped a \<longrightarrow> reaped b)) p p'"

definition later :: "client \<Rightarrow> client \<Rightarrow> bool" where
  "later c c' \<longleftrightarrow>
     beam_pid c' = beam_pid c
   \<and> next_request_id c \<le> next_request_id c'
   \<and> suffix (incoming (client_output c')) (incoming (client_output c))
   \<and> pipe_later (client_input c) (client_input c')
   \<and> child_later (client_child c) (client_child c')
   \<and> (queue_ok (events c) \<longrightarrow> queue_ok (events c'))"

lemma pipe_later_refl [simp]: "pipe_later p p"
  by (cases p) (auto simp: pipe_later_def)

lemma child_later_refl [simp]: "child_later p p"
  by (cases p) (auto simp: child_later_def)

lemma pipe_later_trans: "pipe_later p q \<Longrightarrow> pipe_later q r \<Longrightarrow> pipe_later p r"
  by (cases p; cases q; cases r) (auto simp: pipe_later_def)

lemma child_later_trans: "child_later p q \<Longrightarrow> child_later q r \<Longrightarrow> child_later p r"
  by (cases p; cases q; cases r) (auto simp: child_later_def intro: suffix_order.trans)

lemma later_refl [simp]: "later c c"
  by (simp add: later_def)

lemma later_trans: "later c c' \<Longrightarrow> later c' c'' \<Longrightarrow> later c c''"
  unfolding later_def
  by (auto intro: order_trans suffix_order.trans pipe_later_trans child_later_trans)

definition forward :: "(client \<Rightarrow> (client_error + 'a) \<times> client) \<Rightarrow> bool" where
  "forward m \<longleftrightarrow> (\<forall>c. later c (snd (m c)))"

lemma forwardD: "forward m \<Longrightarrow> m c = (r, c') \<Longrightarrow> later c c'"
  unfolding forward_def by (metis snd_conv)

named_theorems forward_rules \<open>methods that keep the client's contract\<close>

lemma forward_spure [forward_rules]: "forward (spure m)"
  by (simp add: forward_def spure_def)

lemma forward_sbind [forward_rules]:
  "forward m \<Longrightarrow> (\<And>a. forward (f a)) \<Longrightarrow> forward (sbind m f)"
  unfolding forward_def sbind_def
  by (auto split: prod.splits sum.splits) (metis later_trans snd_conv)+

lemma forward_reserve [forward_rules]: "forward reserve_request_id"
proof -
  have "next_request_id c \<le> next_request_id c + 1" if "Suc (unat (next_request_id c)) < 2 ^ 64" for c :: client
    using that by (simp add: word_le_nat_alt unat_word_ariths)
  then show ?thesis
    by (auto simp: forward_def reserve_request_id_def Let_def later_def)
qed

lemma write_frame_forward: "write_frame ver v w = (r, w') \<Longrightarrow> pipe_later (Some w) (Some w')"
  by (auto simp: write_frame_def pipe_later_def split: if_splits option.splits)

lemma forward_write [forward_rules]: "forward (write_wire_value v)"
  by (auto simp: forward_def write_wire_value_def later_def dest: write_frame_forward
      split: option.splits prod.splits)

lemma read_exact_suffix: "read_exact n r = (m, r') \<Longrightarrow> suffix (incoming r') (incoming r)"
  by (auto simp: read_exact_def suffix_drop split: if_splits)

lemma read_frame_suffix: "read_frame ver r = (m, r') \<Longrightarrow> suffix (incoming r') (incoming r)"
  by (auto simp: read_frame_def read_exact_frame_def Let_def
      dest!: read_exact_suffix intro: suffix_order.trans split: if_splits prod.splits sum.splits)

lemma try_wait_later: "try_wait ch = (a, ch') \<Longrightarrow> child_later (Some ch) (Some ch')"
  by (auto simp: try_wait_def child_later_def suffix_ConsI split: list.splits sum.splits option.splits)

lemma exit_code_now_later: "exit_code_now c = (a, c') \<Longrightarrow> later c c'"
  by (auto simp: exit_code_now_def later_def dest: try_wait_later
      split: option.splits prod.splits sum.splits)

lemma later_output: "suffix (incoming r) (incoming (client_output (c :: client))) \<Longrightarrow> later c (c\<lparr>client_output := r\<rparr>)"
  by (simp add: later_def)

lemma forward_read_message [forward_rules]: "forward (read_message S)"
  unfolding forward_def
proof
  fix c :: client
  obtain m r where m: "read_frame protocol_byte (client_output c) = (m, r)" by force
  let ?c = "c\<lparr>client_output := r\<rparr>"
  have "later c ?c" using read_frame_suffix [OF m] by (rule later_output)
  moreover obtain code c' where e: "exit_code_now ?c = (code, c')" by force
  then have "later ?c c'" by (rule exit_code_now_later)
  ultimately show "later c (snd (read_message S c))"
    using m e by (auto simp: read_message_def Let_def split: sum.splits intro: later_trans)
qed

lemma later_push: "event_index_id ev \<noteq> None \<Longrightarrow> later c (push_event ev c)"
  by (auto simp: later_def push_event_def queue_ok_def)

lemma delivers_later: "delivers S c evs c' \<Longrightarrow> later c (with_events (events c @ evs) c')"
proof -
  assume d: "delivers S c evs c'"
  then have "later c c'" and "queue_ok evs"
    by (induction rule: delivers.induct)
      (auto simp: queue_ok_def register_event_cases intro: later_trans forwardD [OF forward_read_message])
  then show ?thesis using delivers_events [OF d] by (auto simp: later_def queue_ok_def)
qed

lemma later_with_events:
  "later c c' \<Longrightarrow> (queue_ok (events c) \<Longrightarrow> queue_ok q) \<Longrightarrow> later c (with_events q c')"
  by (simp add: later_def)

lemma read_message_delivers_later:
  assumes "delivers S c evs c1" "read_message S c1 = (m, c2)"
  shows "later c (with_events (events c @ evs) c2)"
proof -
  have "read_message S (with_events (events c @ evs) c1) = (m, with_events (events c @ evs) c2)"
    using assms(2) by (simp add: read_message_with_events)
  then show ?thesis
    using forwardD [OF forward_read_message] delivers_later [OF assms(1)] later_trans by blast
qed

lemma forward_await_response [forward_rules]: "forward (await_response S de i)"
  unfolding forward_def
  using await_response_outcome_aux read_message_delivers_later by (metis snd_conv)

lemma forward_request [forward_rules]: "forward (request S de req i)"
  unfolding request_def request_value_def by (intro forward_rules)

lemma forward_await_scan [forward_rules]: "forward (await_scan S i)"
  unfolding forward_def
proof
  fix c
  from await_scan_outcome_aux [of S i c] show "later c (snd (await_scan S i c))"
    unfolding scan_awaited_def
  proof (elim disjE exE conjE)
    fix pre ev post
    assume "events c = pre @ ev # post" "await_scan S i c = (finished_event ev i, with_events (pre @ post) c)"
    then show ?thesis by (auto simp: queue_ok_def intro!: later_with_events)
  qed (auto dest: read_message_delivers_later)
qed

lemma forward_release [forward_rules]: "forward (release_index S i)"
  unfolding release_index_def
  by (intro forward_rules) (auto simp: forward_def later_def queue_ok_def)

section \<open>The contract as an interface\<close>

locale bridge_operation =
  fixes op :: "client \<Rightarrow> (client_error + 'a) \<times> client"
  assumes forward: "forward op"
begin

lemma op_later: "op c = (r, c') \<Longrightarrow> later c c'"
  using forward by (rule forwardD)

lemma op_queue: "op c = (r, c') \<Longrightarrow> queue_ok (events c) \<Longrightarrow> queue_ok (events c')"
  using op_later by (simp add: later_def)

lemma op_pipes: "op c = (r, c') \<Longrightarrow> client_input c \<noteq> None \<and> client_child c \<noteq> None
    \<Longrightarrow> client_input c' \<noteq> None \<and> client_child c' \<noteq> None"
  using op_later [of c r c'] by (auto simp: later_def pipe_later_def child_later_def option_rel_Some1)

lemma op_then: "(\<And>a. bridge_operation (f a)) \<Longrightarrow> bridge_operation (sbind op f)"
  using forward by (simp add: bridge_operation_def forward_sbind)

end

interpretation ping: bridge_operation "ping S" for S
  by unfold_locales (unfold ping_def, intro forward_rules)

interpretation start_scan: bridge_operation "start_scan S root options" for S root options
  by unfold_locales (unfold start_scan_def, intro forward_rules)

interpretation index_status: bridge_operation "index_status S i" for S i
  by unfold_locales (unfold index_status_def, intro forward_rules)

interpretation completed_directories: bridge_operation "completed_directories S i cursor limit"
  for S i cursor limit
  by unfold_locales (unfold completed_directories_def, intro forward_rules)

interpretation fetch_directory: bridge_operation "fetch_directory S i directory off limit"
  for S i directory off limit
  by unfold_locales (unfold fetch_directory_def, intro forward_rules)

interpretation summarize_directories: bridge_operation "summarize_directories S i directories field limit"
  for S i directories field limit
  by unfold_locales (unfold summarize_directories_def, intro forward_rules)

interpretation release_index: bridge_operation "release_index S i" for S i
  by unfold_locales (rule forward_release)

interpretation await_scan: bridge_operation "await_scan S i" for S i
  by unfold_locales (rule forward_await_scan)

end
