(* ===== verification/Client_Props.thy ===== *)
theory Client_Props
  imports Client_Contract Json_Demo
begin

text \<open>
  Properties of the client as a whole: the invariant of the clients a program can reach, fresh
  request ids, one request over the bytes of the pipes, what \<open>scan\<close> and \<open>release_index\<close> leave
  behind, and the life cycle of the child.
\<close>

section \<open>Reachable clients\<close>

inductive bridge_step :: "'n serde \<Rightarrow> client \<Rightarrow> client \<Rightarrow> bool" for S where
  step_ping: "ping S c = (r, c') \<Longrightarrow> bridge_step S c c'"
| step_start_scan: "start_scan S root options c = (r, c') \<Longrightarrow> bridge_step S c c'"
| step_index_status: "index_status S i c = (r, c') \<Longrightarrow> bridge_step S c c'"
| step_completed: "completed_directories S i cursor limit c = (r, c') \<Longrightarrow> bridge_step S c c'"
| step_fetch: "fetch_directory S i directory off limit c = (r, c') \<Longrightarrow> bridge_step S c c'"
| step_summarize: "summarize_directories S i directories field limit c = (r, c') \<Longrightarrow> bridge_step S c c'"
| step_await: "await_scan S i c = (r, c') \<Longrightarrow> bridge_step S c c'"
| step_release: "release_index S i c = (r, c') \<Longrightarrow> bridge_step S c c'"
| step_scan: "scan S root options c = (r, c') \<Longrightarrow> bridge_step S c c'"

inductive reachable :: "'n serde \<Rightarrow> client \<Rightarrow> bool" for S where
  reachable_spawn: "spawn S spawned = (Inr c, left) \<Longrightarrow> reachable S c"
| reachable_step: "reachable S c \<Longrightarrow> bridge_step S c c' \<Longrightarrow> reachable S c'"

lemma forward_scan: "forward (scan S root options)"
proof -
  have "forward (\<lambda>c. case await_scan S i c of
         (result, c) \<Rightarrow>
           (case release_index S i c of
              (release, c) \<Rightarrow>
                (case result of
                   Inr result \<Rightarrow> rbind release (\<lambda>_. Inr result)
                 | Inl error \<Rightarrow> Inl error, c)))" for i
    unfolding forward_def
    by (auto split: prod.splits intro: later_trans await_scan.op_later release_index.op_later)
  then show ?thesis
    unfolding scan_def by (intro forward_sbind start_scan.forward)
qed

interpretation scan: bridge_operation "scan S root options" for S root options
  by unfold_locales (rule forward_scan)

lemma bridge_step_later: "bridge_step S c c' \<Longrightarrow> later c c'"
  by (induction rule: bridge_step.induct)
    (blast intro: ping.op_later start_scan.op_later index_status.op_later completed_directories.op_later
      fetch_directory.op_later summarize_directories.op_later await_scan.op_later release_index.op_later
      scan.op_later)+

lemma spawn_client:
  "spawn S spawned = (Inr c, left) \<Longrightarrow>
     \<exists>ch inp out out' startup. spawned = Inr (ch, Some inp, Some out) \<and> left = None
       \<and> read_typed_frame S (de_ready S) out = (Inr startup, out')
       \<and> ready_event startup = ''ready'' \<and> ready_protocol startup = PROTOCOL_VERSION
       \<and> c = \<lparr>client_child = Some ch, client_input = Some inp, client_output = out',
             next_request_id = 0, beam_pid = ready_pid startup, events = []\<rparr>"
  by (auto simp: spawn_def split: sum.splits prod.splits option.splits if_splits)

definition client_ok :: "client \<Rightarrow> bool" where
  "client_ok c \<longleftrightarrow> queue_ok (events c) \<and> client_child c \<noteq> None \<and> client_input c \<noteq> None"

lemma client_ok_later: "later c c' \<Longrightarrow> client_ok c \<Longrightarrow> client_ok c'"
  by (auto simp: client_ok_def later_def pipe_later_def child_later_def option_rel_Some1)

text \<open>
  C7. Every client that a program can reach by spawning and calling its methods, in whatever order
  and whatever the backend sends, still has its child and its input pipe and queues scan
  completions only; so a queued event never gives \<open>finished_event\<close> a protocol violation to report.
\<close>
theorem reachable_client_ok:
  assumes "reachable S c"
  shows "client_ok c \<and> (\<forall>ev \<in> set (events c). \<exists>i result error. ev = ScanFinished i result error)"
proof -
  from assms have "client_ok c"
  proof (induction rule: reachable.induct)
    case (reachable_spawn spawned c left)
    from spawn_client [OF this] show ?case by (auto simp: client_ok_def queue_ok_def)
  next
    case (reachable_step c c')
    then show ?case using bridge_step_later client_ok_later by blast
  qed
  moreover have "event_index_id ev \<noteq> None \<Longrightarrow> \<exists>i result error. ev = ScanFinished i result error" for ev
    by (cases ev) (auto simp: event_index_id_def)
  ultimately show ?thesis by (auto simp: client_ok_def queue_ok_def)
qed

text \<open>
  C8. Request ids are never reused: an id reserved after any number of method calls is larger than
  every id reserved before, up to the exhaustion of the counter, where reserving fails and the
  counter stays put instead of wrapping around.
\<close>
theorem request_ids_increase:
  assumes "reserve_request_id c = (Inr i, c1)" and "(bridge_step S)\<^sup>*\<^sup>* c1 c2"
  shows "(case reserve_request_id c2 of (Inr j, c3) \<Rightarrow> i < j | (Inl e, c3) \<Rightarrow> e = RequestIdExhausted \<and> c3 = c2)"
proof -
  have "later c1 c2"
    using assms(2) by (induction rule: rtranclp_induct) (auto intro: later_trans bridge_step_later)
  moreover from assms(1) have "i < next_request_id c1"
    by (auto simp: reserve_request_id_def Let_def word_less_nat_alt unat_word_ariths split: if_splits)
  ultimately have "i < next_request_id c2" by (auto simp: later_def intro: less_le_trans)
  then show ?thesis by (simp add: reserve_request_id_def Let_def)
qed

section \<open>One request over the pipes\<close>

definition client_sent :: "client \<Rightarrow> u8 list" where
  "client_sent c = (case client_input c of None \<Rightarrow> [] | Some w \<Rightarrow> sent w)"

definition json_frame :: "'n serde \<Rightarrow> 'n json \<Rightarrow> u8 list" where
  \<comment> \<open>the frame of a JSON value, as a peer using the same format sends it\<close>
  "json_frame S j = frame_bytes protocol_byte (wire_of (lib S) j)"

definition sendable :: "'n serde \<Rightarrow> 'n json \<Rightarrow> bool" where
  "sendable S j \<longleftrightarrow> json_fits (lib S) 0 j
     \<and> length (frame_payload (wire_of (lib S) j)) \<le> MAXIMUM_FRAME_BYTES"

lemma read_message_json:
  assumes L: "json_library (lib S)" and j: "sendable S j"
    and c: "incoming (client_output c) = json_frame S j @ rest"
  shows "read_message S c =
     (if json_get ''event'' j \<noteq> None then rbind (parse_event S j) (\<lambda>ev. Inr (Event ev))
      else rbind (map_err Serialization (de_response S j)) (\<lambda>r. Inr (Response r)),
      c\<lparr>client_output := (client_output c)\<lparr>incoming := rest\<rparr>\<rparr>)"
proof -
  have t: "travels (lib S) 0 j" using j L by (simp add: sendable_def json_fits_travels)
  have "read_frame protocol_byte (client_output c)
      = (decode_payload (frame_payload (wire_of (lib S) j)), (client_output c)\<lparr>incoming := rest\<rparr>)"
    using j c by (intro read_frame_bytes [OF _ refl]) (simp_all add: json_frame_def frame_bytes_def sendable_def)
  moreover have "decode_payload (frame_payload (wire_of (lib S) j)) = Inr (canon (wire_of (lib S) j))"
    using t j by (intro decode_payload_frame) (simp_all add: travels_def sendable_def)
  ultimately show ?thesis using t by (simp add: read_message_def travels_def)
qed

definition event_json :: "'n serde \<Rightarrow> 'n json \<Rightarrow> bridge_event \<Rightarrow> bool" where
  "event_json S j ev \<longleftrightarrow> sendable S j \<and> json_get ''event'' j \<noteq> None \<and> parse_event S j = Inr ev
     \<and> event_index_id ev \<noteq> None"

lemma delivers_frames:
  assumes L: "json_library (lib S)"
  shows "\<lbrakk>list_all2 (event_json S) js evs;
     incoming (client_output c) = concat (map (json_frame S) js) @ rest\<rbrakk> \<Longrightarrow>
     delivers S c evs (c\<lparr>client_output := (client_output c)\<lparr>incoming := rest\<rparr>\<rparr>)"
proof (induction js evs arbitrary: c rule: list_all2_induct)
  case Nil
  then have "c\<lparr>client_output := (client_output c)\<lparr>incoming := rest\<rparr>\<rparr> = c" by (cases c) auto
  then show ?case by (simp add: delivers_nil)
next
  case (Cons j js ev evs)
  let ?c = "c\<lparr>client_output := (client_output c)\<lparr>incoming := concat (map (json_frame S) js) @ rest\<rparr>\<rparr>"
  have "read_message S c = (Inr (Event ev), ?c)"
    using Cons.hyps(1) Cons.prems by (subst read_message_json [OF L, where j = j]) (auto simp: event_json_def)
  moreover have "register_event ev = Inr True"
    using Cons.hyps(1) by (simp add: event_json_def register_event_cases)
  moreover have "delivers S ?c evs (c\<lparr>client_output := (client_output c)\<lparr>incoming := rest\<rparr>\<rparr>)"
    using Cons.IH [of ?c] by simp
  ultimately show ?case by (rule delivers_event)
qed

lemma request_frames:
  assumes L: "json_library (lib S)"
    and "client_input c = Some w" "broken w = None"
    and "to_value S req = Inr reqj" "sendable S reqj"
    and "incoming (client_output c) = concat (map (json_frame S) js) @ json_frame S j @ rest"
    and "list_all2 (event_json S) js evs"
    and "sendable S j" "json_get ''event'' j = None" "de_response S j = Inr response"
    and "response_id response = Some i" "response_status response = ''ok''"
    and "response_result response = Some resultj" "de resultj = Inr result"
  shows "request S de req i c = (Inr result, c\<lparr>events := events c @ evs,
     client_input := Some (w\<lparr>sent := sent w @ json_frame S reqj\<rparr>),
     client_output := (client_output c)\<lparr>incoming := rest\<rparr>\<rparr>)"
proof -
  let ?v = "wire_of (lib S) reqj"
  let ?w = "w\<lparr>sent := sent w @ frame_bytes protocol_byte ?v\<rparr>"
  let ?c = "c\<lparr>client_input := Some ?w\<rparr>"
  let ?c1 = "?c\<lparr>client_output := (client_output c)\<lparr>incoming := json_frame S j @ rest\<rparr>\<rparr>"
  let ?c2 = "?c\<lparr>client_output := (client_output c)\<lparr>incoming := rest\<rparr>\<rparr>"
  have "from_json (lib S) reqj = Inr ?v"
    using assms(5) L by (auto simp: sendable_def travels_def dest: json_fits_travels)
  moreover have "write_wire_value ?v c = (Inr (), ?c)"
    using assms(2,3,5) by (simp add: write_wire_value_def write_frame_def sendable_def MAXIMUM_FRAME_BYTES_def)
  ultimately have "request S de req i c = await_response S de i ?c"
    using assms(4) by (simp add: request_def request_value_def sbind_def)
  moreover have "delivers S ?c evs ?c1"
    using delivers_frames [OF L assms(7), of ?c] assms(6) by simp
  then have "await_response S de i ?c = await_response S de i (with_events (events c @ evs) ?c1)"
    using await_response_delivers [of S ?c evs ?c1 de i "events c"] by (simp add: with_events_def)
  moreover have "read_message S ?c1 = (Inr (Response response), ?c2)"
    using assms(8-10) by (subst read_message_json [OF L, where j = j and rest = rest]) simp_all
  then have "await_response S de i (with_events (events c @ evs) ?c1)
      = (verdict de i (Inr (Response response)), with_events (events c @ evs) ?c2)"
    by (intro await_response_halts) (simp_all add: read_message_with_events halts_def)
  ultimately show ?thesis
    using assms(11-14) by (simp add: verdict_def response_result_of_def json_frame_def with_events_def)
qed

text \<open>
  C9. A request over the pipes: the request is written as the one frame of its JSON value; when the
  backend's bytes are any number of scan completions, then the response, the result is the decoded
  result of the response, the completions are queued in their order, and the bytes after the
  response are left for the next read.
\<close>
theorem request_over_pipes:
  assumes L: "json_library (lib S)"
    and "client_input c = Some w" "broken w = None"
    and "to_value S req = Inr reqj" "sendable S reqj"
    and "incoming (client_output c) = concat (map (json_frame S) js) @ json_frame S j @ rest"
    and "list_all2 (event_json S) js evs"
    and "sendable S j" "json_get ''event'' j = None" "de_response S j = Inr response"
    and "response_id response = Some i" "response_status response = ''ok''"
    and "response_result response = Some resultj" "de resultj = Inr result"
  shows "\<exists>c'. request S de req i c = (Inr result, c') \<and> events c' = events c @ evs
     \<and> client_sent c' = client_sent c @ json_frame S reqj \<and> incoming (client_output c') = rest
     \<and> next_request_id c' = next_request_id c"
  using request_frames [where de = de, OF assms] assms(2) by (simp add: client_sent_def)

section \<open>Release and scan\<close>

lemma write_wire_value_keeps:
  "write_wire_value v c = (r, c') \<Longrightarrow> events c' = events c \<and> client_output c' = client_output c"
  by (auto simp: write_wire_value_def split: option.splits prod.splits)

lemma request_cases:
  "(\<exists>e c'. request S de req i c = (Inl e, c') \<and> events c' = events c)
   \<or> (\<exists>c'. request S de req i c = await_response S de i c' \<and> events c' = events c
        \<and> client_output c' = client_output c)"
proof (cases "rbind (map_err Serialization (to_value S req))
    (\<lambda>j. map_err (\<lambda>e. Protocol (wire_message e)) (from_json (lib S) j))")
  case (Inl e)
  then show ?thesis by (simp add: request_def sbind_def)
next
  case (Inr v)
  obtain r c' where "write_wire_value v c = (r, c')" by force
  then show ?thesis
    using Inr write_wire_value_keeps [of v c r c']
    by (cases r) (auto simp: request_def request_value_def sbind_def)
qed

lemma request_events:
  "\<exists>c0 evs c1. client_output c0 = client_output c \<and> delivers S c0 evs c1
     \<and> events (snd (request S de req i c)) = events c @ evs"
  using request_cases [of S de req i c]
proof (elim disjE exE conjE)
  fix e c'
  assume "request S de req i c = (Inl e, c')" "events c' = events c"
  then show ?thesis using delivers_nil [of S c] by (intro exI [of _ c] exI [of _ "[]"]) simp
next
  fix c'
  assume c': "request S de req i c = await_response S de i c'" "events c' = events c"
    "client_output c' = client_output c"
  obtain evs c1 m c2 where "delivers S c' evs c1"
    "await_response S de i c' = (verdict de i m, with_events (events c' @ evs) c2)"
    using await_response_outcome_aux by blast
  with c' show ?thesis by (intro exI [of _ c'] exI [of _ evs] exI [of _ c1]) auto
qed

lemma release_index_success:
  "release_index S i c = (m, c') \<Longrightarrow> m = Inr () \<Longrightarrow> \<forall>ev \<in> set (events c'). \<not> for_index i ev"
  by (auto simp: release_index_def sbind_eq_Inr_iff for_index_def split: if_splits)

text \<open>
  C10. Releasing an index succeeds or fails without losing a completion of any other index: a
  success removes exactly the completions of the released index from the queue (those queued before
  and those that arrive while the response is awaited), a failure removes nothing.
\<close>
theorem release_index_queue:
  "\<exists>c0 evs c1. client_output c0 = client_output c \<and> delivers S c0 evs c1
     \<and> events (snd (release_index S i c)) =
         (if isl (fst (release_index S i c)) then events c @ evs
          else filter (\<lambda>ev. \<not> for_index i ev) (events c @ evs))"
proof -
  let ?queue = "\<lambda>(m :: client_error + unit) q. if isl m then q else filter (\<lambda>ev. \<not> for_index i ev) q"
  consider e where "release_index S i c = (Inl e, c)"
    | k c' where "reserve_request_id c = (Inr k, c')" "events c' = events c" "client_output c' = client_output c"
    by (cases "unat (next_request_id c) + 1 < 2 ^ 64")
      (auto simp: release_index_def sbind_def reserve_request_id_def Let_def)
  then show ?thesis
  proof cases
    case 1
    then show ?thesis using delivers_nil [of S c] by (intro exI [of _ c] exI [of _ "[]"]) simp
  next
    case (2 k c')
    obtain c0 evs c1 r c2 where d: "client_output c0 = client_output c'" "delivers S c0 evs c1"
      "request S (de_release S) (IndexRequest k ''release_index'' i) k c' = (r, c2)" "events c2 = events c' @ evs"
      using request_events by (metis prod.collapse)
    then have "events (snd (release_index S i c)) = ?queue (fst (release_index S i c)) (events c @ evs)"
      using 2 by (cases r) (simp_all add: release_index_def sbind_def for_index_def)
    then show ?thesis using d 2 by metis
  qed
qed

text \<open>
  C11. \<open>scan\<close> always tries to release the index it started, also when awaiting it failed; the error
  of awaiting takes precedence over the error of releasing, and a release that succeeds leaves no
  completion of the index in the queue.
\<close>
theorem scan_releases:
  "(\<exists>e. fst (start_scan S root options c) = Inl e \<and> scan S root options c = (Inl e, snd (start_scan S root options c)))
   \<or> (\<exists>index c1 awaited c2 release c3.
        start_scan S root options c = (Inr index, c1)
      \<and> await_scan S (handle_index_id index) c1 = (awaited, c2)
      \<and> release_index S (handle_index_id index) c2 = (release, c3)
      \<and> scan S root options c = (rbind awaited (\<lambda>result. rbind release (\<lambda>_. Inr result)), c3)
      \<and> (release = Inr () \<and> list_all (\<lambda>ev. \<not> for_index (handle_index_id index) ev) (events c3)
         \<or> (\<exists>e. release = Inl e)))"
proof (cases "start_scan S root options c")
  case (Pair m c1)
  show ?thesis
  proof (cases m)
    case (Inl e)
    then show ?thesis using Pair by (simp add: scan_def sbind_def)
  next
    case (Inr index)
    obtain awaited c2 where a: "await_scan S (handle_index_id index) c1 = (awaited, c2)" by force
    obtain release c3 where r: "release_index S (handle_index_id index) c2 = (release, c3)" by force
    have "scan S root options c = (rbind awaited (\<lambda>result. rbind release (\<lambda>_. Inr result)), c3)"
      using Pair Inr a r by (cases awaited) (simp_all add: scan_def sbind_def)
    moreover have "release = Inr () \<Longrightarrow> list_all (\<lambda>ev. \<not> for_index (handle_index_id index) ev) (events c3)"
      using release_index_success [OF r] by (simp add: list_all_iff)
    ultimately show ?thesis using Pair Inr a r by (cases release) auto
  qed
qed

end
