(* ===== verification/Client_Life.thy ===== *)
theory Client_Life
  imports Client_Props
begin

text \<open>
  The life cycle of the child process: the handshake of \<open>spawn\<close>, the exit of the backend as the
  client reports it, and \<open>shutdown\<close>. On every path the child is reaped: seen to have exited, or
  killed and waited for.
\<close>

lemma reaped_terminate [simp]: "reaped (terminate ch)"
  by (auto simp: terminate_def try_wait_def wait_def kill_def split: list.splits sum.splits option.splits)

lemma terminate_kills:
  "terminate ch = (case try_wait ch of (Inr (Some status), ch') \<Rightarrow> ch' | (_, ch') \<Rightarrow> ch'\<lparr>killed := True, reaped := True\<rparr>)"
  by (auto simp: terminate_def wait_def kill_def split: prod.splits sum.splits option.splits)

section \<open>The handshake\<close>


section \<open>The backend's exit\<close>

text \<open>
  C13. The client reports \<open>BackendExited\<close> exactly when the stream ended inside or between frames;
  the exit code is the one the child has been seen to exit with. A malformed frame, an undecodable
  payload or an unknown message is never taken for an exit.
\<close>
theorem backend_exited_iff:
  "(\<exists>code. fst (read_message S c) = Inl (BackendExited code))
     \<longleftrightarrow> ending (client_output c) = Eof \<and> truncated_frame protocol_byte (incoming (client_output c))"
proof -
  have no_exit: "parse_event S j \<noteq> Inl (BackendExited code)" for j code
    by (auto simp: parse_event_def rbind_eq_Inl_iff ok_or_def map_err_def split: option.splits sum.splits if_splits)
  have "(\<exists>code. fst (read_message S c) = Inl (BackendExited code))
      \<longleftrightarrow> fst (read_frame protocol_byte (client_output c)) = Inl (WireError ''unexpected end of bridge stream'')"
  proof (cases "read_frame protocol_byte (client_output c)")
    case (Pair m r)
    show ?thesis
    proof (cases m)
      case (Inl e)
      then show ?thesis
        using Pair by (cases e) (simp add: read_message_def Let_def split: prod.splits)
    next
      case (Inr v)
      then show ?thesis
        using Pair no_exit
        by (auto simp: read_message_def rbind_eq_Inl_iff map_err_def split: sum.splits if_splits)
    qed
  qed
  then show ?thesis by (simp only: read_frame_eof)
qed

section \<open>Shutdown\<close>

lemma shutdown_reaps_aux:
  assumes "client_child c \<noteq> None" and "shutdown S c = (res, c', awaited)"
  shows "client_input c' = None
    \<and> (\<exists>ch. reaped ch
        \<and> (client_child c' = Some ch \<and> awaited = None \<and> isl res
         \<or> client_child c' = None \<and> awaited = Some ch
             \<and> (res = Inr () \<longleftrightarrow> wait_answer ch = Inr (Exited 0))))"
proof -
  let ?req = "sbind reserve_request_id (\<lambda>i. request S (de_shutdown S) (ShutdownRequest i ''shutdown'') i)"
  have "forward ?req" by (intro forward_rules)
  obtain r c1 where r: "?req c = (r, c1)" by force
  then have "later c c1" using \<open>forward ?req\<close> by (rule forwardD [rotated])
  then obtain ch where ch: "client_child c1 = Some ch"
    using assms(1) by (auto simp: later_def child_later_def option_rel_Some1)
  show ?thesis
    using assms(2) r ch
    by (auto simp: shutdown_def drop_client_def wait_def status_success_def status_code_def Let_def
        split: sum.splits if_splits exit_status.splits)
qed


end
