(* ===== verification/Client_Demo.thy ===== *)
theory Client_Demo
  imports Client_Life
begin

text \<open>
  A concrete bridge: deserialisers for the messages that the witnesses exchange, a backend's bytes
  from the handshake on, and the witnesses of the client's properties that have hypotheses.
\<close>

section \<open>Concrete deserialisers\<close>

definition field :: "string \<Rightarrow> (demo_number json \<Rightarrow> 'a option) \<Rightarrow> demo_number json \<Rightarrow> string + 'a" where
  "field k f j = ok_or (Option.bind (json_get k j) f) (''missing field '' @ k)"

definition json_u64 :: "demo_number json \<Rightarrow> u64 option" where
  "json_u64 j = (case j of JNumber (Whole u) \<Rightarrow> Some u | _ \<Rightarrow> None)"

definition json_bool :: "demo_number json \<Rightarrow> bool option" where
  "json_bool j = (case j of JBool b \<Rightarrow> Some b | _ \<Rightarrow> None)"

definition demo_response :: "demo_number json \<Rightarrow> string + demo_number wire_response" where
  "demo_response j =
     rbind (field ''status'' json_as_str j) (\<lambda>status.
       Inr \<lparr>response_id = Option.bind (json_get ''id'' j) json_u64, response_status = status,
            response_result = json_get ''result'' j, response_error = None\<rparr>)"

fun demo_to_value :: "bridge_request \<Rightarrow> string + demo_number json" where
  "demo_to_value (IndexRequest i oper index) =
     Inr (JObject [(''id'', JNumber (Whole i)), (''index_id'', JNumber (Whole index)), (''op'', JString oper)])"
| "demo_to_value (StartScanRequest i oper root flds conc buf rank pol lim) =
     Inr (JObject [(''id'', JNumber (Whole i)), (''op'', JString oper), (''root'', JString root)])"
| "demo_to_value (PingRequest i oper) = Inr (JObject [(''id'', JNumber (Whole i)), (''op'', JString oper)])"
| "demo_to_value (ShutdownRequest i oper) = Inr (JObject [(''id'', JNumber (Whole i)), (''op'', JString oper)])"
| "demo_to_value _ = Inl ''not used''"

definition demo_serde :: "demo_number serde" where
  "demo_serde = \<lparr>
     lib = demo_lib,
     to_value = demo_to_value,
     de_ready = (\<lambda>j. rbind (field ''event'' json_as_str j) (\<lambda>e. rbind (field ''protocol'' json_u64 j) (\<lambda>p.
       rbind (field ''pid'' json_as_str j) (\<lambda>pid. Inr \<lparr>ready_event = e, ready_protocol = ucast p, ready_pid = pid\<rparr>)))),
     de_scan_finished = (\<lambda>j. rbind (field ''index_id'' json_u64 j) (\<lambda>i.
       Inr \<lparr>finished_index_id = i, finished_result = None, finished_error = Option.bind (json_get ''error'' j) json_as_str\<rparr>)),
     de_protocol_error = field ''message'' json_as_str,
     de_response = demo_response,
     de_ping = (\<lambda>j. rbind (field ''pid'' json_as_str j) (\<lambda>pid. rbind (field ''protocol'' json_u64 j) (\<lambda>p.
       Inr \<lparr>ping_pid = pid, ping_protocol = ucast p\<rparr>))),
     de_handle = (\<lambda>j. rbind (field ''index_id'' json_u64 j) (\<lambda>i. rbind (field ''root'' json_as_str j) (\<lambda>r.
       Inr \<lparr>handle_index_id = i, handle_root = r\<rparr>))),
     de_status = (\<lambda>_. Inl ''not used''),
     de_completion = (\<lambda>_. Inl ''not used''),
     de_directory = (\<lambda>_. Inl ''not used''),
     de_summaries = (\<lambda>_. Inl ''not used''),
     de_release = (\<lambda>j. rbind (field ''index_id'' json_u64 j) (\<lambda>i. rbind (field ''released'' json_bool j) (\<lambda>r.
       Inr \<lparr>release_index_id = i, released = r\<rparr>))),
     de_shutdown = field ''shutdown'' json_bool\<rparr>"

lemma demo_serde_lib: "json_library (lib demo_serde)"
  by (simp add: demo_serde_def demo_lib_ok)

section \<open>A backend's bytes\<close>

definition ready_json :: "demo_number json" where
  "ready_json = JObject [(''event'', JString ''ready''), (''pid'', JString ''42''), (''protocol'', JNumber (Whole 6))]"

definition finished_json :: "u64 \<Rightarrow> demo_number json" where
  "finished_json i = JObject [(''error'', JString ''cancelled''), (''event'', JString ''scan_finished''),
     (''index_id'', JNumber (Whole i))]"

definition ok_json :: "u64 \<Rightarrow> demo_number json \<Rightarrow> demo_number json" where
  "ok_json i j = JObject [(''id'', JNumber (Whole i)), (''result'', j), (''status'', JString ''ok'')]"

definition pong_json :: "demo_number json" where
  "pong_json = JObject [(''pid'', JString ''42''), (''protocol'', JNumber (Whole 6))]"

definition released_json :: "u64 \<Rightarrow> demo_number json" where
  "released_json i = JObject [(''index_id'', JNumber (Whole i)), (''released'', JBool True)]"

definition demo_child :: child where
  "demo_child = \<lparr>child_id = 4242, polls = [], wait_answer = Inr (Exited 0), killed = False, reaped = False\<rparr>"

definition demo_client :: "demo_number json list \<Rightarrow> client" where
  "demo_client js = \<lparr>client_child = Some demo_child, client_input = Some \<lparr>sent = [], broken = None\<rparr>,
     client_output = \<lparr>incoming = concat (map (json_frame demo_serde) js), ending = Eof\<rparr>,
     next_request_id = 0, beam_pid = ''42'', events = []\<rparr>"

definition demo_spawned :: "demo_number json list \<Rightarrow> io_error + (child \<times> writer option \<times> reader option)" where
  "demo_spawned js = Inr (demo_child, Some \<lparr>sent = [], broken = None\<rparr>,
     Some \<lparr>incoming = concat (map (json_frame demo_serde) (ready_json # js)), ending = Eof\<rparr>)"

definition demo_session :: "demo_number json list" where
  "demo_session = [finished_json 7, finished_json 8, ok_json 0 pong_json, finished_json 7, ok_json 1 (released_json 7)]"

lemma demo_spawn: "spawn demo_serde (demo_spawned demo_session) = (Inr (demo_client demo_session), None)"
  by code_simp

definition demo_pinged :: client where
  "demo_pinged = snd (ping demo_serde (demo_client demo_session))"

lemma demo_messages:
  "list_all2 (event_json demo_serde) [finished_json 7, finished_json 8]
     [ScanFinished 7 None (Some ''cancelled''), ScanFinished 8 None (Some ''cancelled'')]"
  "sendable demo_serde (ok_json 0 pong_json)" "json_get ''event'' (ok_json 0 pong_json) = None"
  "de_response demo_serde (ok_json 0 pong_json) = Inr \<lparr>response_id = Some 0, response_status = ''ok'',
     response_result = Some pong_json, response_error = None\<rparr>"
  "de_ping demo_serde pong_json = Inr \<lparr>ping_pid = ''42'', ping_protocol = 6\<rparr>"
  by code_simp+

definition demo_request_json :: "u64 \<Rightarrow> string \<Rightarrow> demo_number json" where
  "demo_request_json i oper = JObject [(''id'', JNumber (Whole i)), (''op'', JString oper)]"

lemma demo_requests: "sendable demo_serde (demo_request_json 0 ''ping'')"
  "to_value demo_serde (PingRequest 0 ''ping'') = Inr (demo_request_json 0 ''ping'')"
  by code_simp+

lemma demo_ping:
  assumes "incoming (client_output c) = concat (map (json_frame demo_serde) [finished_json 7, finished_json 8])
      @ json_frame demo_serde (ok_json 0 pong_json) @ rest"
    and "client_input c = Some w" "broken w = None"
  shows "request demo_serde (de_ping demo_serde) (PingRequest 0 ''ping'') 0 c
    = (Inr \<lparr>ping_pid = ''42'', ping_protocol = 6\<rparr>, c\<lparr>
        events := events c @ [ScanFinished 7 None (Some ''cancelled''), ScanFinished 8 None (Some ''cancelled'')],
        client_input := Some (w\<lparr>sent := sent w @ json_frame demo_serde (demo_request_json 0 ''ping'')\<rparr>),
        client_output := (client_output c)\<lparr>incoming := rest\<rparr>\<rparr>)"
  by (rule request_frames [where de = "de_ping demo_serde" and resultj = pong_json, OF demo_serde_lib assms(2,3) demo_requests(2,1) assms(1) demo_messages(1-4) _ _ _ demo_messages(5)])
    simp_all

lemma demo_run:
  "ping demo_serde (demo_client demo_session) = (Inr ''42'', demo_pinged)"
  "events demo_pinged = [ScanFinished 7 None (Some ''cancelled''), ScanFinished 8 None (Some ''cancelled'')]"
proof -
  let ?c = "(demo_client demo_session)\<lparr>next_request_id := 1\<rparr>"
  note 1 = demo_ping [of ?c "concat (map (json_frame demo_serde) [finished_json 7, ok_json 1 (released_json 7)])"
      "\<lparr>sent = [], broken = None\<rparr>"]
  have "reserve_request_id (demo_client demo_session) = (Inr 0, ?c)"
    by (simp add: reserve_request_id_def demo_client_def)
  then have "ping demo_serde (demo_client demo_session) = (Inr ''42'', snd (request demo_serde (de_ping demo_serde) (PingRequest 0 ''ping'') 0 ?c))"
    using 1 by (simp add: ping_def sbind_def demo_client_def demo_session_def PROTOCOL_VERSION_def)
  then show "ping demo_serde (demo_client demo_session) = (Inr ''42'', demo_pinged)"
    "events demo_pinged = [ScanFinished 7 None (Some ''cancelled''), ScanFinished 8 None (Some ''cancelled'')]"
    using 1 by (simp_all add: demo_pinged_def demo_client_def demo_session_def)
qed

lemma demo_step: "bridge_step demo_serde (demo_client demo_session) demo_pinged"
  by (rule step_ping [OF demo_run(1)])

section \<open>Witnesses\<close>

theorem reachable_client_ok_witness:
  "client_ok demo_pinged \<and> length (events demo_pinged) = 2
   \<and> (\<exists>i result error. hd (events demo_pinged) = ScanFinished i result error)"
proof -
  have "reachable demo_serde demo_pinged"
    by (rule reachable_step [OF reachable_spawn [OF demo_spawn] demo_step])
  from reachable_client_ok [OF this] demo_run(2) show ?thesis by simp
qed

definition demo_silent :: client where
  "demo_silent = (demo_client [])\<lparr>next_request_id := 5\<rparr>"

theorem request_ids_increase_witness:
  "(5 :: u64) < next_request_id (snd (ping demo_serde (demo_silent\<lparr>next_request_id := 6\<rparr>)))"
proof -
  let ?c1 = "demo_silent\<lparr>next_request_id := 6\<rparr>"
  let ?c2 = "snd (ping demo_serde ?c1)"
  have "reserve_request_id demo_silent = (Inr 5, ?c1)"
    by (simp add: reserve_request_id_def demo_silent_def)
  moreover have "(bridge_step demo_serde)\<^sup>*\<^sup>* ?c1 ?c2"
    by (intro r_into_rtranclp step_ping) (rule surjective_pairing)
  ultimately have "case reserve_request_id ?c2 of (Inr j, c3) \<Rightarrow> 5 < j | (Inl e, c3) \<Rightarrow> e = RequestIdExhausted \<and> c3 = ?c2"
    by (rule request_ids_increase)
  moreover have "fst (reserve_request_id ?c2) = Inr (next_request_id ?c2)" by code_simp
  ultimately show ?thesis by (auto simp: reserve_request_id_def Let_def split: if_splits)
qed

theorem request_over_pipes_witness:
  "\<exists>c'. request demo_serde (de_ping demo_serde) (PingRequest 0 ''ping'') 0 (demo_client demo_session)
        = (Inr \<lparr>ping_pid = ''42'', ping_protocol = 6\<rparr>, c')
     \<and> length (events c') = 2"
proof -
  let ?c = "demo_client demo_session"
  let ?rest = "concat (map (json_frame demo_serde) [finished_json 7, ok_json 1 (released_json 7)])"
  have "client_input ?c = Some \<lparr>sent = [], broken = None\<rparr>" by (simp add: demo_client_def)
  moreover have "incoming (client_output ?c) = concat (map (json_frame demo_serde) [finished_json 7, finished_json 8])
      @ json_frame demo_serde (ok_json 0 pong_json) @ ?rest"
    by (simp add: demo_client_def demo_session_def)
  ultimately show ?thesis
    using request_over_pipes [where de = "de_ping demo_serde" and resultj = pong_json and c = ?c and rest = ?rest
        and w = "\<lparr>sent = [], broken = None\<rparr>" and i = 0,
        OF demo_serde_lib _ _ demo_requests(2,1) _ demo_messages(1-4) _ _ _ demo_messages(5)]
    by (auto simp: demo_client_def)
qed

definition demo_goodbye :: "demo_number json list" where
  "demo_goodbye = [ok_json 0 (JObject [(''shutdown'', JBool True)])]"


end
