(* ===== verification/Backend_Types.thy ===== *)
theory Backend_Types
  imports Types
begin

text \<open>
  The data the desktop worker hands to the view model (\<open>desktop/src/backend.rs\<close>): directory
  summaries, the log2 size histogram and the events of the channel. An \<open>f64\<close> is its bit pattern, a
  \<open>Duration\<close> its number of nanoseconds.
\<close>

definition SIZE_FIELD :: string where "SIZE_FIELD = ''allocated_size''"
definition DEFAULT_RANKING :: ranking where "DEFAULT_RANKING = Macos"
definition COMPLETION_BATCH_SIZE :: u32 where "COMPLETION_BATCH_SIZE = 4096"
definition EVENT_CHANNEL_CAPACITY :: nat where "EVENT_CHANNEL_CAPACITY = 4"
definition LARGEST_PER_DIRECTORY :: u32 where "LARGEST_PER_DIRECTORY = 8"
definition HISTOGRAM_BUCKETS :: nat where "HISTOGRAM_BUCKETS = 44"

record backend_options =
  project_root :: "u8 list"
  bo_root :: "u8 list"
  bo_fields :: "string list"
  bo_concurrency :: "u32 option"
  poll_interval :: nat
  progress_interval :: nat
  bo_mount_policy :: mount_policy

record largest_file =
  file_name :: string
  file_size :: u64

record directory_summary =
  dir_id :: u32
  dir_parent_id :: "u32 option"
  dir_name :: string
  dir_state :: directory_state
  dir_entries :: u64
  dir_children :: u64
  dir_error :: string
  dir_allocated_bytes :: u64
  dir_largest_files :: "largest_file list"

record size_histogram =
  hist_counts :: "u64 list"
  hist_bytes :: "u64 list"

definition default_histogram :: size_histogram where
  "default_histogram = \<lparr>hist_counts = replicate HISTOGRAM_BUCKETS 0, hist_bytes = replicate HISTOGRAM_BUCKETS 0\<rparr>"

datatype backend_event =
    Started string "u32 option" mount_policy
  | Update index_status_record f64_bits u64 "directory_summary list" size_histogram
      \<comment> \<open>status, elapsed milliseconds, allocated bytes, directories, histogram\<close>
  | FinishedEvent scan_result u64
  | ErrorEvent string

section \<open>The size histogram\<close>

definition bucket_index :: "u64 \<Rightarrow> nat" where
  "bucket_index bucket = min (unat bucket) (HISTOGRAM_BUCKETS - 1)"

fun merge :: "(u64 \<times> u64 \<times> u64) list \<Rightarrow> size_histogram \<Rightarrow> size_histogram" where
  "merge [] h = h"
| "merge ((bucket, count, bytes) # rest) h =
     (let b = bucket_index bucket in
      merge rest (h\<lparr>hist_counts := (hist_counts h)[b := sat_add (hist_counts h ! b) count],
                    hist_bytes := (hist_bytes h)[b := sat_add (hist_bytes h ! b) bytes]\<rparr>))"

definition bucket_floor :: "nat \<Rightarrow> u64" where
  "bucket_floor bucket = (if bucket = 0 then 0 else push_bit (bucket - 1) 1)"

text \<open>Both arrays have a fixed length, and a clamped index is in range.\<close>

definition hist_ok :: "size_histogram \<Rightarrow> bool" where
  "hist_ok h \<longleftrightarrow> length (hist_counts h) = HISTOGRAM_BUCKETS \<and> length (hist_bytes h) = HISTOGRAM_BUCKETS"

lemma hist_ok_default [simp]: "hist_ok default_histogram"
  by (simp add: hist_ok_def default_histogram_def)

lemma bucket_index_less [simp]: "bucket_index b < HISTOGRAM_BUCKETS"
  by (simp add: bucket_index_def HISTOGRAM_BUCKETS_def)

lemma hist_ok_merge: "hist_ok h \<Longrightarrow> hist_ok (merge cs h)"
  by (induction cs h rule: merge.induct) (simp_all add: hist_ok_def Let_def)

definition bucket_total :: "((u64 \<times> u64 \<times> u64) \<Rightarrow> u64) \<Rightarrow> nat \<Rightarrow> (u64 \<times> u64 \<times> u64) list \<Rightarrow> nat" where
  "bucket_total f b cs = (\<Sum>c \<leftarrow> cs. if bucket_index (fst c) = b then unat (f c) else 0)"

lemma min_add_assoc: "min (min (a + b) m + c) m = min (a + (b + c)) (m :: nat)"
  by (simp add: min_def)

lemma merge_counts:
  "\<lbrakk>hist_ok h; b < HISTOGRAM_BUCKETS\<rbrakk> \<Longrightarrow>
     unat (hist_counts (merge cs h) ! b) = min (unat (hist_counts h ! b) + bucket_total (fst \<circ> snd) b cs) (2 ^ 64 - 1)
   \<and> unat (hist_bytes (merge cs h) ! b) = min (unat (hist_bytes h ! b) + bucket_total (snd \<circ> snd) b cs) (2 ^ 64 - 1)"
proof (induction cs h rule: merge.induct)
  case (1 h)
  have "min (unat (x :: u64)) 18446744073709551615 = unat x" for x
    using unat_u64_less [of x] by linarith
  then show ?case by (simp add: bucket_total_def)
next
  case (2 bucket count bytes rest h)
  let ?b = "bucket_index bucket"
  let ?h = "h\<lparr>hist_counts := (hist_counts h)[?b := sat_add (hist_counts h ! ?b) count],
              hist_bytes := (hist_bytes h)[?b := sat_add (hist_bytes h ! ?b) bytes]\<rparr>"
  have "hist_ok ?h" using 2 by (simp add: hist_ok_def)
  note IH = 2(1) [OF refl this \<open>b < HISTOGRAM_BUCKETS\<close>]
  show ?case
    using IH 2(2,3)
    by (cases "?b = b") (simp_all add: Let_def bucket_total_def hist_ok_def unat_sat_add min_add_assoc)
qed

end
