(* ===== verification/Size_Tree.thy ===== *)
theory Size_Tree
  imports Backend_Types
begin

text \<open>
  The size tree of \<open>desktop/src/app.rs\<close>: a vector of nodes indexed by directory id, each with its
  parent, its children and the bytes of its subtree, and the list of directories whose children
  have to be sorted again. Indexing past the end of the vector panics in the code: the operations
  return an option, and \<open>None\<close> is the panic.
\<close>

definition NO_PARENT :: u32 where "NO_PARENT = - 1"
definition MAX_DEPTH :: nat where "MAX_DEPTH = 512"

record size_node =
  node_parent :: u32
  node_subtree_bytes :: u64
  node_own_bytes :: u64
  node_own_entries :: u64
  node_name :: string
  node_children :: "u32 list"
  node_dirty :: bool

record size_tree =
  nodes :: "size_node list"
  dirty_children :: "u32 list"

definition fresh_node :: size_node where
  "fresh_node = \<lparr>node_parent = NO_PARENT, node_subtree_bytes = 0, node_own_bytes = 0, node_own_entries = 0,
     node_name = [], node_children = [], node_dirty = False\<rparr>"

definition empty_tree :: size_tree where
  "empty_tree = \<lparr>nodes = [], dirty_children = []\<rparr>"

definition node :: "size_tree \<Rightarrow> u32 \<Rightarrow> size_node option" where
  "node t i = (if unat i < length (nodes t) then Some (nodes t ! unat i) else None)"

definition modify :: "u32 \<Rightarrow> (size_node \<Rightarrow> size_node) \<Rightarrow> size_tree \<Rightarrow> size_tree option" where
  \<comment> \<open>an assignment through \<open>self.nodes[id as usize]\<close>\<close>
  "modify i f t = (if unat i < length (nodes t)
     then Some (t\<lparr>nodes := (nodes t)[unat i := f (nodes t ! unat i)]\<rparr>) else None)"

definition ensure :: "u32 \<Rightarrow> size_tree \<Rightarrow> size_tree" where
  "ensure i t =
     (let required = unat i + 1 in
      if length (nodes t) < required
      then t\<lparr>nodes := nodes t @ replicate (required - length (nodes t)) fresh_node\<rparr> else t)"

definition mark_children_dirty :: "u32 \<Rightarrow> size_tree \<Rightarrow> size_tree option" where
  "mark_children_dirty i t =
     Option.bind (node t i) (\<lambda>nd.
       if \<not> node_dirty nd
       then map_option (\<lambda>t. t\<lparr>dirty_children := dirty_children t @ [i]\<rparr>)
              (modify i (\<lambda>nd. nd\<lparr>node_dirty := True\<rparr>) t)
       else Some t)"

definition link :: "u32 \<Rightarrow> u32 \<Rightarrow> size_tree \<Rightarrow> size_tree option" where
  "link i parent t =
     (let t = ensure parent (ensure i t) in
      Option.bind (node t i) (\<lambda>nd.
        if node_parent nd = NO_PARENT \<and> i \<noteq> parent then
          Option.bind (modify i (\<lambda>nd. nd\<lparr>node_parent := parent\<rparr>) t) (\<lambda>t.
          Option.bind (modify parent (\<lambda>nd. nd\<lparr>node_children := node_children nd @ [i]\<rparr>) t) (\<lambda>t.
          mark_children_dirty parent t))
        else Some t))"

fun add_up :: "nat \<Rightarrow> u32 \<Rightarrow> u64 \<Rightarrow> size_tree \<Rightarrow> size_tree option" where
  \<comment> \<open>the \<open>for _ in 0..MAX_DEPTH\<close> loop of \<open>add_bytes\<close>, with the iterations left\<close>
  "add_up 0 current bytes t = Some t"
| "add_up (Suc n) current bytes t =
     Option.bind (modify current (\<lambda>nd. nd\<lparr>node_subtree_bytes := sat_add (node_subtree_bytes nd) bytes\<rparr>) t) (\<lambda>t.
     Option.bind (node t current) (\<lambda>nd.
       if node_parent nd = NO_PARENT then Some t
       else Option.bind (mark_children_dirty (node_parent nd) t) (add_up n (node_parent nd) bytes)))"

definition add_bytes :: "u32 \<Rightarrow> u64 \<Rightarrow> size_tree \<Rightarrow> size_tree option" where
  "add_bytes i bytes t = add_up MAX_DEPTH i bytes (ensure i t)"

definition subtree_bytes :: "size_tree \<Rightarrow> u32 \<Rightarrow> u64" where
  "subtree_bytes t i = (case node t i of None \<Rightarrow> 0 | Some nd \<Rightarrow> node_subtree_bytes nd)"

definition sort_children :: "size_tree \<Rightarrow> u32 list \<Rightarrow> u32 list option" where
  \<comment> \<open>the stable \<open>sort_by_key\<close> with \<open>Reverse\<close>; a key is only read when there are two children\<close>
  "sort_children t children =
     (if length children < 2 \<or> list_all (\<lambda>c. unat c < length (nodes t)) children
      then Some (sort_key (\<lambda>c. - int (unat (subtree_bytes t c))) children) else None)"

fun sort_batch :: "u32 list \<Rightarrow> size_tree \<Rightarrow> size_tree option" where
  \<comment> \<open>the loop of \<open>finish_batch\<close>\<close>
  "sort_batch [] t = Some t"
| "sort_batch (parent # rest) t =
     Option.bind (modify parent (\<lambda>nd. nd\<lparr>node_dirty := False\<rparr>) t) (\<lambda>t.
     Option.bind (node t parent) (\<lambda>nd.
     Option.bind (sort_children t (node_children nd)) (\<lambda>children.
     Option.bind (modify parent (\<lambda>nd. nd\<lparr>node_children := children\<rparr>) t) (sort_batch rest))))"

definition finish_batch :: "size_tree \<Rightarrow> size_tree option" where
  "finish_batch t = sort_batch (dirty_children t) (t\<lparr>dirty_children := []\<rparr>)"

definition set_name :: "u32 \<Rightarrow> string \<Rightarrow> size_tree \<Rightarrow> size_tree option" where
  "set_name i name t =
     (if name = [] then Some t else modify i (\<lambda>nd. nd\<lparr>node_name := name\<rparr>) (ensure i t))"

definition tree_name :: "size_tree \<Rightarrow> u32 \<Rightarrow> string option" where
  "tree_name t i = (case node t i of None \<Rightarrow> None | Some nd \<Rightarrow> if node_name nd = [] then None else Some (node_name nd))"

definition set_own :: "u32 \<Rightarrow> u64 \<Rightarrow> u64 \<Rightarrow> size_tree \<Rightarrow> size_tree option" where
  "set_own i bytes count t =
     modify i (\<lambda>nd. nd\<lparr>node_own_bytes := bytes, node_own_entries := count\<rparr>) (ensure i t)"

definition own_bytes :: "size_tree \<Rightarrow> u32 \<Rightarrow> u64" where
  "own_bytes t i = (case node t i of None \<Rightarrow> 0 | Some nd \<Rightarrow> node_own_bytes nd)"

definition own_entries :: "size_tree \<Rightarrow> u32 \<Rightarrow> u64" where
  "own_entries t i = (case node t i of None \<Rightarrow> 0 | Some nd \<Rightarrow> node_own_entries nd)"

definition children :: "size_tree \<Rightarrow> u32 \<Rightarrow> u32 list" where
  "children t i = (case node t i of None \<Rightarrow> [] | Some nd \<Rightarrow> node_children nd)"

definition parent :: "size_tree \<Rightarrow> u32 \<Rightarrow> u32 option" where
  "parent t i = (case node t i of None \<Rightarrow> None
     | Some nd \<Rightarrow> if node_parent nd = NO_PARENT then None else Some (node_parent nd))"

section \<open>Reading the tree after an operation\<close>

text \<open>
  The vector is seen through four views: its length, and the parent, children, bytes and dirty
  flag of an id, with the values of a fresh node past its end. The lemmas give the views after each
  primitive; the operations are then reasoned about through the views only.
\<close>

definition dirty :: "size_tree \<Rightarrow> u32 \<Rightarrow> bool" where
  "dirty t i = (case node t i of None \<Rightarrow> False | Some nd \<Rightarrow> node_dirty nd)"

definition present :: "size_tree \<Rightarrow> u32 \<Rightarrow> bool" where
  "present t i \<longleftrightarrow> unat i < length (nodes t)"

named_theorems views \<open>the views of a tree after an operation\<close>

lemma node_absent: "\<not> present t i \<Longrightarrow> node t i = None"
  by (simp add: node_def present_def)

lemma node_present: "present t i \<Longrightarrow> \<exists>nd. node t i = Some nd"
  by (simp add: node_def present_def)

lemma node_ensure: "node (ensure i t) j =
    (if present t j then node t j else if unat j \<le> unat i then Some fresh_node else None)"
  by (auto simp: node_def ensure_def present_def Let_def nth_append)

lemma present_ensure [views]: "present (ensure i t) j \<longleftrightarrow> present t j \<or> unat j \<le> unat i"
  by (auto simp: present_def ensure_def Let_def)

lemma ensure_views [views]:
  "subtree_bytes (ensure i t) j = subtree_bytes t j"
  "children (ensure i t) j = children t j"
  "parent (ensure i t) j = parent t j"
  "dirty (ensure i t) j = dirty t j"
  by (cases "present t j"; simp add: subtree_bytes_def children_def parent_def dirty_def node_ensure
      node_absent fresh_node_def)+

lemma dirty_children_ensure [views]: "dirty_children (ensure i t) = dirty_children t"
  by (simp add: ensure_def Let_def)

lemma modify_Some: "present t i \<Longrightarrow> \<exists>t'. modify i f t = Some t'"
  by (simp add: modify_def present_def)

lemma node_modify:
  "modify i f t = Some t' \<Longrightarrow> node t' j = (if j = i then map_option f (node t i) else node t j)"
  by (auto simp: modify_def node_def nth_list_update word_unat_eq_iff split: if_splits)

lemma modify_views:
  assumes "modify i f t = Some t'"
  shows "present t' j \<longleftrightarrow> present t j" and "dirty_children t' = dirty_children t"
    and "(\<And>nd. node_subtree_bytes (f nd) = node_subtree_bytes nd) \<Longrightarrow> subtree_bytes t' j = subtree_bytes t j"
    and "(\<And>nd. node_children (f nd) = node_children nd) \<Longrightarrow> children t' j = children t j"
    and "(\<And>nd. node_parent (f nd) = node_parent nd) \<Longrightarrow> parent t' j = parent t j"
    and "(\<And>nd. node_dirty (f nd) = node_dirty nd) \<Longrightarrow> dirty t' j = dirty t j"
  using assms node_modify [OF assms, of j]
  by (auto simp: modify_def present_def subtree_bytes_def children_def parent_def dirty_def
      split: if_splits option.splits)

lemma modify_at:
  assumes "modify i f t = Some t'"
  obtains nd where "node t i = Some nd" "node t' i = Some (f nd)"
proof -
  from assms have "present t i" by (auto simp: modify_def present_def split: if_splits)
  then obtain nd where "node t i = Some nd" using node_present by blast
  then show ?thesis using that node_modify [OF assms, of i] by simp
qed

lemma modify_subtree_bytes:
  assumes "modify i (\<lambda>nd. nd\<lparr>node_subtree_bytes := g (node_subtree_bytes nd)\<rparr>) t = Some t'"
  shows "subtree_bytes t' j = (if j = i then g (subtree_bytes t i) else subtree_bytes t j)"
    and "parent t' j = parent t j" "children t' j = children t j" "dirty t' j = dirty t j"
  using node_modify [OF assms, of j] modify_views(1,3-6) [OF assms, where j = j]
  by (rule_tac modify_at [OF assms]; simp add: subtree_bytes_def)+

lemma modify_parent:
  assumes "modify i (\<lambda>nd. nd\<lparr>node_parent := p\<rparr>) t = Some t'"
  shows "parent t' j = (if j = i then if p = NO_PARENT then None else Some p else parent t j)"
    and "subtree_bytes t' j = subtree_bytes t j" "children t' j = children t j" "dirty t' j = dirty t j"
  using node_modify [OF assms, of j] modify_views(1,3-6) [OF assms, where j = j]
  by (rule_tac modify_at [OF assms]; simp add: parent_def)+

lemma modify_children:
  assumes "modify i (\<lambda>nd. nd\<lparr>node_children := g (node_children nd)\<rparr>) t = Some t'"
  shows "children t' j = (if j = i then g (children t i) else children t j)"
    and "subtree_bytes t' j = subtree_bytes t j" "parent t' j = parent t j" "dirty t' j = dirty t j"
  using node_modify [OF assms, of j] modify_views(1,3-6) [OF assms, where j = j]
  by (rule_tac modify_at [OF assms]; simp add: children_def)+

lemma modify_dirty:
  assumes "modify i (\<lambda>nd. nd\<lparr>node_dirty := b\<rparr>) t = Some t'"
  shows "dirty t' j = (if j = i then b else dirty t j)"
    and "subtree_bytes t' j = subtree_bytes t j" "parent t' j = parent t j" "children t' j = children t j"
  using node_modify [OF assms, of j] modify_views(1,3-6) [OF assms, where j = j]
  by (rule_tac modify_at [OF assms]; simp add: dirty_def)+

lemma node_parent_view: "node t i = Some nd \<Longrightarrow> parent t i = (if node_parent nd = NO_PARENT then None else Some (node_parent nd))"
  by (simp add: parent_def)

section \<open>The operations through the views\<close>

definition same_shape :: "size_tree \<Rightarrow> size_tree \<Rightarrow> bool" where
  "same_shape t t' \<longleftrightarrow> (\<forall>j. parent t' j = parent t j \<and> children t' j = children t j)"

definition dirt_ok :: "size_tree \<Rightarrow> bool" where
  "dirt_ok t \<longleftrightarrow> distinct (dirty_children t) \<and> set (dirty_children t) = {j. dirty t j}"

lemma mark_children_dirty_view:
  assumes "present t p"
  shows "\<exists>t'. mark_children_dirty p t = Some t' \<and> same_shape t t' \<and> (\<forall>j. present t' j = present t j)
    \<and> (\<forall>j. subtree_bytes t' j = subtree_bytes t j) \<and> (\<forall>j. dirty t' j \<longleftrightarrow> dirty t j \<or> j = p)
    \<and> (dirt_ok t \<longrightarrow> dirt_ok t')"
proof -
  obtain nd where nd: "node t p = Some nd" using node_present [OF assms] by blast
  show ?thesis
  proof (cases "node_dirty nd")
    case True
    then have "dirty t p" using nd by (simp add: dirty_def)
    then show ?thesis using True nd by (auto simp: mark_children_dirty_def same_shape_def)
  next
    case False
    then have "\<not> dirty t p" using nd by (simp add: dirty_def)
    obtain t1 where t1: "modify p (\<lambda>nd. nd\<lparr>node_dirty := True\<rparr>) t = Some t1"
      by (rule exE [OF modify_Some [OF assms]])
    let ?t = "t1\<lparr>dirty_children := dirty_children t1 @ [p]\<rparr>"
    have v: "present ?t j = present t1 j" "subtree_bytes ?t j = subtree_bytes t1 j" "parent ?t j = parent t1 j"
      "children ?t j = children t1 j" "dirty ?t j = dirty t1 j" for j
      by (simp_all add: present_def subtree_bytes_def parent_def children_def dirty_def node_def)
    have d: "dirty ?t j \<longleftrightarrow> dirty t j \<or> j = p" for j
      using v(5) modify_dirty [OF t1] by simp
    have "mark_children_dirty p t = Some ?t" using nd False t1 by (simp add: mark_children_dirty_def)
    moreover have "dirt_ok ?t" if "dirt_ok t"
    proof -
      have "dirty_children ?t = dirty_children t @ [p]" by (simp add: modify_views(2) [OF t1])
      moreover have "{j. dirty ?t j} = insert p {j. dirty t j}" using d by blast
      ultimately show ?thesis using that \<open>\<not> dirty t p\<close> by (simp add: dirt_ok_def)
    qed
    ultimately show ?thesis
      using d by (simp add: same_shape_def v modify_dirty(2-4) [OF t1] modify_views(1) [OF t1])
  qed
qed

lemma link_view:
  assumes "p \<noteq> NO_PARENT"
  shows "\<exists>t'. link i p t = Some t' \<and> (\<forall>j. present t' j \<longleftrightarrow> present t j \<or> unat j \<le> unat i \<or> unat j \<le> unat p)
    \<and> (\<forall>j. subtree_bytes t' j = subtree_bytes t j)
    \<and> (if parent t i = None \<and> i \<noteq> p
       then (\<forall>j. parent t' j = (if j = i then Some p else parent t j))
          \<and> (\<forall>j. children t' j = (if j = p then children t p @ [i] else children t j))
          \<and> (\<forall>j. dirty t' j \<longleftrightarrow> dirty t j \<or> j = p)
       else same_shape t t' \<and> (\<forall>j. dirty t' j = dirty t j))
    \<and> (dirt_ok t \<longrightarrow> dirt_ok t')"
proof -
  let ?t = "ensure p (ensure i t)"
  have pr: "present ?t i" "present ?t p" by (simp_all add: views)
  obtain nd where nd: "node ?t i = Some nd" using node_present [OF pr(1)] by blast
  have par: "parent t i = (if node_parent nd = NO_PARENT then None else Some (node_parent nd))"
    using node_parent_view [OF nd] by (simp add: views)
  have dk: "dirt_ok ?t \<longleftrightarrow> dirt_ok t" by (simp add: dirt_ok_def views)
  show ?thesis
  proof (cases "parent t i = None \<and> i \<noteq> p")
    case True
    obtain t1 where t1: "modify i (\<lambda>nd. nd\<lparr>node_parent := p\<rparr>) ?t = Some t1"
      by (rule exE [OF modify_Some [OF pr(1)]])
    have "present t1 p" using modify_views(1) [OF t1] pr by simp
    then obtain t2 where t2: "modify p (\<lambda>nd. nd\<lparr>node_children := node_children nd @ [i]\<rparr>) t1 = Some t2"
      by (rule exE [OF modify_Some])
    have "present t2 p" using modify_views(1) [OF t2] \<open>present t1 p\<close> by simp
    from mark_children_dirty_view [OF this] obtain t3 where t3: "mark_children_dirty p t2 = Some t3"
      "same_shape t2 t3" "\<And>j. present t3 j = present t2 j" "\<And>j. subtree_bytes t3 j = subtree_bytes t2 j"
      "\<And>j. dirty t3 j \<longleftrightarrow> dirty t2 j \<or> j = p" "dirt_ok t2 \<longrightarrow> dirt_ok t3"
      by blast
    note m1 = modify_parent [OF t1] modify_views(1,2) [OF t1] and m2 = modify_children [OF t2] modify_views(1,2) [OF t2]
    have "node_parent nd = NO_PARENT" using True par by (auto split: if_splits)
    then have "link i p t = Some t3"
      using True nd t1 t2 t3(1) by (simp add: link_def Let_def)
    moreover have "parent t3 j = (if j = i then Some p else parent t j)" for j
      using t3(2) assms by (simp add: same_shape_def m1 m2 views)
    moreover have "children t3 j = (if j = p then children t p @ [i] else children t j)" for j
      using t3(2) by (simp add: same_shape_def m1 m2 views)
    moreover have "dirty t3 j \<longleftrightarrow> dirty t j \<or> j = p" for j
      by (simp add: t3(5) m1 m2 views)
    moreover have "subtree_bytes t3 j = subtree_bytes t j" for j
      by (simp add: t3(4) m1 m2 views)
    moreover have "present t3 j \<longleftrightarrow> present t j \<or> unat j \<le> unat i \<or> unat j \<le> unat p" for j
      by (auto simp: t3(3) m1 m2 views)
    moreover have "dirt_ok t \<longrightarrow> dirt_ok t3"
      using t3(6) dk by (simp add: dirt_ok_def m1 m2)
    ultimately show ?thesis using True by simp
  next
    case False
    then have "link i p t = Some ?t" using nd par by (auto simp: link_def Let_def split: if_splits)
    then show ?thesis using False dk by (auto simp: same_shape_def views)
  qed
qed

end
