(* ===== verification/Size_Tree_Inv.thy ===== *)
theory Size_Tree_Inv
  imports Size_Tree "HOL-Library.Multiset"
begin

text \<open>
  The invariant of the size tree and its preservation: parent links and child lists agree, every
  linked id is present, the dirty list is the set of dirty directories, and the children of every
  directory that is not dirty are in descending order of their bytes. Each operation succeeds on
  such a tree: no index is out of range.
\<close>

section \<open>The loops through the views\<close>

fun climb :: "(u32 \<Rightarrow> u32 option) \<Rightarrow> nat \<Rightarrow> u32 \<Rightarrow> u32 list" where
  \<comment> \<open>an id and its ancestors, at most \<open>n\<close> of them\<close>
  "climb par 0 i = []"
| "climb par (Suc n) i = i # (case par i of None \<Rightarrow> [] | Some p \<Rightarrow> climb par n p)"

definition closed :: "size_tree \<Rightarrow> bool" where
  "closed t \<longleftrightarrow> (\<forall>i p. parent t i = Some p \<longrightarrow> present t i \<and> present t p \<and> p \<noteq> i)"

lemma closed_same: "same_shape t t' \<Longrightarrow> \<forall>j. present t' j = present t j \<Longrightarrow> closed t' = closed t"
  by (simp add: closed_def same_shape_def)

lemma same_shape_refl [simp]: "same_shape t t"
  by (simp add: same_shape_def)

lemma same_shape_trans: "same_shape t u \<Longrightarrow> same_shape u v \<Longrightarrow> same_shape t v"
  by (simp add: same_shape_def)

lemma unat_sat_add_times:
  "min (unat (sat_add a b) + k * unat b) (2 ^ 64 - 1) = min (unat a + (k + 1) * unat b) (2 ^ 64 - 1)"
  unfolding unat_sat_add min_add_assoc by (simp only: add_mult_distrib mult_1 add.commute [of "unat b"])

definition raised :: "size_tree \<Rightarrow> u32 list \<Rightarrow> u64 \<Rightarrow> size_tree \<Rightarrow> bool" where
  \<comment> \<open>\<open>t'\<close> is \<open>t\<close> with the bytes added once for each occurrence in the list\<close>
  "raised t is bytes t' \<longleftrightarrow> same_shape t t' \<and> (\<forall>j. present t' j = present t j)
     \<and> (\<forall>j. unat (subtree_bytes t' j) = min (unat (subtree_bytes t j) + count_list is j * unat bytes) (2 ^ 64 - 1))
     \<and> (\<forall>j. dirty t' j \<longleftrightarrow> dirty t j \<or> (\<exists>i \<in> set is. parent t i = Some j))
     \<and> (dirt_ok t \<longrightarrow> dirt_ok t')"

lemma raised_Nil: "raised t [] bytes t"
proof -
  have "min (unat (x :: u64)) 18446744073709551615 = unat x" for x
    using unat_u64_less [of x] by linarith
  then show ?thesis by (simp add: raised_def)
qed

lemma raised_Cons:
  assumes t1: "modify i (\<lambda>nd. nd\<lparr>node_subtree_bytes := sat_add (node_subtree_bytes nd) bytes\<rparr>) t = Some t1"
    and t2: "same_shape t1 t2" "\<forall>j. present t2 j = present t1 j" "\<forall>j. subtree_bytes t2 j = subtree_bytes t1 j"
      "\<forall>j. dirty t2 j \<longleftrightarrow> dirty t1 j \<or> parent t i = Some j" "dirt_ok t1 \<longrightarrow> dirt_ok t2"
    and t3: "raised t2 is bytes t3"
  shows "raised t (i # is) bytes t3"
proof -
  note m = modify_subtree_bytes [OF t1] modify_views(1,2) [OF t1]
  have par: "parent t2 j = parent t j" "children t2 j = children t j" for j
    using t2(1) by (simp_all add: same_shape_def m)
  have "same_shape t t3" using t3 par by (simp add: raised_def same_shape_def)
  moreover have "present t3 j = present t j" for j using t3 t2(2) by (simp add: raised_def m)
  moreover have "unat (subtree_bytes t3 j)
      = min (unat (subtree_bytes t j) + count_list (i # is) j * unat bytes) (2 ^ 64 - 1)" for j
  proof -
    have "unat (subtree_bytes t3 j) = min (unat (subtree_bytes t1 j) + count_list is j * unat bytes) (2 ^ 64 - 1)"
      using t3 t2(3) by (simp add: raised_def)
    also have "\<dots> = min (unat (subtree_bytes t j) + count_list (i # is) j * unat bytes) (2 ^ 64 - 1)"
      using unat_sat_add_times [of "subtree_bytes t j" bytes "count_list is j"] by (simp add: m)
    finally show ?thesis .
  qed
  moreover have "dirty t3 j \<longleftrightarrow> dirty t j \<or> (\<exists>k \<in> set (i # is). parent t k = Some j)" for j
    using t3 t2(4) par by (auto simp: raised_def m)
  moreover have "dirt_ok t \<longrightarrow> dirt_ok t3" using t2(5) t3 by (simp add: raised_def dirt_ok_def m)
  ultimately show ?thesis by (simp add: raised_def)
qed

lemma add_up_view:
  "\<lbrakk>closed t; present t i\<rbrakk> \<Longrightarrow> \<exists>t'. add_up n i bytes t = Some t' \<and> raised t (climb (parent t) n i) bytes t'"
proof (induction n arbitrary: i t)
  case 0
  then show ?case by (simp add: raised_Nil)
next
  case (Suc n)
  let ?f = "\<lambda>nd. nd\<lparr>node_subtree_bytes := sat_add (node_subtree_bytes nd) bytes\<rparr>"
  obtain t1 where t1: "modify i ?f t = Some t1" by (rule exE [OF modify_Some [OF Suc.prems(2)]])
  note m = modify_subtree_bytes [OF t1] modify_views(1,2) [OF t1]
  obtain nd where nd: "node t1 i = Some nd" using m Suc.prems(2) node_present by blast
  have par: "parent t i = (if node_parent nd = NO_PARENT then None else Some (node_parent nd))"
    using node_parent_view [OF nd] m by simp
  show ?case
  proof (cases "parent t i")
    case None
    then have "add_up (Suc n) i bytes t = Some t1" using t1 nd par by (simp split: if_splits)
    moreover have "raised t [i] bytes t1"
      using None by (intro raised_Cons [OF t1 _ _ _ _ _ raised_Nil]) simp_all
    ultimately show ?thesis using None by simp
  next
    case (Some p)
    then have p: "node_parent nd = p" "p \<noteq> NO_PARENT" using par by (auto split: if_splits)
    have "present t1 p" using Suc.prems(1) Some m by (simp add: closed_def)
    from mark_children_dirty_view [OF this] obtain t2 where t2: "mark_children_dirty p t1 = Some t2"
      "same_shape t1 t2" "\<forall>j. present t2 j = present t1 j" "\<forall>j. subtree_bytes t2 j = subtree_bytes t1 j"
      "\<forall>j. dirty t2 j \<longleftrightarrow> dirty t1 j \<or> j = p" "dirt_ok t1 \<longrightarrow> dirt_ok t2"
      by blast
    have par2: "parent t2 = parent t" using t2(2) m by (simp add: same_shape_def fun_eq_iff)
    have "closed t2" "present t2 p"
      using Suc.prems(1) \<open>present t1 p\<close> t2(3) m by (simp_all add: closed_def par2)
    from Suc.IH [OF this] obtain t3 where t3: "add_up n p bytes t2 = Some t3"
      "raised t2 (climb (parent t) n p) bytes t3" by (auto simp: par2)
    have "add_up (Suc n) i bytes t = Some t3" using t1 nd p t2(1) t3(1) by simp
    moreover have "raised t (i # climb (parent t) n p) bytes t3"
      using t2(5) Some by (intro raised_Cons [OF t1 t2(2-4) _ t2(6) t3(2)]) auto
    ultimately show ?thesis using Some by simp
  qed
qed

section \<open>The invariant\<close>

definition descending :: "size_tree \<Rightarrow> u32 list \<Rightarrow> bool" where
  "descending t cs \<longleftrightarrow> sorted_wrt (\<lambda>a b. subtree_bytes t b \<le> subtree_bytes t a) cs"

definition family :: "size_tree \<Rightarrow> bool" where
  "family t \<longleftrightarrow> closed t \<and> (\<forall>p. distinct (children t p) \<and> set (children t p) = {c. parent t c = Some p})"

definition tree_ok :: "size_tree \<Rightarrow> bool" where
  "tree_ok t \<longleftrightarrow> family t \<and> dirt_ok t \<and> (\<forall>p. dirty t p \<or> descending t (children t p))"

lemma tree_ok_empty: "tree_ok empty_tree"
  by (simp add: tree_ok_def family_def closed_def dirt_ok_def descending_def empty_tree_def
      parent_def children_def dirty_def node_def)

lemma descending_cong:
  "(\<And>c. c \<in> set cs \<Longrightarrow> subtree_bytes t' c = subtree_bytes t c) \<Longrightarrow> descending t' cs = descending t cs"
  unfolding descending_def by (induction cs) auto

lemma family_same:
  "same_shape t t' \<Longrightarrow> \<forall>j. present t j \<longrightarrow> present t' j \<Longrightarrow> family t \<Longrightarrow> family t'"
  by (simp add: family_def closed_def same_shape_def)

lemma tree_ok_ensure: "tree_ok t \<Longrightarrow> tree_ok (ensure i t)"
  by (simp add: tree_ok_def family_def closed_def dirt_ok_def views descending_def)

lemma tree_ok_link:
  assumes "tree_ok t" "p \<noteq> NO_PARENT"
  shows "\<exists>t'. link i p t = Some t' \<and> tree_ok t'"
proof -
  from link_view [OF assms(2), of i t] obtain t' where t': "link i p t = Some t'"
    and pr: "\<And>j. present t' j \<longleftrightarrow> present t j \<or> unat j \<le> unat i \<or> unat j \<le> unat p"
    and bt: "\<And>j. subtree_bytes t' j = subtree_bytes t j"
    and ch: "if parent t i = None \<and> i \<noteq> p
       then (\<forall>j. parent t' j = (if j = i then Some p else parent t j))
          \<and> (\<forall>j. children t' j = (if j = p then children t p @ [i] else children t j))
          \<and> (\<forall>j. dirty t' j \<longleftrightarrow> dirty t j \<or> j = p)
       else same_shape t t' \<and> (\<forall>j. dirty t' j = dirty t j)"
    and dk: "dirt_ok t \<longrightarrow> dirt_ok t'"
    by blast
  have fam: "family t" and ok: "\<And>q. dirty t q \<or> descending t (children t q)" and "dirt_ok t"
    using assms(1) by (simp_all add: tree_ok_def)
  have des: "descending t' cs = descending t cs" for cs by (rule descending_cong) (rule bt)
  show ?thesis
  proof (cases "parent t i = None \<and> i \<noteq> p")
    case True
    then have v: "\<And>j. parent t' j = (if j = i then Some p else parent t j)"
      "\<And>j. children t' j = (if j = p then children t p @ [i] else children t j)"
      "\<And>j. dirty t' j \<longleftrightarrow> dirty t j \<or> j = p" using ch by simp_all
    have "closed t'"
      using fam True by (auto simp: family_def closed_def v(1) pr split: if_splits)
    moreover have "distinct (children t' q) \<and> set (children t' q) = {c. parent t' c = Some q}" for q
      using fam True by (auto simp: family_def v(1,2))
    moreover have "dirty t' q \<or> descending t' (children t' q)" for q
      using ok [of q] by (simp add: v des)
    ultimately show ?thesis using t' dk \<open>dirt_ok t\<close> by (simp add: tree_ok_def family_def)
  next
    case False
    then have s: "same_shape t t'" "\<And>j. dirty t' j = dirty t j" using ch by simp_all
    have "family t'" using family_same [OF s(1) _ fam] pr by simp
    moreover have "dirty t' q \<or> descending t' (children t' q)" for q
      using ok [of q] s by (simp add: same_shape_def des)
    ultimately show ?thesis using t' dk \<open>dirt_ok t\<close> by (simp add: tree_ok_def)
  qed
qed

lemma tree_ok_raised:
  assumes "tree_ok t" "raised t is bytes t'"
  shows "tree_ok t'"
proof -
  have s: "same_shape t t'" and pr: "\<forall>j. present t' j = present t j"
    and bt: "\<And>j. unat (subtree_bytes t' j) = min (unat (subtree_bytes t j) + count_list is j * unat bytes) (2 ^ 64 - 1)"
    and di: "\<And>j. dirty t' j \<longleftrightarrow> dirty t j \<or> (\<exists>i \<in> set is. parent t i = Some j)" and dk: "dirt_ok t \<longrightarrow> dirt_ok t'"
    using assms(2) by (simp_all add: raised_def)
  have fam: "family t" and "dirt_ok t" and ok: "\<And>q. dirty t q \<or> descending t (children t q)"
    using assms(1) by (simp_all add: tree_ok_def)
  have "family t'" using family_same [OF s _ fam] pr by simp
  moreover have "dirty t' q \<or> descending t' (children t' q)" for q
  proof (cases "dirty t' q")
    case False
    have "subtree_bytes t' c = subtree_bytes t c" if "c \<in> set (children t q)" for c
    proof -
      have "parent t c = Some q" using that fam by (simp add: family_def)
      then have "c \<notin> set is" using False di by blast
      then have "count_list is c = 0" by (simp add: count_list_0_iff)
      then show ?thesis using bt [of c] unat_u64_less [of "subtree_bytes t c"]
        by (simp add: word_unat_eq_iff)
    qed
    then have "descending t' (children t q) = descending t (children t q)" by (rule descending_cong)
    then show ?thesis using ok [of q] False di s by (simp add: same_shape_def)
  qed simp
  ultimately show ?thesis using dk \<open>dirt_ok t\<close> by (simp add: tree_ok_def)
qed

section \<open>Sorting a batch\<close>

lemma descending_sort_key: "descending t (sort_key (\<lambda>c. - int (unat (subtree_bytes t c))) cs)"
proof -
  have "sorted (map (\<lambda>c. - int (unat (subtree_bytes t c))) (sort_key (\<lambda>c. - int (unat (subtree_bytes t c))) cs))"
    by (rule sorted_sort_key)
  then show ?thesis by (simp add: descending_def sorted_map word_le_def)
qed

definition resorted :: "size_tree \<Rightarrow> u32 list \<Rightarrow> size_tree \<Rightarrow> bool" where
  \<comment> \<open>\<open>t'\<close> is \<open>t\<close> with the children of the listed directories sorted and their flags cleared\<close>
  "resorted t ps t' \<longleftrightarrow> (\<forall>j. parent t' j = parent t j) \<and> (\<forall>j. present t' j = present t j)
     \<and> (\<forall>j. subtree_bytes t' j = subtree_bytes t j)
     \<and> (\<forall>j. dirty t' j \<longleftrightarrow> dirty t j \<and> j \<notin> set ps) \<and> dirty_children t' = dirty_children t
     \<and> (\<forall>j. mset (children t' j) = mset (children t j))
     \<and> (\<forall>j. j \<in> set ps \<or> children t' j = children t j) \<and> (\<forall>j \<in> set ps. descending t (children t' j))"

lemma sort_batch_view:
  "\<lbrakk>\<forall>p \<in> set ps. present t p; \<forall>j. \<forall>c \<in> set (children t j). present t c\<rbrakk> \<Longrightarrow>
     \<exists>t'. sort_batch ps t = Some t' \<and> resorted t ps t'"
proof (induction ps arbitrary: t)
  case Nil
  then show ?case by (simp add: resorted_def)
next
  case (Cons p ps)
  let ?sort = "sort_key (\<lambda>c. - int (unat (subtree_bytes t c)))"
  have "present t p" using Cons.prems by simp
  then obtain t1 where t1: "modify p (\<lambda>nd. nd\<lparr>node_dirty := False\<rparr>) t = Some t1" by (rule exE [OF modify_Some])
  note m1 = modify_dirty [OF t1] modify_views(1,2) [OF t1]
  obtain nd where nd: "node t1 p = Some nd" using m1 \<open>present t p\<close> node_present by blast
  then have c: "node_children nd = children t p" using m1(4) [of p] by (simp add: children_def)
  have s: "sort_children t1 (node_children nd) = Some (?sort (children t p))"
    using Cons.prems(2) m1 c by (simp add: sort_children_def list_all_iff present_def)
  have "present t1 p" using m1 \<open>present t p\<close> by simp
  then obtain t2 where t2: "modify p (\<lambda>nd. nd\<lparr>node_children := (\<lambda>_. ?sort (children t p)) (node_children nd)\<rparr>) t1 = Some t2"
    by (rule exE [OF modify_Some])
  note m2 = modify_children [OF t2] modify_views(1,2) [OF t2]
  have "\<forall>q \<in> set ps. present t2 q" "\<forall>j. \<forall>c \<in> set (children t2 j). present t2 c"
    using Cons.prems m1 m2 by simp_all
  from Cons.IH [OF this] obtain t3 where t3: "sort_batch ps t2 = Some t3" "resorted t2 ps t3" by blast
  have "sort_batch (p # ps) t = Some t3" using t1 nd s t2 t3(1) by simp
  moreover have "descending t2 = descending t" by (simp add: descending_def fun_eq_iff m1 m2)
  then have "resorted t (p # ps) t3"
    using t3(2) descending_sort_key [of t "children t p"]
    by (auto simp: resorted_def m1 m2)
  ultimately show ?case by blast
qed

lemma finish_batch_view:
  assumes "tree_ok t"
  shows "\<exists>t'. finish_batch t = Some t' \<and> tree_ok t' \<and> dirty_children t' = []
    \<and> (\<forall>j. parent t' j = parent t j) \<and> (\<forall>j. subtree_bytes t' j = subtree_bytes t j)
    \<and> (\<forall>j. present t' j = present t j)
    \<and> (\<forall>j. mset (children t' j) = mset (children t j)) \<and> (\<forall>j. descending t' (children t' j))"
proof -
  let ?t = "t\<lparr>dirty_children := []\<rparr>"
  have v: "present ?t j = present t j" "subtree_bytes ?t j = subtree_bytes t j" "parent ?t j = parent t j"
    "children ?t j = children t j" "dirty ?t j = dirty t j" "descending ?t = descending t" for j
    by (simp_all add: present_def subtree_bytes_def parent_def children_def dirty_def node_def descending_def fun_eq_iff)
  have fam: "family t" and dk: "dirt_ok t" and ok: "\<And>q. dirty t q \<or> descending t (children t q)"
    using assms by (simp_all add: tree_ok_def)
  have ch: "\<forall>j. \<forall>c \<in> set (children ?t j). present ?t c"
    using fam by (auto simp: family_def closed_def v)
  have "dirty t p \<Longrightarrow> present t p" for p by (auto simp: dirty_def present_def node_def split: if_splits)
  then have ps: "\<forall>p \<in> set (dirty_children t). present ?t p" using dk by (simp add: dirt_ok_def v)
  from sort_batch_view [OF ps ch] obtain t' where t': "finish_batch t = Some t'" "resorted ?t (dirty_children t) t'"
    by (auto simp: finish_batch_def)
  have clean: "\<not> dirty t' j" for j using t'(2) dk by (simp add: resorted_def dirt_ok_def v)
  have sub: "subtree_bytes t' j = subtree_bytes t j" and par: "parent t' j = parent t j"
    and pr: "present t' j = present t j" and mc: "mset (children t' j) = mset (children t j)" for j
    using t'(2) by (simp_all add: resorted_def v)
  have des: "descending t' = descending t" by (simp add: descending_def fun_eq_iff sub)
  have "descending t' (children t' j)" for j
    using t'(2) ok [of j] dk by (cases "dirty t j") (auto simp: resorted_def dirt_ok_def v des)
  moreover have "set (children t' j) = set (children t j)" "distinct (children t' j) = distinct (children t j)" for j
    using mset_eq_setD [OF mc] mset_eq_imp_distinct_iff [OF mc] by auto
  then have "family t'" using fam by (simp add: family_def closed_def par pr)
  moreover have "dirty_children t' = []" using t'(2) by (simp add: resorted_def)
  moreover have "dirt_ok t'" using clean \<open>dirty_children t' = []\<close> by (simp add: dirt_ok_def)
  ultimately show ?thesis using t'(1) sub par pr mc by (simp add: tree_ok_def)
qed

end
