(* ===== verification/Size_Tree_Totals.thy ===== *)
theory Size_Tree_Totals
  imports Size_Tree_Inv
begin

text \<open>
  What the tree holds after whole batches of directory summaries: every directory's bytes are the
  sum over the summaries below it, the children of every directory are exactly its own and sorted.
  The specification works on the list of summaries alone.
\<close>

section \<open>Ingesting summaries\<close>

definition tree_add :: "directory_summary \<Rightarrow> size_tree \<Rightarrow> size_tree option" where
  \<comment> \<open>the tree updates at the head of \<open>ScanModel::add_directory\<close>\<close>
  "tree_add d t =
     Option.bind (case dir_parent_id d of Some p \<Rightarrow> link (dir_id d) p t | None \<Rightarrow> Some t) (\<lambda>t.
     Option.bind (set_name (dir_id d) (dir_name d) t) (\<lambda>t.
     Option.bind (set_own (dir_id d) (dir_allocated_bytes d) (sat_sub (dir_entries d) (dir_children d)) t) (\<lambda>t.
     add_bytes (dir_id d) (dir_allocated_bytes d) t)))"

fun tree_add_all :: "directory_summary list \<Rightarrow> size_tree \<Rightarrow> size_tree option" where
  "tree_add_all [] t = Some t"
| "tree_add_all (d # ds) t = Option.bind (tree_add d t) (tree_add_all ds)"

definition tree_batch :: "directory_summary list \<Rightarrow> size_tree \<Rightarrow> size_tree option" where
  \<comment> \<open>the tree updates of one \<open>BackendEvent::Update\<close>\<close>
  "tree_batch ds t = Option.bind (tree_add_all ds t) finish_batch"

fun tree_batches :: "directory_summary list list \<Rightarrow> size_tree \<Rightarrow> size_tree option" where
  "tree_batches [] t = Some t"
| "tree_batches (ds # dss) t = Option.bind (tree_batch ds t) (tree_batches dss)"

section \<open>The specification\<close>

fun parents_first :: "u32 list \<Rightarrow> directory_summary list \<Rightarrow> bool" where
  \<comment> \<open>each directory is summarised once, and after its parent\<close>
  "parents_first seen [] = True"
| "parents_first seen (d # ds) =
     (dir_id d \<notin> set seen \<and> dir_id d \<noteq> NO_PARENT
      \<and> (case dir_parent_id d of None \<Rightarrow> True | Some p \<Rightarrow> p \<in> set seen)
      \<and> parents_first (seen @ [dir_id d]) ds)"

definition parent_of :: "directory_summary list \<Rightarrow> u32 \<Rightarrow> u32 option" where
  "parent_of ds i = Option.bind (map_of (map (\<lambda>d. (dir_id d, dir_parent_id d)) ds) i) (\<lambda>p. p)"

definition total_bytes :: "directory_summary list \<Rightarrow> u32 \<Rightarrow> nat" where
  \<comment> \<open>the bytes of the directories that have \<open>i\<close> among themselves and their ancestors\<close>
  "total_bytes ds i = (\<Sum>d \<leftarrow> ds. if i \<in> set (climb (parent_of ds) MAX_DEPTH (dir_id d))
     then unat (dir_allocated_bytes d) else 0)"

section \<open>Climbing\<close>

lemma climb_cong: "(\<And>j. j \<in> set (climb f n i) \<Longrightarrow> f j = g j) \<Longrightarrow> climb g n i = climb f n i"
proof (induction n arbitrary: i)
  case (Suc n)
  have fg: "g i = f i" using Suc.prems [of i] by simp
  show ?case
  proof (cases "f i")
    case None
    then show ?thesis by (simp add: fg)
  next
    case (Some p)
    then have "climb g n p = climb f n p" by (intro Suc.IH Suc.prems) simp
    then show ?thesis by (simp add: fg Some)
  qed
qed simp

lemma climb_within:
  assumes "\<And>j p. j \<in> A \<Longrightarrow> f j = Some p \<Longrightarrow> p \<in> A"
  shows "i \<in> A \<Longrightarrow> set (climb f n i) \<subseteq> A"
proof (induction n arbitrary: i)
  case (Suc n)
  then show ?case using assms [of i] by (cases "f i") auto
qed simp

definition ids :: "directory_summary list \<Rightarrow> u32 set" where
  "ids ds = dir_id ` set ds"

lemma parent_of_None: "i \<notin> ids ds \<Longrightarrow> parent_of ds i = None"
proof -
  assume "i \<notin> ids ds"
  then have "map_of (map (\<lambda>d. (dir_id d, dir_parent_id d)) ds) i = None"
    by (auto simp: ids_def map_of_eq_None_iff)
  then show ?thesis by (simp add: parent_of_def)
qed

lemma parent_of_snoc:
  "dir_id d \<notin> ids ds \<Longrightarrow> parent_of (ds @ [d]) = (parent_of ds)(dir_id d := dir_parent_id d)"
proof
  fix i
  assume "dir_id d \<notin> ids ds"
  then have "map_of (map (\<lambda>d. (dir_id d, dir_parent_id d)) ds) (dir_id d) = None"
    by (auto simp: ids_def map_of_eq_None_iff)
  then show "parent_of (ds @ [d]) i = ((parent_of ds)(dir_id d := dir_parent_id d)) i"
    by (auto simp: parent_of_def map_add_def split: option.splits)
qed

lemma parents_first_snoc:
  "parents_first seen (ds @ [d]) \<longleftrightarrow> parents_first seen ds \<and> dir_id d \<notin> set seen \<union> ids ds \<and> dir_id d \<noteq> NO_PARENT
     \<and> (case dir_parent_id d of None \<Rightarrow> True | Some p \<Rightarrow> p \<in> set seen \<union> ids ds)"
  by (induction ds arbitrary: seen) (auto simp: ids_def split: option.splits)

lemma parents_first_append_left: "parents_first seen (ds @ es) \<Longrightarrow> parents_first seen ds"
  by (induction ds arbitrary: seen) (auto split: option.splits)

lemma parents_first_known: "parents_first [] ds \<Longrightarrow> parent_of ds j = Some p \<Longrightarrow> j \<in> ids ds \<and> p \<in> ids ds"
proof (induction ds arbitrary: j p rule: rev_induct)
  case Nil
  then show ?case by (simp add: parent_of_def)
next
  case (snoc d ds)
  then have d: "parents_first [] ds" "dir_id d \<notin> ids ds" by (auto simp: parents_first_snoc)
  have "ids (ds @ [d]) = insert (dir_id d) (ids ds)" by (auto simp: ids_def)
  then show ?case
    using snoc.prems snoc.IH [OF d(1), of j p] by (auto simp: parent_of_snoc [OF d(2)] parents_first_snoc split: if_splits)
qed

lemma climb_old:
  assumes "parents_first [] ds" "dir_id d \<notin> ids ds" "i \<in> ids ds"
  shows "climb (parent_of (ds @ [d])) n i = climb (parent_of ds) n i" "set (climb (parent_of ds) n i) \<subseteq> ids ds"
proof -
  show *: "set (climb (parent_of ds) n i) \<subseteq> ids ds"
    using assms(3) parents_first_known [OF assms(1)] by (intro climb_within) auto
  then show "climb (parent_of (ds @ [d])) n i = climb (parent_of ds) n i"
    using assms(2) by (intro climb_cong) (auto simp: parent_of_snoc [OF assms(2)])
qed

lemma climb_new:
  assumes "parents_first [] (ds @ [d])"
  shows "\<exists>up. climb (parent_of (ds @ [d])) (Suc n) (dir_id d) = dir_id d # up \<and> set up \<subseteq> ids ds
     \<and> (distinct up \<or> (\<exists>i \<in> ids ds. \<not> distinct (climb (parent_of ds) n i)))"
proof -
  have d: "parents_first [] ds" "dir_id d \<notin> ids ds" using assms by (auto simp: parents_first_snoc)
  show ?thesis
  proof (cases "dir_parent_id d")
    case None
    then show ?thesis by (simp add: parent_of_snoc [OF d(2)])
  next
    case (Some p)
    then have "p \<in> ids ds" using assms by (simp add: parents_first_snoc)
    then show ?thesis using Some climb_old [OF d \<open>p \<in> ids ds\<close>, of n] by (auto simp: parent_of_snoc [OF d(2)])
  qed
qed

lemma climb_distinct: "parents_first [] ds \<Longrightarrow> i \<in> ids ds \<Longrightarrow> distinct (climb (parent_of ds) n i)"
proof (induction ds arbitrary: i n rule: rev_induct)
  case Nil
  then show ?case by (simp add: ids_def)
next
  case (snoc d ds)
  then have d: "parents_first [] ds" "dir_id d \<notin> ids ds" by (auto simp: parents_first_snoc)
  show ?case
  proof (cases "i = dir_id d")
    case True
    show ?thesis
    proof (cases n)
      case (Suc k)
      from climb_new [OF snoc.prems(1), of k] d(2) snoc.IH [OF d(1)] True Suc show ?thesis by auto
    qed simp
  next
    case False
    then have "i \<in> ids ds" using snoc.prems(2) by (auto simp: ids_def)
    with climb_old [OF d this, of n] snoc.IH [OF d(1) this] show ?thesis by simp
  qed
qed

section \<open>One summary\<close>

definition unseen_by_views :: "size_tree \<Rightarrow> size_tree \<Rightarrow> bool" where
  \<comment> \<open>a change of names, own sizes or length only\<close>
  "unseen_by_views t t' \<longleftrightarrow> same_shape t t' \<and> (\<forall>j. present t j \<longrightarrow> present t' j)
     \<and> (\<forall>j. subtree_bytes t' j = subtree_bytes t j) \<and> (\<forall>j. dirty t' j = dirty t j)
     \<and> dirty_children t' = dirty_children t"

lemma tree_ok_unseen: "unseen_by_views t t' \<Longrightarrow> tree_ok t \<Longrightarrow> tree_ok t'"
  using family_same [of t t'] descending_cong [of _ t' t]
  by (auto simp: tree_ok_def unseen_by_views_def dirt_ok_def same_shape_def)

lemma unseen_trans: "unseen_by_views t u \<Longrightarrow> unseen_by_views u v \<Longrightarrow> unseen_by_views t v"
  by (simp add: unseen_by_views_def same_shape_def)

lemma modify_unseen:
  assumes "\<And>nd. node_parent (f nd) = node_parent nd \<and> node_children (f nd) = node_children nd
    \<and> node_subtree_bytes (f nd) = node_subtree_bytes nd \<and> node_dirty (f nd) = node_dirty nd"
  shows "\<exists>t'. modify i f (ensure i t) = Some t' \<and> unseen_by_views t t' \<and> present t' i"
proof -
  have "present (ensure i t) i" by (simp add: views)
  then obtain t' where t': "modify i f (ensure i t) = Some t'" by (rule exE [OF modify_Some])
  show ?thesis
    using t' modify_views [OF t'] assms by (simp add: unseen_by_views_def same_shape_def views)
qed

lemma set_name_unseen: "\<exists>t'. set_name i name t = Some t' \<and> unseen_by_views t t'"
proof (cases "name = []")
  case True
  then show ?thesis by (simp add: set_name_def unseen_by_views_def)
next
  case False
  have "\<exists>t'. modify i (\<lambda>nd. nd\<lparr>node_name := name\<rparr>) (ensure i t) = Some t' \<and> unseen_by_views t t' \<and> present t' i"
    by (rule modify_unseen) simp
  then show ?thesis using False by (auto simp: set_name_def)
qed

lemma set_own_unseen: "\<exists>t'. set_own i a b t = Some t' \<and> unseen_by_views t t' \<and> present t' i"
  unfolding set_own_def by (rule modify_unseen) simp

lemma add_bytes_view:
  assumes "tree_ok t" "present t i"
  shows "\<exists>t'. add_bytes i bytes t = Some t' \<and> raised t (climb (parent t) MAX_DEPTH i) bytes t'"
proof -
  have "ensure i t = t" using assms(2) by (simp add: ensure_def present_def)
  moreover have "closed t" using assms(1) by (simp add: tree_ok_def family_def)
  ultimately show ?thesis using add_up_view [of t i MAX_DEPTH bytes] assms(2) by (simp add: add_bytes_def)
qed

lemma tree_add_view:
  assumes "tree_ok t" and p: "dir_parent_id d \<noteq> Some NO_PARENT"
  shows "\<exists>t1 t'. (case dir_parent_id d of Some p \<Rightarrow> link (dir_id d) p t | None \<Rightarrow> Some t) = Some t1
    \<and> tree_add d t = Some t' \<and> tree_ok t' \<and> (\<forall>j. present t1 j \<longrightarrow> present t' j) \<and> present t' (dir_id d)
    \<and> same_shape t1 t'
    \<and> (\<forall>j. unat (subtree_bytes t' j) = min (unat (subtree_bytes t1 j)
          + count_list (climb (parent t1) MAX_DEPTH (dir_id d)) j * unat (dir_allocated_bytes d)) (2 ^ 64 - 1))"
proof -
  have "\<exists>t1. (case dir_parent_id d of Some p \<Rightarrow> link (dir_id d) p t | None \<Rightarrow> Some t) = Some t1 \<and> tree_ok t1"
    using assms tree_ok_link [OF assms(1)] by (cases "dir_parent_id d") auto
  then obtain t1 where t1: "(case dir_parent_id d of Some p \<Rightarrow> link (dir_id d) p t | None \<Rightarrow> Some t) = Some t1"
    and ok1: "tree_ok t1" by blast
  obtain t2 where t2: "set_name (dir_id d) (dir_name d) t1 = Some t2" "unseen_by_views t1 t2"
    using set_name_unseen by blast
  obtain t3 where t3: "set_own (dir_id d) (dir_allocated_bytes d) (sat_sub (dir_entries d) (dir_children d)) t2 = Some t3"
    "unseen_by_views t2 t3" "present t3 (dir_id d)"
    using set_own_unseen by blast
  have u: "unseen_by_views t1 t3" using t2(2) t3(2) by (rule unseen_trans)
  then have ok3: "tree_ok t3" using ok1 by (rule tree_ok_unseen)
  from add_bytes_view [OF ok3 t3(3)] obtain t4 where t4: "add_bytes (dir_id d) (dir_allocated_bytes d) t3 = Some t4"
    "raised t3 (climb (parent t3) MAX_DEPTH (dir_id d)) (dir_allocated_bytes d) t4" by blast
  have "parent t3 = parent t1" using u by (simp add: unseen_by_views_def same_shape_def fun_eq_iff)
  then have "tree_add d t = Some t4 \<and> tree_ok t4 \<and> (\<forall>j. present t1 j \<longrightarrow> present t4 j) \<and> present t4 (dir_id d)
    \<and> same_shape t1 t4
    \<and> (\<forall>j. unat (subtree_bytes t4 j) = min (unat (subtree_bytes t1 j)
          + count_list (climb (parent t1) MAX_DEPTH (dir_id d)) j * unat (dir_allocated_bytes d)) (2 ^ 64 - 1))"
    using t1 t2(1) t3(1,3) t4 u tree_ok_raised [OF ok3 t4(2)]
    by (simp add: tree_add_def raised_def unseen_by_views_def same_shape_def)
  then show ?thesis using t1 by blast
qed

section \<open>Whole batches\<close>

lemma count_list_distinct: "distinct xs \<Longrightarrow> count_list xs x = (if x \<in> set xs then 1 else 0)"
  by (induction xs) auto

definition holds :: "directory_summary list \<Rightarrow> size_tree \<Rightarrow> bool" where
  "holds ds t \<longleftrightarrow> tree_ok t \<and> parent t = parent_of ds \<and> (\<forall>i \<in> ids ds. present t i)
     \<and> (\<forall>j. unat (subtree_bytes t j) = min (total_bytes ds j) (2 ^ 64 - 1))"

lemma holds_empty: "holds [] empty_tree"
  by (simp add: holds_def tree_ok_empty ids_def total_bytes_def fun_eq_iff parent_of_def)
    (simp add: parent_def subtree_bytes_def node_def empty_tree_def)

lemma total_bytes_snoc:
  assumes "parents_first [] (ds @ [d])"
  shows "total_bytes (ds @ [d]) j = total_bytes ds j
    + (if j \<in> set (climb (parent_of (ds @ [d])) MAX_DEPTH (dir_id d)) then unat (dir_allocated_bytes d) else 0)"
proof -
  have d: "parents_first [] ds" "dir_id d \<notin> ids ds" using assms by (auto simp: parents_first_snoc)
  have "climb (parent_of (ds @ [d])) MAX_DEPTH (dir_id x) = climb (parent_of ds) MAX_DEPTH (dir_id x)"
    if "x \<in> set ds" for x
    using climb_old [OF d, of "dir_id x"] that by (simp add: ids_def)
  then show ?thesis by (simp add: total_bytes_def cong: map_cong)
qed

lemma holds_tree_add:
  assumes pf: "parents_first [] (ds @ [d])" and t: "holds ds t"
  shows "\<exists>t'. tree_add d t = Some t' \<and> holds (ds @ [d]) t'"
proof -
  let ?ds = "ds @ [d]"
  have d: "parents_first [] ds" "dir_id d \<notin> ids ds" "dir_id d \<noteq> NO_PARENT"
    "\<And>p. dir_parent_id d = Some p \<Longrightarrow> p \<in> ids ds"
    using pf by (auto simp: parents_first_snoc)
  have "NO_PARENT \<notin> ids ds"
    using d(1) by (induction ds rule: rev_induct) (auto simp: parents_first_snoc ids_def)
  then have p: "dir_parent_id d \<noteq> Some NO_PARENT" using d(4) by blast
  have ok: "tree_ok t" and par: "parent t = parent_of ds" and pr: "\<forall>i \<in> ids ds. present t i"
    and tot: "\<And>j. unat (subtree_bytes t j) = min (total_bytes ds j) (2 ^ 64 - 1)"
    using t by (simp_all add: holds_def)
  from tree_add_view [OF ok p] obtain t1 t' where
    t1: "(case dir_parent_id d of Some p \<Rightarrow> link (dir_id d) p t | None \<Rightarrow> Some t) = Some t1"
    and t': "tree_add d t = Some t'" "tree_ok t'" "\<forall>j. present t1 j \<longrightarrow> present t' j" "present t' (dir_id d)"
      "same_shape t1 t'"
      "\<forall>j. unat (subtree_bytes t' j) = min (unat (subtree_bytes t1 j)
          + count_list (climb (parent t1) MAX_DEPTH (dir_id d)) j * unat (dir_allocated_bytes d)) (2 ^ 64 - 1)"
    by blast
  have "parent t1 = parent_of ?ds \<and> (\<forall>j. present t j \<longrightarrow> present t1 j) \<and> (\<forall>j. subtree_bytes t1 j = subtree_bytes t j)"
  proof (cases "dir_parent_id d")
    case None
    then show ?thesis
      using t1 par parent_of_None [OF d(2)] by (simp add: parent_of_snoc [OF d(2)] fun_upd_idem)
  next
    case (Some q)
    then have "q \<noteq> NO_PARENT" "q \<noteq> dir_id d" using p d(2,4) by auto
    then show ?thesis
      using link_view [of q "dir_id d" t] t1 Some par parent_of_None [OF d(2)]
      by (auto simp: parent_of_snoc [OF d(2)] fun_eq_iff)
  qed
  then have v: "parent t1 = parent_of ?ds" "\<And>j. present t j \<Longrightarrow> present t1 j" "\<And>j. subtree_bytes t1 j = subtree_bytes t j"
    by auto
  have "parent t' = parent_of ?ds" using t'(5) v(1) by (simp add: same_shape_def fun_eq_iff)
  moreover have "\<forall>i \<in> ids ?ds. present t' i" using t'(3,4) v(2) pr by (auto simp: ids_def)
  moreover have "unat (subtree_bytes t' j) = min (total_bytes ?ds j) (2 ^ 64 - 1)" for j
  proof -
    let ?up = "climb (parent_of ?ds) MAX_DEPTH (dir_id d)"
    have "distinct ?up" by (rule climb_distinct [OF pf]) (simp add: ids_def)
    then have "count_list ?up j = (if j \<in> set ?up then 1 else 0)"
      by (rule count_list_distinct)
    moreover have "unat (subtree_bytes t' j)
        = min (min (total_bytes ds j + 0) (2 ^ 64 - 1) + count_list ?up j * unat (dir_allocated_bytes d)) (2 ^ 64 - 1)"
      using t'(6) v(1,3) tot by simp
    ultimately show ?thesis
      unfolding min_add_assoc total_bytes_snoc [OF pf] by simp
  qed
  ultimately show ?thesis using t'(1,2) by (auto simp: holds_def)
qed

lemma holds_tree_add_all:
  "\<lbrakk>parents_first [] (ds @ es); holds ds t\<rbrakk> \<Longrightarrow> \<exists>t'. tree_add_all es t = Some t' \<and> holds (ds @ es) t'"
proof (induction es arbitrary: ds t)
  case (Cons d es)
  then have "parents_first [] ((ds @ [d]) @ es)" by simp
  then have "parents_first [] (ds @ [d])" by (rule parents_first_append_left)
  from holds_tree_add [OF this Cons.prems(2)] obtain t1 where "tree_add d t = Some t1" "holds (ds @ [d]) t1" by blast
  with Cons.IH [of "ds @ [d]" t1] Cons.prems(1) show ?case by simp
qed simp

lemma holds_finish:
  assumes "holds ds t"
  shows "\<exists>t'. finish_batch t = Some t' \<and> holds ds t' \<and> (\<forall>j. descending t' (children t' j))"
proof -
  have "tree_ok t" using assms by (simp add: holds_def)
  from finish_batch_view [OF this] assms show ?thesis by (auto simp: holds_def fun_eq_iff)
qed

lemma holds_tree_batches:
  "\<lbrakk>parents_first [] (ds @ concat dss); holds ds t; \<forall>j. descending t (children t j)\<rbrakk> \<Longrightarrow>
     \<exists>t'. tree_batches dss t = Some t' \<and> holds (ds @ concat dss) t' \<and> (\<forall>j. descending t' (children t' j))"
proof (induction dss arbitrary: ds t)
  case (Cons es dss)
  have "parents_first [] (ds @ es)"
    using Cons.prems(1) parents_first_append_left [of "[]" "ds @ es" "concat dss"] by simp
  from holds_tree_add_all [OF this Cons.prems(2)] obtain t1 where t1: "tree_add_all es t = Some t1" "holds (ds @ es) t1"
    by blast
  from holds_finish [OF t1(2)] obtain t2 where t2: "finish_batch t1 = Some t2" "holds (ds @ es) t2"
    "\<forall>j. descending t2 (children t2 j)" by blast
  with Cons.IH [of "ds @ es" t2] Cons.prems(1) t1(1) show ?case by (simp add: tree_batch_def)
qed simp

lemma descending_empty: "descending empty_tree (children empty_tree j)"
  by (simp add: descending_def children_def node_def empty_tree_def)

lemma tree_batches_holds:
  "parents_first [] (concat dss) \<Longrightarrow>
     \<exists>t. tree_batches dss empty_tree = Some t \<and> holds (concat dss) t \<and> (\<forall>j. descending t (children t j))"
  using holds_tree_batches [of "[]" dss empty_tree] holds_empty descending_empty by simp

text \<open>
  C15. However the summaries of a scan are cut into batches, as long as every directory is
  summarised once and after its parent, the size tree gives each directory the sum of the allocated
  bytes of all directories that have it among their ancestors (themselves included, up to
  \<open>MAX_DEPTH\<close> levels), capped at the largest \<open>u64\<close>; and its parent links are those reported.
\<close>
theorem size_tree_totals:
  assumes "parents_first [] (concat dss)"
  shows "\<exists>t. tree_batches dss empty_tree = Some t
    \<and> (\<forall>i. unat (subtree_bytes t i) = min (total_bytes (concat dss) i) (2 ^ 64 - 1))
    \<and> (\<forall>i. parent t i = parent_of (concat dss) i)"
  using tree_batches_holds [OF assms] by (auto simp: holds_def)

text \<open>
  C16. After the batches, the children of every directory are exactly the directories that named it
  as their parent, each once, in descending order of their subtree bytes.
\<close>
theorem size_tree_children:
  assumes "parents_first [] (concat dss)"
  shows "\<exists>t. tree_batches dss empty_tree = Some t
    \<and> (\<forall>i. distinct (children t i) \<and> set (children t i) = {c. parent_of (concat dss) c = Some i}
         \<and> sorted_wrt (\<lambda>a b. subtree_bytes t b \<le> subtree_bytes t a) (children t i))"
  using tree_batches_holds [OF assms] by (auto simp: holds_def tree_ok_def family_def descending_def)

section \<open>Any summaries\<close>

lemma tree_add_all_ok:
  "\<lbrakk>tree_ok t; \<forall>d \<in> set ds. dir_parent_id d \<noteq> Some NO_PARENT\<rbrakk> \<Longrightarrow> \<exists>t'. tree_add_all ds t = Some t' \<and> tree_ok t'"
proof (induction ds arbitrary: t)
  case (Cons d ds)
  from tree_add_view [of t d] Cons.prems obtain t1 where "tree_add d t = Some t1" "tree_ok t1" by auto
  with Cons.IH [of t1] Cons.prems show ?case by simp
qed simp

lemma tree_batches_ok:
  "\<lbrakk>tree_ok t; \<forall>d \<in> set (concat dss). dir_parent_id d \<noteq> Some NO_PARENT\<rbrakk> \<Longrightarrow>
     \<exists>t'. tree_batches dss t = Some t' \<and> tree_ok t'"
proof (induction dss arbitrary: t)
  case (Cons ds dss)
  from tree_add_all_ok [of t ds] Cons.prems obtain t1 where t1: "tree_add_all ds t = Some t1" "tree_ok t1" by auto
  from finish_batch_view [OF t1(2)] obtain t2 where "finish_batch t1 = Some t2" "tree_ok t2" by blast
  with Cons.IH [of t2] Cons.prems t1(1) show ?case by (simp add: tree_batch_def)
qed simp

text \<open>
  C17. The size tree never panics: whatever summaries arrive in whatever order, repeated ids and
  cycles of parent links included, every operation finds its indices in range, as long as no
  summary names the reserved id \<open>u32::MAX\<close> as its parent; and the invariant of the tree holds.
\<close>
theorem size_tree_never_panics:
  assumes "\<forall>d \<in> set (concat dss). dir_parent_id d \<noteq> Some NO_PARENT"
  shows "\<exists>t. tree_batches dss empty_tree = Some t \<and> tree_ok t"
  using tree_batches_ok [OF tree_ok_empty assms] .

section \<open>Witnesses\<close>

definition demo_dir :: "u32 \<Rightarrow> u32 option \<Rightarrow> string \<Rightarrow> u64 \<Rightarrow> directory_summary" where
  "demo_dir i p name bytes = \<lparr>dir_id = i, dir_parent_id = p, dir_name = name, dir_state = DirPublished,
     dir_entries = 3, dir_children = 1, dir_error = [], dir_allocated_bytes = bytes, dir_largest_files = []\<rparr>"

definition demo_batches :: "directory_summary list list" where
  "demo_batches = [[demo_dir 0 None ''/'' 10, demo_dir 1 (Some 0) ''a'' 5], [demo_dir 2 (Some 0) ''b'' 7, demo_dir 3 (Some 1) ''c'' (- 1)]]"

lemma demo_batches_parents_first: "parents_first [] (concat demo_batches)"
  by code_simp

theorem size_tree_totals_witness:
  "\<exists>t. tree_batches demo_batches empty_tree = Some t \<and> unat (subtree_bytes t 0) = 2 ^ 64 - 1
     \<and> unat (subtree_bytes t 2) = 7 \<and> parent t 3 = Some 1"
proof -
  have "total_bytes (concat demo_batches) 0 \<ge> 2 ^ 64 - 1" "total_bytes (concat demo_batches) 2 = 7"
    "parent_of (concat demo_batches) 3 = Some 1"
    by code_simp+
  with size_tree_totals [OF demo_batches_parents_first] show ?thesis by (auto simp: min_def)
qed

theorem size_tree_children_witness:
  "\<exists>t. tree_batches demo_batches empty_tree = Some t \<and> distinct (children t 0) \<and> 1 \<in> set (children t 0)"
proof -
  have "parent_of (concat demo_batches) 1 = Some 0" by code_simp
  with size_tree_children [OF demo_batches_parents_first] show ?thesis by blast
qed

definition demo_cycle :: "directory_summary list list" where
  "demo_cycle = [[demo_dir 1 (Some 2) ''a'' 5, demo_dir 2 (Some 1) ''b'' 7], [demo_dir 1 (Some 0) ''a'' 5]]"

theorem size_tree_never_panics_witness: "\<exists>t. tree_batches demo_cycle empty_tree = Some t \<and> tree_ok t"
  by (rule size_tree_never_panics) (simp add: demo_cycle_def demo_dir_def NO_PARENT_def)

end
