(* ===== verification/F64.thy ===== *)
theory F64
  imports Prelude
begin

text \<open>
  The \<open>f64\<close> arithmetic that the desktop application uses, on bit patterns: conversion from and to
  \<open>u64\<close>, addition, subtraction, multiplication, division, comparison and \<open>max\<close>, rounding to nearest with
  ties to even. A finite magnitude is \<open>significand * 2 ^ (scale - 1074)\<close>.
\<close>

section \<open>Fields\<close>

definition f64_negative :: "f64_bits \<Rightarrow> bool" where
  "f64_negative x \<longleftrightarrow> unat x \<ge> 2 ^ 63"

definition f64_exponent :: "f64_bits \<Rightarrow> nat" where
  "f64_exponent x = unat x div 2 ^ 52 mod 2 ^ 11"

definition f64_fraction :: "f64_bits \<Rightarrow> nat" where
  "f64_fraction x = unat x mod 2 ^ 52"

definition f64_nan :: "f64_bits \<Rightarrow> bool" where
  "f64_nan x \<longleftrightarrow> f64_exponent x = 2047 \<and> f64_fraction x \<noteq> 0"

definition f64_inf :: "f64_bits \<Rightarrow> bool" where
  "f64_inf x \<longleftrightarrow> f64_exponent x = 2047 \<and> f64_fraction x = 0"

definition f64_scale :: "f64_bits \<Rightarrow> nat" where
  "f64_scale x = f64_exponent x - 1"

definition f64_significand :: "f64_bits \<Rightarrow> nat" where
  "f64_significand x = (if f64_exponent x = 0 then f64_fraction x else 2 ^ 52 + f64_fraction x)"

definition f64_value :: "nat \<Rightarrow> f64_bits \<Rightarrow> int" where
  \<comment> \<open>the signed value in units of \<open>2 ^ (scale - 1074)\<close>, for a scale not above the number's\<close>
  "f64_value scale x =
     (let m = int (f64_significand x * 2 ^ (f64_scale x - scale)) in if f64_negative x then - m else m)"

section \<open>Rounding\<close>

fun short_length :: "nat \<Rightarrow> nat" where
  "short_length n = (if n = 0 then 0 else Suc (short_length (n div 2)))"

declare short_length.simps [simp del]

function bit_length :: "nat \<Rightarrow> nat" where
  \<comment> \<open>the number of binary digits, a word at a time\<close>
  "bit_length n = (if n < 2 ^ 64 then short_length n else 64 + bit_length (n div 2 ^ 64))"
  by pat_completeness auto
termination by (relation "measure id") auto

declare bit_length.simps [simp del]

definition round_half_even :: "nat \<Rightarrow> nat \<Rightarrow> nat" where
  \<comment> \<open>the natural number nearest to \<open>num / den\<close>\<close>
  "round_half_even num den =
     (let q = num div den; r = num mod den in
      if 2 * r > den \<or> (2 * r = den \<and> odd q) then q + 1 else q)"

definition f64_round :: "bool \<Rightarrow> nat \<Rightarrow> nat \<Rightarrow> int \<Rightarrow> f64_bits" where
  \<comment> \<open>the number nearest to \<open>num / den * 2 ^ (scale - 1074)\<close>, for a quotient of 0 only when \<open>num\<close> is
    0; too large a magnitude is infinite\<close>
  "f64_round negative num den scale =
     (let k = max (scale + int (bit_length (num div den)) - 53) 0;
          m = (if scale \<le> k then round_half_even num (den * 2 ^ nat (k - scale))
               else round_half_even (num * 2 ^ nat (scale - k)) den);
          m = (if num = 0 then 0 else min (nat k * 2 ^ 52 + m) (2047 * 2 ^ 52))
      in word_of_nat (if negative then 2 ^ 63 + m else m))"

section \<open>Operations\<close>

definition F64_NAN :: f64_bits where "F64_NAN = 0x7FF8000000000000"

definition f64_infinity :: "bool \<Rightarrow> f64_bits" where
  "f64_infinity negative = (if negative then 0xFFF0000000000000 else 0x7FF0000000000000)"

definition f64_of_u64 :: "u64 \<Rightarrow> f64_bits" where
  \<comment> \<open>\<open>x as f64\<close>\<close>
  "f64_of_u64 x = f64_round False (unat x) 1 1074"

definition f64_to_u64 :: "f64_bits \<Rightarrow> u64" where
  \<comment> \<open>\<open>x as u64\<close>: truncating, saturating, NaN to 0\<close>
  "f64_to_u64 x =
     (if f64_nan x \<or> f64_negative x then 0
      else if f64_exponent x \<ge> 1023 + 64 then - 1
      else if f64_scale x \<ge> 1074 then word_of_nat (f64_significand x * 2 ^ (f64_scale x - 1074))
      else word_of_nat (f64_significand x div 2 ^ (1074 - f64_scale x)))"

definition f64_neg :: "f64_bits \<Rightarrow> f64_bits" where
  "f64_neg x = x XOR push_bit 63 1"

definition f64_add :: "f64_bits \<Rightarrow> f64_bits \<Rightarrow> f64_bits" where
  "f64_add x y =
     (if f64_nan x \<or> f64_nan y then F64_NAN
      else if f64_inf x \<and> f64_inf y \<and> x \<noteq> y then F64_NAN
      else if f64_inf x then x
      else if f64_inf y then y
      else let scale = min (f64_scale x) (f64_scale y); v = f64_value scale x + f64_value scale y in
        if v = 0 then f64_round (f64_negative x \<and> f64_negative y) 0 1 0
        else f64_round (v < 0) (nat \<bar>v\<bar>) 1 (int scale))"

definition f64_sub :: "f64_bits \<Rightarrow> f64_bits \<Rightarrow> f64_bits" where
  "f64_sub x y = (if f64_nan y then F64_NAN else f64_add x (f64_neg y))"

definition f64_mul :: "f64_bits \<Rightarrow> f64_bits \<Rightarrow> f64_bits" where
  "f64_mul x y =
     (let negative = (f64_negative x \<noteq> f64_negative y) in
      if f64_nan x \<or> f64_nan y then F64_NAN
      else if f64_inf x \<or> f64_inf y
        then (if f64_significand x = 0 \<or> f64_significand y = 0 then F64_NAN else f64_infinity negative)
      else f64_round negative (f64_significand x * f64_significand y) 1 (int (f64_scale x + f64_scale y) - 1074))"

definition f64_div :: "f64_bits \<Rightarrow> f64_bits \<Rightarrow> f64_bits" where
  \<comment> \<open>the dividend is scaled up so that the quotient of non-zero significands is not 0\<close>
  "f64_div x y =
     (let negative = (f64_negative x \<noteq> f64_negative y) in
      if f64_nan x \<or> f64_nan y \<or> (f64_inf x \<and> f64_inf y) then F64_NAN
      else if f64_inf x then f64_infinity negative
      else if f64_inf y then f64_round negative 0 1 0
      else if f64_significand y = 0 then (if f64_significand x = 0 then F64_NAN else f64_infinity negative)
      else f64_round negative (f64_significand x * 2 ^ 64) (f64_significand y)
             (int (f64_scale x) - int (f64_scale y) + 1074 - 64))"

definition f64_less :: "f64_bits \<Rightarrow> f64_bits \<Rightarrow> bool" where
  \<comment> \<open>the value read from an infinity exceeds that of every finite number\<close>
  "f64_less x y \<longleftrightarrow> \<not> f64_nan x \<and> \<not> f64_nan y
     \<and> (let scale = min (f64_scale x) (f64_scale y) in f64_value scale x < f64_value scale y)"

definition f64_max :: "f64_bits \<Rightarrow> f64_bits \<Rightarrow> f64_bits" where
  "f64_max x y = (if f64_nan x \<or> f64_less x y then y else x)"

section \<open>Literals\<close>

definition F64_0 :: f64_bits where "F64_0 = 0"
definition F64_0_001 :: f64_bits where "F64_0_001 = 0x3F50624DD2F1A9FC"
definition F64_250 :: f64_bits where "F64_250 = 0x406F400000000000"
definition F64_1000 :: f64_bits where "F64_1000 = 0x408F400000000000"

named_theorems f64_eval \<open>evaluation of an operation on bit patterns\<close>

lemmas f64_operations [f64_eval] = f64_of_u64_def f64_to_u64_def f64_neg_def f64_add_def f64_sub_def
  f64_mul_def f64_div_def f64_less_def f64_max_def f64_round_def round_half_even_def bit_length.simps
  short_length.simps f64_value_def f64_negative_def f64_nan_def f64_inf_def f64_significand_def f64_scale_def
  f64_exponent_def f64_fraction_def Let_def F64_0_def F64_0_001_def F64_250_def F64_1000_def F64_NAN_def

lemma f64_integer_examples:
  "f64_of_u64 1 = 0x3FF0000000000000" "f64_of_u64 1000 = F64_1000" "f64_of_u64 250 = F64_250"
  "f64_of_u64 (- 1) = 0x43F0000000000000" "f64_of_u64 0 = F64_0"
  "f64_to_u64 0x43F0000000000000 = - 1" "f64_to_u64 F64_250 = 250" "f64_to_u64 F64_0_001 = 0"
  by (simp_all add: f64_eval)

lemma f64_arithmetic_examples:
  "f64_div 0x3FF0000000000000 0x4008000000000000 = 0x3FD5555555555555"
  "f64_div 0x3FF0000000000000 F64_1000 = F64_0_001"
  "f64_add 0x3FB999999999999A 0x3FC999999999999A = 0x3FD3333333333334"
  "f64_mul 0x4008000000000000 0x4014000000000000 = 0x402E000000000000"
  "f64_sub 0x4008000000000000 0x4014000000000000 = 0xC000000000000000"
  "f64_less 0xC000000000000000 F64_0" "\<not> f64_less F64_0 (f64_neg F64_0)" "f64_max F64_0_001 F64_250 = F64_250"
  by (simp_all add: f64_eval)

end
