(* ===== verification/Scan_Model.thy ===== *)
theory Scan_Model
  imports Size_Tree_Totals F64
begin

text \<open>
  The view model of \<open>desktop/src/app.rs\<close>: what the worker's events make of the counters, the
  completion feed, the leaderboard of the largest files, the failure records, the size tree and the
  rate history. An event handler returns an option, \<open>None\<close> for a panic of the size tree. A
  \<open>VecDeque\<close> is a list with its front first; Unicode lower-casing is the argument \<open>lower\<close>.
\<close>

definition THROUGHPUT_HISTORY :: nat where "THROUGHPUT_HISTORY = 240"
definition RATE_SAMPLE_MS :: f64_bits where "RATE_SAMPLE_MS = F64_250"
definition TOP_LIMIT :: nat where "TOP_LIMIT = 100"
definition FAILURE_LIMIT :: nat where "FAILURE_LIMIT = 200"

section \<open>Data\<close>

datatype tab = Treemap | SunburstTab | GraphTab | Diagnostics

definition ALL_TABS :: "tab list" where
  "ALL_TABS = [Treemap, SunburstTab, GraphTab, Diagnostics]"

definition title :: "tab \<Rightarrow> string" where
  "title t = (case t of Treemap \<Rightarrow> ''Treemap'' | SunburstTab \<Rightarrow> ''Sunburst'' | GraphTab \<Rightarrow> ''Graph''
     | Diagnostics \<Rightarrow> ''Diagnostics'')"

record recent_directory =
  recent_id :: u32
  recent_state :: string
  recent_entries :: u64
  recent_children :: u64
  recent_error :: string

record sized_entry =
  entry_path :: string
  entry_bytes :: u64

record failed_directory =
  failed_id :: u32
  failed_path :: string
  failed_phase :: string
  failed_category :: string
  failed_reason :: string

record view_counters =
  c_elapsed_ms :: f64_bits
  c_entries_per_second :: f64_bits
  c_entries :: u64
  c_allocated_bytes :: u64
  c_directories_reserved :: u64
  c_directories_completed :: u64
  c_directories_published :: u64
  c_directories_failed :: u64
  c_directories_pending :: u64
  c_scheduler_pending :: u64
  c_in_flight :: u64
  c_regular_files :: u64
  c_directory_entries :: u64
  c_symlinks :: u64
  c_other :: u64
  c_metadata_errors :: u64
  c_skipped_mounts :: u64
  c_native_bytes :: u64
  c_block_bytes :: u64
  c_payload_bytes :: u64
  c_directory_table_bytes :: u64
  c_journal_bytes :: u64

definition default_counters :: view_counters where
  "default_counters = \<lparr>c_elapsed_ms = F64_0, c_entries_per_second = F64_0, c_entries = 0, c_allocated_bytes = 0, c_directories_reserved = 0, c_directories_completed = 0, c_directories_published = 0, c_directories_failed = 0, c_directories_pending = 0, c_scheduler_pending = 0, c_in_flight = 0, c_regular_files = 0, c_directory_entries = 0, c_symlinks = 0, c_other = 0, c_metadata_errors = 0, c_skipped_mounts = 0, c_native_bytes = 0, c_block_bytes = 0, c_payload_bytes = 0, c_directory_table_bytes = 0, c_journal_bytes = 0\<rparr>"

datatype notice_level = Info | ErrorLevel

record notice =
  notice_text :: string
  notice_level :: notice_level

record scan_model =
  root :: string
  phase :: string
  mount_text :: string
  concurrency :: "u32 option"
  counters :: view_counters
  recent :: "recent_directory list"
  throughput_history :: "u64 list"
  queue_history :: "u64 list"
  memory_history :: "u64 list"
  size_histogram :: size_histogram
  active_tab :: tab
  name_filter :: string
  notice :: "notice option"
  finished :: bool
  scan_complete :: bool
  outcome_text :: "string option"
  top_files :: "sized_entry list"
  tree :: size_tree
  focus :: u32
  selected :: "u32 option"
  failed_directories :: "failed_directory list"
  metadata_error_counts :: "(string \<times> u64) list"
  directory_failure_counts :: "(string \<times> u64) list"
  directory_failure_reasons :: "(string \<times> u64) list"
  recent_limit :: nat
  last_rate_sample :: "(f64_bits \<times> u64) option"

definition new_model :: "nat \<Rightarrow> scan_model" where
  "new_model limit =
     \<lparr>root = [], phase = ''starting'', mount_text = [], concurrency = None, counters = default_counters,
      recent = [], throughput_history = [], queue_history = [], memory_history = [],
      size_histogram = default_histogram, active_tab = Treemap, name_filter = [], notice = None,
      finished = False, scan_complete = False, outcome_text = None, top_files = [], tree = empty_tree,
      focus = 0, selected = None, failed_directories = [], metadata_error_counts = [],
      directory_failure_counts = [], directory_failure_reasons = [], recent_limit = limit,
      last_rate_sample = None\<rparr>"

section \<open>Text\<close>

definition mount_policy_text :: "mount_policy \<Rightarrow> string" where
  "mount_policy_text policy = (case policy of StayOnFilesystem \<Rightarrow> ''stay_on_filesystem'' | Cross \<Rightarrow> ''cross'')"

definition directory_state_text :: "directory_state \<Rightarrow> string" where
  "directory_state_text st = (case st of DirPending \<Rightarrow> ''pending'' | DirPublished \<Rightarrow> ''published'' | DirFailed \<Rightarrow> ''failed'')"

definition binary_text :: "encoded_binary \<Rightarrow> string" where
  "binary_text b = (case b of Utf8 v \<Rightarrow> v | Base64 v \<Rightarrow> ''<bytes:'' @ v @ ''>'')"

definition trim_end :: "char \<Rightarrow> string \<Rightarrow> string" where
  \<comment> \<open>\<open>str::trim_end_matches\<close>\<close>
  "trim_end c s = rev (dropWhile ((=) c) (rev s))"

definition join_path :: "string \<Rightarrow> string \<Rightarrow> string" where
  "join_path p name = (if p = ''/'' then ''/'' @ name else trim_end (CHR ''/'') p @ ''/'' @ name)"

section \<open>Names and paths\<close>

definition directory_name :: "scan_model \<Rightarrow> u32 \<Rightarrow> string" where
  "directory_name m i = (case tree_name (tree m) i of Some name \<Rightarrow> name | None \<Rightarrow> ''#'' @ show_nat (unat i))"

function grow_chain :: "size_tree \<Rightarrow> u32 list \<Rightarrow> u32 \<Rightarrow> u32 list" where
  \<comment> \<open>the \<open>while let\<close> loop of \<open>ancestor_chain\<close>\<close>
  "grow_chain t chain current =
     (case parent t current of
        None \<Rightarrow> chain
      | Some p \<Rightarrow>
          if MAX_DEPTH \<le> length chain \<or> p \<in> set chain then chain
          else grow_chain t (chain @ [p]) p)"
  by pat_completeness auto
termination by (relation "measure (\<lambda>(t, chain, current). MAX_DEPTH - length chain)") auto

declare grow_chain.simps [simp del]

definition ancestor_chain :: "scan_model \<Rightarrow> u32 \<Rightarrow> u32 list" where
  "ancestor_chain m i = rev (grow_chain (tree m) [i] i)"

definition ancestors :: "scan_model \<Rightarrow> u32 \<Rightarrow> (u32 \<times> string) list" where
  "ancestors m i = map (\<lambda>segment. (segment, directory_name m segment)) (ancestor_chain m i)"

fun join_names :: "string list \<Rightarrow> string" where
  \<comment> \<open>the loop of \<open>full_path\<close> over the names, the first of which starts the path\<close>
  "join_names [] = []"
| "join_names (name # names) = foldl join_path name names"

definition full_path :: "scan_model \<Rightarrow> u32 \<Rightarrow> string" where
  "full_path m i = join_names (map (directory_name m) (ancestor_chain m i))"

definition display_name :: "scan_model \<Rightarrow> u32 \<Rightarrow> string" where
  "display_name m i =
     (let name = directory_name m i;
          tail = rev (takeWhile ((\<noteq>) (CHR ''/'')) (rev name))
      in if tail = [] then name else tail)"

section \<open>The leaderboard\<close>

definition top_candidate :: "sized_entry list \<Rightarrow> u64 \<Rightarrow> bool" where
  "top_candidate board bytes \<longleftrightarrow> length board < TOP_LIMIT \<or> (board \<noteq> [] \<and> entry_bytes (last board) < bytes)"

definition merge_top :: "sized_entry list \<Rightarrow> sized_entry \<Rightarrow> sized_entry list" where
  \<comment> \<open>\<open>partition_point\<close> of a partitioned list is the length of the prefix that satisfies the test\<close>
  "merge_top board e =
     (if \<not> top_candidate board (entry_bytes e) then board
      else let position = length (takeWhile (\<lambda>x. entry_bytes e \<le> entry_bytes x) board)
        in take TOP_LIMIT (take position board @ e # drop position board))"

fun merge_files :: "string \<Rightarrow> largest_file list \<Rightarrow> sized_entry list \<Rightarrow> sized_entry list" where
  \<comment> \<open>the loop of \<open>add_directory\<close>, with its early \<open>break\<close>\<close>
  "merge_files path [] board = board"
| "merge_files path (f # fs) board =
     (if \<not> top_candidate board (file_size f) then board
      else merge_files path fs (merge_top board \<lparr>entry_path = join_path path (file_name f), entry_bytes = file_size f\<rparr>))"

section \<open>One directory\<close>

definition record_failure :: "directory_summary \<Rightarrow> scan_model \<Rightarrow> scan_model" where
  "record_failure d m =
     (if dir_state d = DirFailed \<and> length (failed_directories m) < FAILURE_LIMIT
         \<and> \<not> list_ex (\<lambda>f. failed_id f = dir_id d) (failed_directories m)
      then m\<lparr>failed_directories := failed_directories m @
        [\<lparr>failed_id = dir_id d, failed_path = full_path m (dir_id d), failed_phase = [], failed_category = [],
          failed_reason = dir_error d\<rparr>]\<rparr>
      else m)"

definition record_recent :: "directory_summary \<Rightarrow> scan_model \<Rightarrow> scan_model" where
  "record_recent d m =
     (if 0 < recent_limit m then m\<lparr>recent := take (recent_limit m)
        (\<lparr>recent_id = dir_id d, recent_state = directory_state_text (dir_state d), recent_entries = dir_entries d,
          recent_children = dir_children d, recent_error = dir_error d\<rparr> # recent m)\<rparr>
      else m)"

definition add_directory :: "directory_summary \<Rightarrow> scan_model \<Rightarrow> scan_model option" where
  "add_directory d m =
     map_option (\<lambda>t.
       let m = record_failure d (m\<lparr>tree := t\<rparr>);
           m = m\<lparr>top_files := merge_files (full_path m (dir_id d)) (dir_largest_files d) (top_files m)\<rparr>
       in record_recent d m)
     (tree_add d (tree m))"

fun add_directories :: "directory_summary list \<Rightarrow> scan_model \<Rightarrow> scan_model option" where
  "add_directories [] m = Some m"
| "add_directories (d # ds) m = Option.bind (add_directory d m) (add_directories ds)"

section \<open>The rate history\<close>

definition record_rate :: "f64_bits \<Rightarrow> u64 \<Rightarrow> u64 \<Rightarrow> u64 \<Rightarrow> scan_model \<Rightarrow> scan_model" where
  "record_rate elapsed rows queue native m =
     (case last_rate_sample m of
        None \<Rightarrow> m\<lparr>last_rate_sample := Some (elapsed, rows)\<rparr>
      | Some (window_start, window_count) \<Rightarrow>
          let delta = f64_sub elapsed window_start in
          if f64_less delta RATE_SAMPLE_MS then m
          else
            let delta_entries = sat_sub rows window_count;
                rate = f64_to_u64 (f64_max (f64_div (f64_of_u64 delta_entries) (f64_div delta F64_1000)) F64_0)
            in m\<lparr>throughput_history := take THROUGHPUT_HISTORY (rate # throughput_history m),
                 queue_history := take THROUGHPUT_HISTORY (queue # queue_history m),
                 memory_history := take THROUGHPUT_HISTORY (native # memory_history m),
                 last_rate_sample := Some (elapsed, rows)\<rparr>)"

section \<open>Events\<close>

definition update_counters :: "index_status_record \<Rightarrow> f64_bits \<Rightarrow> u64 \<Rightarrow> view_counters" where
  "update_counters status elapsed allocated =
     (let store = status_store status; cnt = status_counters status in
      \<lparr>c_elapsed_ms = elapsed,
       c_entries_per_second = f64_div (f64_of_u64 (store_entry_count store)) (f64_max (f64_div elapsed F64_1000) F64_0_001),
       c_entries = store_entry_count store,
       c_allocated_bytes = allocated,
       c_directories_reserved = directory_count store,
       c_directories_completed = completion_count store,
       c_directories_published = published_directory_count store,
       c_directories_failed = failed_directory_count store,
       c_directories_pending = pending_directory_count store,
       c_scheduler_pending = status_pending status,
       c_in_flight = status_in_flight status,
       c_regular_files = cnt_regular_files cnt,
       c_directory_entries = cnt_directories cnt,
       c_symlinks = cnt_symlinks cnt,
       c_other = cnt_other cnt,
       c_metadata_errors = cnt_metadata_errors cnt,
       c_skipped_mounts = cnt_skipped_mounts cnt,
       c_native_bytes = native_bytes store,
       c_block_bytes = block_bytes store,
       c_payload_bytes = payload_bytes store,
       c_directory_table_bytes = directory_table_bytes store,
       c_journal_bytes = completion_journal_bytes store\<rparr>)"

definition report_counters :: "scan_report \<Rightarrow> u64 \<Rightarrow> view_counters" where
  "report_counters rep allocated =
     (let store = report_store rep in
      \<lparr>c_elapsed_ms = report_elapsed_ms rep,
       c_entries_per_second = f64_div (f64_of_u64 (report_entries rep)) (f64_max (f64_div (report_elapsed_ms rep) F64_1000) F64_0_001),
       c_entries = report_entries rep,
       c_allocated_bytes = allocated,
       c_directories_reserved = directory_count store,
       c_directories_completed = completion_count store,
       c_directories_published = published_directory_count store,
       c_directories_failed = failed_directory_count store,
       c_directories_pending = pending_directory_count store,
       c_scheduler_pending = 0,
       c_in_flight = 0,
       c_regular_files = report_regular_files rep,
       c_directory_entries = report_directories rep,
       c_symlinks = report_symlinks rep,
       c_other = report_other rep,
       c_metadata_errors = report_metadata_errors rep,
       c_skipped_mounts = report_skipped_mounts rep,
       c_native_bytes = native_bytes store,
       c_block_bytes = block_bytes store,
       c_payload_bytes = payload_bytes store,
       c_directory_table_bytes = directory_table_bytes store,
       c_journal_bytes = completion_journal_bytes store\<rparr>)"

fun put_failure :: "failed_directory \<Rightarrow> failed_directory list \<Rightarrow> failed_directory list" where
  \<comment> \<open>replaces the record with the same id, or appends\<close>
  "put_failure f [] = [f]"
| "put_failure f (x # xs) = (if failed_id x = failed_id f then f # xs else x # put_failure f xs)"

definition sample_failure :: "directory_failure \<Rightarrow> failed_directory option" where
  "sample_failure sample =
     (if unat (failure_id sample) < 2 ^ 32
      then Some \<lparr>failed_id = ucast (failure_id sample), failed_path = binary_text (failure_path sample),
             failed_phase = failure_phase sample, failed_category = failure_category sample,
             failed_reason = failure_reason sample\<rparr>
      else None)"

fun merge_samples :: "directory_failure list \<Rightarrow> failed_directory list \<Rightarrow> failed_directory list" where
  "merge_samples [] known = known"
| "merge_samples (s # ss) known =
     merge_samples ss (case sample_failure s of None \<Rightarrow> known | Some f \<Rightarrow> put_failure f known)"

definition incomplete_text :: string where
  "incomplete_text = ''The index is incomplete '' @ string_of_bytes [0xE2, 0x80, 0x94]
     @ '' see Diagnostics for failure details.''"

definition result_notice :: "scan_result \<Rightarrow> notice option \<Rightarrow> notice option" where
  "result_notice result old =
     (case result_failure result of
        Some f \<Rightarrow> Some \<lparr>notice_text = scan_failure_kind f @ '': '' @ scan_failure_reason f, notice_level = ErrorLevel\<rparr>
      | None \<Rightarrow> if \<not> report_complete (result_report result)
          then Some \<lparr>notice_text = incomplete_text, notice_level = Info\<rparr> else old)"

definition apply_event :: "backend_event \<Rightarrow> scan_model \<Rightarrow> scan_model option" where
  "apply_event event m =
     (case event of
        Started event_root conc policy \<Rightarrow>
          Some (m\<lparr>root := event_root, concurrency := conc, mount_text := mount_policy_text policy, phase := ''running''\<rparr>)
      | Update status elapsed allocated ds histogram \<Rightarrow>
          Option.bind (add_directories ds m) (\<lambda>m.
          Option.bind (finish_batch (tree m)) (\<lambda>t.
            let m = m\<lparr>tree := t, size_histogram := histogram,
                      phase := (case status_state status of Running \<Rightarrow> ''running'' | Finished \<Rightarrow> ''finishing'')\<rparr>;
                m = record_rate elapsed (store_entry_count (status_store status))
                      (status_pending status + status_in_flight status) (native_bytes (status_store status)) m
            in Some (m\<lparr>counters := update_counters status elapsed allocated,
                       metadata_error_counts := cnt_metadata_error_counts (status_counters status),
                       directory_failure_counts := cnt_directory_failure_counts (status_counters status),
                       directory_failure_reasons := cnt_directory_failure_reasons (status_counters status)\<rparr>)))
      | FinishedEvent result allocated \<Rightarrow>
          let rep = result_report result in
          Some (m\<lparr>finished := True, scan_complete := report_complete rep,
            outcome_text := Some (case result_outcome result of OutcomeOk \<Rightarrow> ''ok'' | OutcomeFatal \<Rightarrow> ''fatal''),
            phase := (if result_outcome result = OutcomeFatal then ''fatal''
                      else if report_complete rep then ''complete'' else ''incomplete''),
            counters := report_counters rep allocated,
            metadata_error_counts := report_metadata_error_counts rep,
            directory_failure_counts := report_directory_failure_counts rep,
            directory_failure_reasons := report_directory_failure_reasons rep,
            failed_directories := take FAILURE_LIMIT
              (merge_samples (directory_failure_samples rep) (failed_directories m)),
            notice := result_notice result (notice m)\<rparr>)
      | ErrorEvent e \<Rightarrow>
          Some (m\<lparr>phase := (if finished m then phase m else ''disconnected''),
            notice := Some \<lparr>notice_text = e, notice_level = ErrorLevel\<rparr>\<rparr>))"

fun apply_events :: "backend_event list \<Rightarrow> scan_model \<Rightarrow> scan_model option" where
  "apply_events [] m = Some m"
| "apply_events (e # es) m = Option.bind (apply_event e m) (apply_events es)"

section \<open>Views\<close>

fun contains :: "string \<Rightarrow> string \<Rightarrow> bool" where
  \<comment> \<open>\<open>str::contains\<close>: some suffix starts with the needle\<close>
  "contains [] needle = (needle = [])"
| "contains (c # s) needle = (take (length needle) (c # s) = needle \<or> contains s needle)"

definition filtered_recent :: "(string \<Rightarrow> string) \<Rightarrow> scan_model \<Rightarrow> (recent_directory \<times> string) list" where
  "filtered_recent lower m =
     (let needle = lower (name_filter m) in
      filter (\<lambda>(d, path). needle = [] \<or> contains (lower path) needle)
        (map (\<lambda>d. (d, full_path m (recent_id d))) (recent m)))"

definition focus_directory :: "u32 \<Rightarrow> scan_model \<Rightarrow> scan_model" where
  "focus_directory i m = m\<lparr>focus := i, selected := None\<rparr>"

definition inspected :: "scan_model \<Rightarrow> u32" where
  "inspected m = (case selected m of Some i \<Rightarrow> i | None \<Rightarrow> focus m)"

definition children_by_size :: "scan_model \<Rightarrow> u32 \<Rightarrow> u32 list" where
  "children_by_size m i = takeWhile (\<lambda>c. 0 < subtree_bytes (tree m) c) (children (tree m) i)"

definition set_filter :: "string \<Rightarrow> scan_model \<Rightarrow> scan_model" where
  "set_filter text m = m\<lparr>name_filter := text\<rparr>"

end
