(* ===== verification/Leaderboard.thy ===== *)
theory Leaderboard
  imports Scan_Model
begin

text \<open>
  Bounded leaderboards: a locale states what an insertion into a descending list of bounded length
  has to do, and gives that the list always holds the largest entries of everything offered, ties in
  the order of their arrival. \<open>merge_top\<close> is an instance; the early exit of \<open>merge_files\<close> loses nothing
  when the offered files are in descending order.
\<close>

section \<open>Inserting into a descending list\<close>

definition rank_key :: "('a \<Rightarrow> u64) \<Rightarrow> 'a \<Rightarrow> int" where
  "rank_key key x = - int (unat (key x))"

definition descends :: "('a \<Rightarrow> u64) \<Rightarrow> 'a list \<Rightarrow> bool" where
  "descends key xs \<longleftrightarrow> sorted_wrt (\<lambda>a b. key b \<le> key a) xs"

definition ranked_insert :: "('a \<Rightarrow> u64) \<Rightarrow> 'a \<Rightarrow> 'a list \<Rightarrow> 'a list" where
  "ranked_insert key e xs =
     takeWhile (\<lambda>x. key e \<le> key x) xs @ e # dropWhile (\<lambda>x. key e \<le> key x) xs"

definition largest_first :: "('a \<Rightarrow> u64) \<Rightarrow> 'a list \<Rightarrow> 'a list" where
  \<comment> \<open>the entries in descending order, equal ones in the order given\<close>
  "largest_first key xs = sort_key (rank_key key) xs"

lemma rank_key_le: "rank_key key a \<le> rank_key key b \<longleftrightarrow> key b \<le> key a"
  by (simp add: rank_key_def word_le_def)

lemma rank_key_eq: "rank_key key a = rank_key key b \<longleftrightarrow> key a = key b"
  unfolding rank_key_def by (metis neg_equal_iff_equal of_nat_eq_iff word_unat_eq_iff)

lemma descends_sorted: "descends key xs \<longleftrightarrow> sorted (map (rank_key key) xs)"
  by (simp add: descends_def sorted_map rank_key_le)

lemma descends_largest_first: "descends key (largest_first key xs)"
  by (simp add: descends_sorted largest_first_def)

lemma descends_take: "descends key xs \<Longrightarrow> descends key (take n xs)"
  by (simp add: descends_def sorted_wrt_take)

lemma dropWhile_smaller:
  assumes "descends key xs" "x \<in> set (dropWhile (\<lambda>x. key e \<le> key x) xs)"
  shows "key x < key e"
  using assms
proof (induction xs)
  case (Cons a xs)
  show ?case
  proof (cases "key e \<le> key a")
    case True
    then show ?thesis using Cons by (simp add: descends_def)
  next
    case False
    then have "x = a \<or> key x \<le> key a" using Cons.prems by (auto simp: descends_def)
    then show ?thesis using False by auto
  qed
qed simp

lemma descends_ranked_insert:
  assumes "descends key xs"
  shows "descends key (ranked_insert key e xs)"
proof -
  let ?t = "takeWhile (\<lambda>x. key e \<le> key x) xs" and ?d = "dropWhile (\<lambda>x. key e \<le> key x) xs"
  have t: "x \<in> set ?t \<Longrightarrow> key e \<le> key x" for x
    by (rule set_takeWhileD [THEN conjunct2])
  have d: "x \<in> set ?d \<Longrightarrow> key x \<le> key e" for x
    using dropWhile_smaller [OF assms] less_imp_le by blast
  have all: "sorted_wrt (\<lambda>a b. key b \<le> key a) (?t @ ?d)"
    using assms unfolding takeWhile_dropWhile_id descends_def .
  have s: "sorted_wrt (\<lambda>a b. key b \<le> key a) ?t" "sorted_wrt (\<lambda>a b. key b \<le> key a) ?d"
    "\<forall>x \<in> set ?t. \<forall>y \<in> set ?d. key y \<le> key x"
    using all [unfolded sorted_wrt_append] by blast+
  have "sorted_wrt (\<lambda>a b. key b \<le> key a) (e # ?d)"
    unfolding sorted_wrt.simps using s(2) d by blast
  moreover have "\<forall>x \<in> set ?t. \<forall>y \<in> set (e # ?d). key y \<le> key x"
    unfolding list.set using s(3) t by blast
  ultimately show ?thesis
    unfolding descends_def ranked_insert_def using s(1) by (rule_tac sorted_wrt_append [THEN iffD2]) blast
qed

lemma largest_first_snoc: "largest_first key (xs @ [e]) = ranked_insert key e (largest_first key xs)"
  unfolding largest_first_def
proof (rule properties_for_sort_key)
  let ?s = "sort_key (rank_key key) xs"
  have d: "descends key ?s" using descends_largest_first [of key xs] by (simp add: largest_first_def)
  have split: "mset ?s = mset (takeWhile (\<lambda>x. key e \<le> key x) ?s) + mset (dropWhile (\<lambda>x. key e \<le> key x) ?s)"
    by (metis mset_append takeWhile_dropWhile_id)
  then show "mset (ranked_insert key e ?s) = mset (xs @ [e])"
    by (simp add: ranked_insert_def)
  show "sorted (map (rank_key key) (ranked_insert key e ?s))"
    using descends_ranked_insert [OF d] by (simp add: descends_sorted)
  fix k
  let ?P = "\<lambda>x. rank_key key k = rank_key key x"
  have "filter ?P (takeWhile (\<lambda>x. key e \<le> key x) ?s) @ filter ?P (dropWhile (\<lambda>x. key e \<le> key x) ?s) = filter ?P ?s"
    by (metis filter_append takeWhile_dropWhile_id)
  also have "\<dots> = filter ?P xs"
    using sort_key_stable [of "rank_key key" "rank_key key k" xs] by (simp add: eq_commute)
  finally have f: "filter ?P (takeWhile (\<lambda>x. key e \<le> key x) ?s) @ filter ?P (dropWhile (\<lambda>x. key e \<le> key x) ?s) = filter ?P xs" .
  show "filter ?P (ranked_insert key e ?s) = filter ?P (xs @ [e])"
  proof (cases "?P e")
    case True
    have "filter ?P (dropWhile (\<lambda>x. key e \<le> key x) ?s) = []"
      unfolding filter_empty_conv
    proof
      fix x
      assume "x \<in> set (dropWhile (\<lambda>x. key e \<le> key x) ?s)"
      then have "key x < key e" by (rule dropWhile_smaller [OF d])
      then show "\<not> ?P x" using True by (simp add: rank_key_eq)
    qed
    then show ?thesis using f True by (simp add: ranked_insert_def)
  next
    case False
    then show ?thesis using f by (simp add: ranked_insert_def)
  qed
qed

lemma take_ranked_insert: "take n (ranked_insert key e (take n xs)) = take n (ranked_insert key e xs)"
  unfolding ranked_insert_def
proof (induction xs arbitrary: n)
  case (Cons x xs)
  show ?case
  proof (cases n)
    case (Suc k)
    show ?thesis
    proof (cases "key e \<le> key x")
      case True
      then show ?thesis using Suc Cons by simp
    next
      case False
      then show ?thesis using Suc by (cases k) simp_all
    qed
  qed simp
qed simp

lemma ranked_insert_full:
  assumes "descends key xs" "xs \<noteq> []" "key e \<le> key (last xs)"
  shows "ranked_insert key e xs = xs @ [e]"
proof -
  have "key e \<le> key x" if "x \<in> set xs" for x
  proof -
    have xs: "xs = butlast xs @ [last xs]" using assms(2) by simp
    then have "\<forall>x \<in> set (butlast xs). key (last xs) \<le> key x"
      using assms(1) unfolding descends_def by (metis list.set_intros(1) sorted_wrt_append)
    then have "key (last xs) \<le> key x" using that xs by (metis Un_iff order_refl set_append empty_iff list.set set_ConsD)
    then show ?thesis using assms(3) by simp
  qed
  then show ?thesis by (simp add: ranked_insert_def takeWhile_eq_all_conv [THEN iffD2] dropWhile_eq_Nil_conv [THEN iffD2])
qed

section \<open>The interface\<close>

locale leaderboard =
  fixes key :: "'a \<Rightarrow> u64" and limit :: nat and put :: "'a list \<Rightarrow> 'a \<Rightarrow> 'a list"
  assumes put_ranked: "\<lbrakk>descends key board; length board \<le> limit\<rbrakk>
    \<Longrightarrow> put board e = take limit (ranked_insert key e board)"
begin

lemma put_best:
  "put (take limit (largest_first key xs)) e = take limit (largest_first key (xs @ [e]))"
  by (simp add: put_ranked descends_take descends_largest_first largest_first_snoc take_ranked_insert)

lemma put_all_best:
  "foldl put (take limit (largest_first key xs)) es = take limit (largest_first key (xs @ es))"
proof (induction es arbitrary: xs)
  case (Cons e es)
  then show ?case using Cons [of "xs @ [e]"] by (simp add: put_best)
qed simp

end

lemma merge_top_ranked:
  assumes "descends entry_bytes board" "length board \<le> TOP_LIMIT"
  shows "merge_top board e = take TOP_LIMIT (ranked_insert entry_bytes e board)"
proof (cases "top_candidate board (entry_bytes e)")
  case True
  let ?P = "\<lambda>x. entry_bytes e \<le> entry_bytes x"
  have "take (length (takeWhile ?P board)) board = takeWhile ?P board"
    "drop (length (takeWhile ?P board)) board = dropWhile ?P board"
    by (metis append_eq_conv_conj takeWhile_dropWhile_id)+
  then show ?thesis using True unfolding merge_top_def ranked_insert_def Let_def by metis
next
  case False
  then have "length board = TOP_LIMIT" "board \<noteq> []" "entry_bytes e \<le> entry_bytes (last board)"
    using assms(2) by (auto simp: top_candidate_def TOP_LIMIT_def)
  then show ?thesis
    using False ranked_insert_full [OF assms(1), of e] by (simp add: merge_top_def)
qed

interpretation top_files: leaderboard entry_bytes TOP_LIMIT merge_top
  by unfold_locales (rule merge_top_ranked)

section \<open>The files of a directory\<close>

definition file_entry :: "string \<Rightarrow> largest_file \<Rightarrow> sized_entry" where
  "file_entry path f = \<lparr>entry_path = join_path path (file_name f), entry_bytes = file_size f\<rparr>"

lemma merge_top_refused: "\<not> top_candidate board (entry_bytes e) \<Longrightarrow> merge_top board e = board"
  by (simp add: merge_top_def)

lemma not_candidate_mono: "\<not> top_candidate board b \<Longrightarrow> c \<le> b \<Longrightarrow> \<not> top_candidate board c"
  by (auto simp: top_candidate_def)

lemma merge_top_refused_all:
  "\<lbrakk>\<not> top_candidate board b; \<forall>f \<in> set fs. file_size f \<le> b\<rbrakk> \<Longrightarrow>
     foldl merge_top board (map (file_entry path) fs) = board"
proof (induction fs)
  case (Cons f fs)
  then have "\<not> top_candidate board (file_size f)" by (auto dest: not_candidate_mono)
  then show ?case using Cons by (simp add: merge_top_refused file_entry_def)
qed simp

lemma merge_files_foldl:
  "descends file_size fs \<Longrightarrow> merge_files path fs board = foldl merge_top board (map (file_entry path) fs)"
proof (induction fs arbitrary: board)
  case (Cons f fs)
  then have le: "\<forall>g \<in> set (f # fs). file_size g \<le> file_size f" by (simp add: descends_def)
  show ?case
  proof (cases "top_candidate board (file_size f)")
    case True
    then show ?thesis using Cons by (simp add: descends_def file_entry_def)
  next
    case False
    then show ?thesis using merge_top_refused_all [OF False le, of path] by simp
  qed
qed simp

lemma merge_files_best:
  "descends file_size fs \<Longrightarrow>
     merge_files path fs (take TOP_LIMIT (largest_first entry_bytes xs))
       = take TOP_LIMIT (largest_first entry_bytes (xs @ map (file_entry path) fs))"
  by (simp add: merge_files_foldl top_files.put_all_best)

end
