(* ===== verification/Scan_Props.thy ===== *)
theory Scan_Props
  imports Leaderboard
begin

text \<open>
  Properties of the view model over whole sequences of worker events: its invariant, the
  leaderboard, the feed of recent directories, the visible children and the reconstructed paths.
\<close>

section \<open>The invariant\<close>

definition histories_ok :: "scan_model \<Rightarrow> bool" where
  "histories_ok m \<longleftrightarrow> length (throughput_history m) \<le> THROUGHPUT_HISTORY
     \<and> length (queue_history m) = length (throughput_history m)
     \<and> length (memory_history m) = length (throughput_history m)"

definition failures_ok :: "scan_model \<Rightarrow> bool" where
  "failures_ok m \<longleftrightarrow> distinct (map failed_id (failed_directories m))
     \<and> length (failed_directories m) \<le> FAILURE_LIMIT"

definition board_ok :: "scan_model \<Rightarrow> bool" where
  "board_ok m \<longleftrightarrow> descends entry_bytes (top_files m) \<and> length (top_files m) \<le> TOP_LIMIT"

definition lists_ok :: "scan_model \<Rightarrow> bool" where
  "lists_ok m \<longleftrightarrow> histories_ok m \<and> failures_ok m \<and> board_ok m \<and> length (recent m) \<le> recent_limit m"

definition model_ok :: "scan_model \<Rightarrow> bool" where
  "model_ok m \<longleftrightarrow> tree_ok (tree m) \<and> (\<forall>i. descending (tree m) (children (tree m) i)) \<and> lists_ok m"

definition summary_ok :: "directory_summary \<Rightarrow> bool" where
  "summary_ok d \<longleftrightarrow> dir_parent_id d \<noteq> Some NO_PARENT \<and> descends file_size (dir_largest_files d)"

definition event_dirs :: "backend_event \<Rightarrow> directory_summary list" where
  "event_dirs e = (case e of Update _ _ _ ds _ \<Rightarrow> ds | _ \<Rightarrow> [])"

lemma model_ok_new: "model_ok (new_model limit)"
  by (simp add: model_ok_def new_model_def tree_ok_empty descending_empty lists_ok_def histories_ok_def
      failures_ok_def board_ok_def descends_def)

lemma merge_top_ok:
  "descends entry_bytes board \<Longrightarrow> length board \<le> TOP_LIMIT \<Longrightarrow>
     descends entry_bytes (merge_top board e) \<and> length (merge_top board e) \<le> TOP_LIMIT"
  by (simp add: merge_top_ranked descends_take descends_ranked_insert)

lemma merge_files_ok:
  "descends entry_bytes board \<Longrightarrow> length board \<le> TOP_LIMIT \<Longrightarrow>
     descends entry_bytes (merge_files path fs board) \<and> length (merge_files path fs board) \<le> TOP_LIMIT"
  by (induction path fs board rule: merge_files.induct) (simp_all add: merge_top_ok)

lemma record_failure_keeps:
  "tree (record_failure d m) = tree m" "top_files (record_failure d m) = top_files m"
  "recent (record_failure d m) = recent m" "recent_limit (record_failure d m) = recent_limit m"
  "histories_ok (record_failure d m) = histories_ok m"
  by (simp_all add: record_failure_def histories_ok_def)

lemma record_failure_ok: "failures_ok m \<Longrightarrow> failures_ok (record_failure d m)"
  by (auto simp: record_failure_def failures_ok_def list_ex_iff)

lemma record_recent_keeps:
  "tree (record_recent d m) = tree m" "top_files (record_recent d m) = top_files m"
  "recent_limit (record_recent d m) = recent_limit m" "failed_directories (record_recent d m) = failed_directories m"
  "histories_ok (record_recent d m) = histories_ok m"
  by (simp_all add: record_recent_def histories_ok_def)

lemma add_directory_lists:
  assumes "add_directory d m = Some m'" "lists_ok m"
  shows "lists_ok m'"
proof -
  obtain t where m': "m' = (let m = record_failure d (m\<lparr>tree := t\<rparr>);
           m = m\<lparr>top_files := merge_files (full_path m (dir_id d)) (dir_largest_files d) (top_files m)\<rparr>
       in record_recent d m)"
    using assms(1) by (auto simp: add_directory_def)
  let ?m = "record_failure d (m\<lparr>tree := t\<rparr>)"
  have "failures_ok (m\<lparr>tree := t\<rparr>)" using assms(2) by (simp add: lists_ok_def failures_ok_def)
  then have f: "failures_ok ?m" by (rule record_failure_ok)
  have "histories_ok (m\<lparr>tree := t\<rparr>)" using assms(2) by (simp add: lists_ok_def histories_ok_def)
  then have h: "histories_ok ?m" by (simp add: record_failure_keeps)
  have b: "descends entry_bytes (top_files ?m)" "length (top_files ?m) \<le> TOP_LIMIT"
    using assms(2) by (simp_all add: record_failure_keeps lists_ok_def board_ok_def)
  have r: "length (recent ?m) \<le> recent_limit ?m" using assms(2) by (simp add: record_failure_keeps lists_ok_def)
  show ?thesis
    using f h r merge_files_ok [OF b]
    unfolding m' Let_def
    by (auto simp: lists_ok_def failures_ok_def board_ok_def record_recent_keeps record_recent_def histories_ok_def)
qed

lemma add_directory_tree: "add_directory d m = Some m' \<Longrightarrow> tree_add d (tree m) = Some (tree m')"
  by (auto simp: add_directory_def Let_def record_recent_keeps record_failure_keeps)

lemma add_directories_tree: "add_directories ds m = Some m' \<Longrightarrow> tree_add_all ds (tree m) = Some (tree m')"
  by (induction ds arbitrary: m) (auto simp: bind_eq_Some_conv dest!: add_directory_tree)

lemma add_directories_lists: "add_directories ds m = Some m' \<Longrightarrow> lists_ok m \<Longrightarrow> lists_ok m'"
  by (induction ds arbitrary: m) (auto simp: bind_eq_Some_conv dest: add_directory_lists)

lemma add_directory_Some: "tree_add d (tree m) = Some t \<Longrightarrow> \<exists>m'. add_directory d m = Some m' \<and> tree m' = t"
  by (auto simp: add_directory_def Let_def record_recent_keeps record_failure_keeps)

lemma add_directories_Some: "tree_add_all ds (tree m) = Some t \<Longrightarrow> \<exists>m'. add_directories ds m = Some m' \<and> tree m' = t"
proof (induction ds arbitrary: m)
  case (Cons d ds)
  then obtain t1 where t1: "tree_add d (tree m) = Some t1" "tree_add_all ds t1 = Some t" by (auto simp: bind_eq_Some_conv)
  from add_directory_Some [OF t1(1)] obtain m1 where "add_directory d m = Some m1" "tree m1 = t1" by blast
  with Cons.IH [of m1] t1(2) show ?case by simp
qed simp

lemma record_rate_keeps:
  "tree (record_rate a b c d m) = tree m" "top_files (record_rate a b c d m) = top_files m"
  "recent (record_rate a b c d m) = recent m" "recent_limit (record_rate a b c d m) = recent_limit m"
  "failed_directories (record_rate a b c d m) = failed_directories m"
  by (simp_all add: record_rate_def Let_def split: option.splits prod.splits)

lemma record_rate_histories: "histories_ok m \<Longrightarrow> histories_ok (record_rate a b c d m)"
  by (auto simp: record_rate_def histories_ok_def Let_def split: option.splits prod.splits)

lemma put_failure_ids: "map failed_id (put_failure f xs)
    = (if failed_id f \<in> failed_id ` set xs then map failed_id xs else map failed_id xs @ [failed_id f])"
  by (induction xs) auto

lemma merge_samples_distinct: "distinct (map failed_id known) \<Longrightarrow> distinct (map failed_id (merge_samples ss known))"
  by (induction ss known rule: merge_samples.induct) (auto simp: put_failure_ids image_iff split: option.splits)

lemma apply_event_lists:
  assumes "apply_event e m = Some m'" "lists_ok m"
  shows "lists_ok m'"
proof (cases e)
  case (Update status elapsed allocated ds histogram)
  with assms(1) obtain m1 t where "add_directories ds m = Some m1" "finish_batch (tree m1) = Some t"
    and m': "m' = (record_rate elapsed (store_entry_count (status_store status))
                      (status_pending status + status_in_flight status) (native_bytes (status_store status))
                      (m1\<lparr>tree := t, size_histogram := histogram,
                      phase := (case status_state status of Running \<Rightarrow> ''running'' | Finished \<Rightarrow> ''finishing'')\<rparr>))
                  \<lparr>counters := update_counters status elapsed allocated,
                       metadata_error_counts := cnt_metadata_error_counts (status_counters status),
                       directory_failure_counts := cnt_directory_failure_counts (status_counters status),
                       directory_failure_reasons := cnt_directory_failure_reasons (status_counters status)\<rparr>"
    by (auto simp: apply_event_def bind_eq_Some_conv Let_def)
  then have "lists_ok m1" using add_directories_lists assms(2) by blast
  then show ?thesis
    using record_rate_histories [of "m1\<lparr>tree := t, size_histogram := histogram,
                      phase := (case status_state status of Running \<Rightarrow> ''running'' | Finished \<Rightarrow> ''finishing'')\<rparr>"]
    unfolding m' by (simp add: lists_ok_def failures_ok_def board_ok_def record_rate_keeps histories_ok_def)
next
  case (FinishedEvent result allocated)
  then show ?thesis
    using assms merge_samples_distinct [of "failed_directories m" "directory_failure_samples (result_report result)"]
    by (auto simp: apply_event_def Let_def lists_ok_def failures_ok_def board_ok_def histories_ok_def take_map
        dest: distinct_take)
qed (use assms in \<open>auto simp: apply_event_def lists_ok_def failures_ok_def board_ok_def histories_ok_def\<close>)

lemma apply_event_tree:
  "apply_event e m = Some m' \<Longrightarrow>
     (case e of Update _ _ _ ds _ \<Rightarrow> tree_batch ds (tree m) = Some (tree m') | _ \<Rightarrow> tree m' = tree m)"
  by (cases e) (auto simp: apply_event_def bind_eq_Some_conv Let_def record_rate_keeps tree_batch_def
      dest!: add_directories_tree)

lemma apply_event_Some:
  assumes "tree_ok (tree m)" "\<forall>d \<in> set (event_dirs e). dir_parent_id d \<noteq> Some NO_PARENT"
  shows "\<exists>m'. apply_event e m = Some m'"
proof (cases e)
  case (Update status elapsed allocated ds histogram)
  then have "\<forall>d \<in> set ds. dir_parent_id d \<noteq> Some NO_PARENT" using assms(2) by (simp add: event_dirs_def)
  from tree_add_all_ok [OF assms(1) this] obtain t where t: "tree_add_all ds (tree m) = Some t" "tree_ok t" by blast
  from add_directories_Some [OF t(1)] obtain m1 where "add_directories ds m = Some m1" "tree m1 = t" by blast
  moreover obtain t' where "finish_batch t = Some t'" using finish_batch_view [OF t(2)] by blast
  ultimately show ?thesis using Update by (simp add: apply_event_def Let_def)
qed (simp_all add: apply_event_def Let_def)

lemma apply_event_ok:
  assumes "model_ok m" "\<forall>d \<in> set (event_dirs e). dir_parent_id d \<noteq> Some NO_PARENT"
  shows "\<exists>m'. apply_event e m = Some m' \<and> model_ok m'"
proof -
  have ok: "tree_ok (tree m)" and des: "\<forall>i. descending (tree m) (children (tree m) i)" and li: "lists_ok m"
    using assms(1) by (simp_all add: model_ok_def)
  from apply_event_Some [OF ok assms(2)] obtain m' where m': "apply_event e m = Some m'" by blast
  have "tree_ok (tree m') \<and> (\<forall>i. descending (tree m') (children (tree m') i))"
  proof (cases "\<exists>status elapsed allocated ds histogram. e = Update status elapsed allocated ds histogram")
    case True
    then obtain ds where ds: "tree_batch ds (tree m) = Some (tree m')" "event_dirs e = ds"
      using apply_event_tree [OF m'] by (auto simp: event_dirs_def)
    from tree_add_all_ok [OF ok] assms(2) ds(2) obtain t where t: "tree_add_all ds (tree m) = Some t" "tree_ok t" by blast
    with ds(1) have "finish_batch t = Some (tree m')" by (simp add: tree_batch_def)
    then show ?thesis using finish_batch_view [OF t(2)] by auto
  next
    case False
    then have "tree m' = tree m" using apply_event_tree [OF m'] by (cases e) auto
    then show ?thesis using ok des by simp
  qed
  then show ?thesis using m' apply_event_lists [OF m' li] by (auto simp: model_ok_def)
qed

lemma apply_events_ok:
  "\<lbrakk>model_ok m; \<forall>e \<in> set es. \<forall>d \<in> set (event_dirs e). dir_parent_id d \<noteq> Some NO_PARENT\<rbrakk> \<Longrightarrow>
     \<exists>m'. apply_events es m = Some m' \<and> model_ok m'"
proof (induction es arbitrary: m)
  case (Cons e es)
  from apply_event_ok [of m e] Cons.prems obtain m1 where "apply_event e m = Some m1" "model_ok m1" by auto
  with Cons.IH [of m1] Cons.prems show ?case by simp
qed simp


section \<open>The leaderboard over a whole scan\<close>

fun offered_dirs :: "directory_summary list \<Rightarrow> scan_model \<Rightarrow> sized_entry list" where
  \<comment> \<open>every candidate file of the summaries, with the path its directory has when it is added\<close>
  "offered_dirs [] m = []"
| "offered_dirs (d # ds) m =
     (case add_directory d m of
        None \<Rightarrow> []
      | Some m' \<Rightarrow> map (file_entry (full_path m' (dir_id d))) (dir_largest_files d) @ offered_dirs ds m')"

fun offered :: "backend_event list \<Rightarrow> scan_model \<Rightarrow> sized_entry list" where
  "offered [] m = []"
| "offered (e # es) m = offered_dirs (event_dirs e) m @ (case apply_event e m of None \<Rightarrow> [] | Some m' \<Rightarrow> offered es m')"

lemma full_path_tree: "tree m = tree m' \<Longrightarrow> full_path m i = full_path m' i"
  by (simp add: full_path_def ancestor_chain_def directory_name_def [abs_def])

lemma add_directory_board:
  assumes "add_directory d m = Some m'"
  shows "top_files m' = merge_files (full_path m' (dir_id d)) (dir_largest_files d) (top_files m)"
proof -
  obtain t where t: "m' = (let m = record_failure d (m\<lparr>tree := t\<rparr>);
           m = m\<lparr>top_files := merge_files (full_path m (dir_id d)) (dir_largest_files d) (top_files m)\<rparr>
       in record_recent d m)"
    using assms by (auto simp: add_directory_def)
  then have "full_path m' i = full_path (record_failure d (m\<lparr>tree := t\<rparr>)) i" for i
    by (intro full_path_tree) (simp add: Let_def record_recent_keeps)
  then show ?thesis by (simp add: t Let_def record_recent_keeps record_failure_keeps)
qed

lemma add_directories_board:
  "\<lbrakk>add_directories ds m = Some m'; top_files m = take TOP_LIMIT (largest_first entry_bytes xs);
     \<forall>d \<in> set ds. descends file_size (dir_largest_files d)\<rbrakk> \<Longrightarrow>
     top_files m' = take TOP_LIMIT (largest_first entry_bytes (xs @ offered_dirs ds m))"
proof (induction ds arbitrary: m xs)
  case (Cons d ds)
  then obtain m1 where m1: "add_directory d m = Some m1" "add_directories ds m1 = Some m'"
    by (auto simp: bind_eq_Some_conv)
  let ?new = "map (file_entry (full_path m1 (dir_id d))) (dir_largest_files d)"
  have "top_files m1 = take TOP_LIMIT (largest_first entry_bytes (xs @ ?new))"
    using add_directory_board [OF m1(1)] Cons.prems(2,3) by (simp add: merge_files_best)
  with Cons.IH [OF m1(2) this] Cons.prems(3) m1(1) show ?case by simp
qed simp

lemma apply_event_board:
  assumes "apply_event e m = Some m'" "top_files m = take TOP_LIMIT (largest_first entry_bytes xs)"
    "\<forall>d \<in> set (event_dirs e). descends file_size (dir_largest_files d)"
  shows "top_files m' = take TOP_LIMIT (largest_first entry_bytes (xs @ offered_dirs (event_dirs e) m))"
proof (cases "\<exists>status elapsed allocated ds histogram. e = Update status elapsed allocated ds histogram")
  case True
  then obtain ds m1 where "add_directories ds m = Some m1" "event_dirs e = ds" "top_files m' = top_files m1"
    using assms(1) by (auto simp: apply_event_def bind_eq_Some_conv Let_def record_rate_keeps event_dirs_def)
  then show ?thesis using add_directories_board assms(2,3) by simp
next
  case False
  then have "event_dirs e = []" "top_files m' = top_files m"
    using assms(1) by (cases e; auto simp: apply_event_def Let_def event_dirs_def)+
  then show ?thesis using assms(2) by simp
qed

lemma apply_events_board:
  "\<lbrakk>apply_events es m = Some m'; top_files m = take TOP_LIMIT (largest_first entry_bytes xs);
     \<forall>e \<in> set es. \<forall>d \<in> set (event_dirs e). descends file_size (dir_largest_files d)\<rbrakk> \<Longrightarrow>
     top_files m' = take TOP_LIMIT (largest_first entry_bytes (xs @ offered es m))"
proof (induction es arbitrary: m xs)
  case (Cons e es)
  then obtain m1 where m1: "apply_event e m = Some m1" "apply_events es m1 = Some m'"
    by (auto simp: bind_eq_Some_conv)
  from apply_event_board [OF m1(1) Cons.prems(2)] Cons.prems(3)
  have "top_files m1 = take TOP_LIMIT (largest_first entry_bytes (xs @ offered_dirs (event_dirs e) m))" by simp
  with Cons.IH [OF m1(2) this] Cons.prems(3) m1(1) show ?case by simp
qed simp

text \<open>
  C19. The leaderboard of a scan is the list of the 100 largest of all candidate files offered so
  far, largest first, files of equal size in their order of arrival: the cutoff and the early exit
  in each directory lose none of them, because every directory lists its candidates in descending
  order.
\<close>
theorem leaderboard_largest:
  assumes "apply_events es (new_model limit) = Some m"
    and "\<forall>e \<in> set es. \<forall>d \<in> set (event_dirs e). descends file_size (dir_largest_files d)"
  shows "top_files m = take TOP_LIMIT (largest_first entry_bytes (offered es (new_model limit)))"
proof -
  have "top_files (new_model limit) = take TOP_LIMIT (largest_first entry_bytes [])"
    by (simp add: new_model_def largest_first_def)
  from apply_events_board [OF assms(1) this assms(2)] show ?thesis by simp
qed

section \<open>The feed of recent directories\<close>

lemma add_directory_recent:
  "add_directory d m = Some m' \<Longrightarrow> recent_limit m' = recent_limit m
     \<and> (length (recent m) \<le> recent_limit m \<longrightarrow>
          map recent_id (recent m') = take (recent_limit m) (dir_id d # map recent_id (recent m)))"
  by (cases "recent_limit m")
    (auto simp: add_directory_def Let_def record_recent_def record_failure_keeps take_map)

lemma add_directories_recent:
  "\<lbrakk>add_directories ds m = Some m'; map recent_id (recent m) = take (recent_limit m) xs\<rbrakk> \<Longrightarrow>
     recent_limit m' = recent_limit m
     \<and> map recent_id (recent m') = take (recent_limit m) (rev (map dir_id ds) @ xs)"
proof (induction ds arbitrary: m xs)
  case (Cons d ds)
  then obtain m1 where m1: "add_directory d m = Some m1" "add_directories ds m1 = Some m'"
    by (auto simp: bind_eq_Some_conv)
  have "length (recent m) \<le> recent_limit m"
    using arg_cong [OF Cons.prems(2), of length] by simp
  then have "recent_limit m1 = recent_limit m"
    "map recent_id (recent m1) = take (recent_limit m) (dir_id d # take (recent_limit m) xs)"
    using add_directory_recent [OF m1(1)] Cons.prems(2) by simp_all
  moreover have "take n (a # take n xs) = take n (a # xs)" for n and a :: u32
    by (cases n) simp_all
  ultimately show ?case using Cons.IH [OF m1(2), of "dir_id d # xs"] by simp
qed simp

lemma apply_event_recent:
  assumes "apply_event e m = Some m'" "map recent_id (recent m) = take (recent_limit m) xs"
  shows "recent_limit m' = recent_limit m
     \<and> map recent_id (recent m') = take (recent_limit m) (rev (map dir_id (event_dirs e)) @ xs)"
proof (cases "\<exists>status elapsed allocated ds histogram. e = Update status elapsed allocated ds histogram")
  case True
  then obtain ds m1 where "add_directories ds m = Some m1" "event_dirs e = ds" "recent m' = recent m1"
    "recent_limit m' = recent_limit m1"
    using assms(1) by (auto simp: apply_event_def bind_eq_Some_conv Let_def record_rate_keeps event_dirs_def)
  then show ?thesis using add_directories_recent assms(2) by simp
next
  case False
  then have "event_dirs e = []" "recent m' = recent m" "recent_limit m' = recent_limit m"
    using assms(1) by (cases e; auto simp: apply_event_def Let_def event_dirs_def)+
  then show ?thesis using assms(2) by simp
qed

lemma apply_events_recent:
  "\<lbrakk>apply_events es m = Some m'; map recent_id (recent m) = take (recent_limit m) xs\<rbrakk> \<Longrightarrow>
     map recent_id (recent m') = take (recent_limit m) (rev (map dir_id (concat (map event_dirs es))) @ xs)"
proof (induction es arbitrary: m xs)
  case (Cons e es)
  then obtain m1 where m1: "apply_event e m = Some m1" "apply_events es m1 = Some m'"
    by (auto simp: bind_eq_Some_conv)
  from apply_event_recent [OF m1(1) Cons.prems(2)]
  show ?case using Cons.IH [OF m1(2), of "rev (map dir_id (event_dirs e)) @ xs"] by simp
qed simp

text \<open>
  The feed shows the most recent directories: newest first, each once for every summary that
  arrived, and exactly as many as its limit allows.
\<close>
lemma recent_feed:
  assumes "apply_events es (new_model limit) = Some m"
  shows "map recent_id (recent m) = take limit (rev (map dir_id (concat (map event_dirs es))))"
  using apply_events_recent [OF assms, of "[]"] by (simp add: new_model_def)

section \<open>Visible children\<close>

lemma takeWhile_filter_descends:
  "descends key xs \<Longrightarrow> takeWhile (\<lambda>x. 0 < key x) xs = filter (\<lambda>x. 0 < key x) xs"
proof (induction xs)
  case (Cons x xs)
  show ?case
  proof (cases "0 < key x")
    case False
    then have "key x = 0" by (simp add: word_gt_0)
    then have "\<forall>y \<in> set xs. \<not> 0 < key y" using Cons.prems by (auto simp: descends_def word_gt_0)
    then show ?thesis using False by (simp add: filter_empty_conv)
  qed (use Cons in \<open>simp add: descends_def\<close>)
qed simp

text \<open>
  After any events, the children a view shows are exactly the children that hold bytes, in
  descending order: the prefix taken without scanning the siblings misses none.
\<close>
lemma visible_children:
  assumes "apply_events es (new_model limit) = Some m"
    and "\<forall>e \<in> set es. \<forall>d \<in> set (event_dirs e). dir_parent_id d \<noteq> Some NO_PARENT"
  shows "children_by_size m i = filter (\<lambda>c. 0 < subtree_bytes (tree m) c) (children (tree m) i)
    \<and> sorted_wrt (\<lambda>a b. subtree_bytes (tree m) b \<le> subtree_bytes (tree m) a) (children_by_size m i)"
proof -
  have "model_ok m" using apply_events_ok [OF model_ok_new assms(2), of limit] assms(1) by auto
  then have d: "descends (subtree_bytes (tree m)) (children (tree m) i)"
    by (simp add: model_ok_def descending_def descends_def)
  then have "children_by_size m i = filter (\<lambda>c. 0 < subtree_bytes (tree m) c) (children (tree m) i)"
    unfolding children_by_size_def by (rule takeWhile_filter_descends)
  then show ?thesis using d by (simp add: descends_def sorted_wrt_filter)
qed

end
