(* ===== verification/Paths.thy ===== *)
theory Paths
  imports Scan_Props
begin

text \<open>
  The names and paths that the view model reconstructs from the size tree, against a specification
  on the list of summaries alone, and the witnesses of the view model's properties.
\<close>

section \<open>Names in the tree\<close>

definition same_names :: "size_tree \<Rightarrow> size_tree \<Rightarrow> bool" where
  "same_names t t' \<longleftrightarrow> tree_name t' = tree_name t"

lemma same_names_trans: "same_names t u \<Longrightarrow> same_names u v \<Longrightarrow> same_names t v"
  by (simp add: same_names_def)

lemma same_names_ensure: "same_names t (ensure i t)"
proof -
  have "tree_name (ensure i t) j = tree_name t j" for j
    by (cases "present t j") (simp_all add: tree_name_def node_ensure node_absent fresh_node_def)
  then show ?thesis by (simp add: same_names_def fun_eq_iff)
qed

lemma same_names_modify:
  assumes "modify i f t = Some t'" "\<And>nd. node_name (f nd) = node_name nd"
  shows "same_names t t'"
proof -
  have "tree_name t' j = tree_name t j" for j
    using node_modify [OF assms(1), of j] assms(2) by (cases "j = i"; cases "node t j") (simp_all add: tree_name_def)
  then show ?thesis by (simp add: same_names_def fun_eq_iff)
qed

lemma same_names_dirty_list: "same_names t (t\<lparr>dirty_children := ds\<rparr>)"
  by (simp add: same_names_def fun_eq_iff tree_name_def node_def)

lemma same_names_mark:
  assumes "mark_children_dirty i t = Some t'"
  shows "same_names t t'"
proof (cases "t' = t")
  case False
  then obtain t1 where "modify i (\<lambda>nd. nd\<lparr>node_dirty := True\<rparr>) t = Some t1"
    "t' = t1\<lparr>dirty_children := dirty_children t1 @ [i]\<rparr>"
    using assms by (auto simp: mark_children_dirty_def bind_eq_Some_conv split: if_splits)
  then show ?thesis
    using same_names_modify [of i _ t t1] same_names_dirty_list same_names_trans by fastforce
qed (simp add: same_names_def)

lemma same_names_link:
  assumes "link i p t = Some t'"
  shows "same_names t t'"
proof -
  let ?t = "ensure p (ensure i t)"
  have e: "same_names t ?t" by (rule same_names_trans [OF same_names_ensure same_names_ensure])
  show ?thesis
  proof (cases "t' = ?t")
    case False
    with assms obtain t1 t2 where t1: "modify i (\<lambda>nd. nd\<lparr>node_parent := p\<rparr>) ?t = Some t1"
      and t2: "modify p (\<lambda>nd. nd\<lparr>node_children := node_children nd @ [i]\<rparr>) t1 = Some t2"
      and t3: "mark_children_dirty p t2 = Some t'"
      by (auto simp: link_def Let_def bind_eq_Some_conv split: if_splits)
    have "same_names ?t t1" using t1 by (rule same_names_modify) simp
    moreover have "same_names t1 t2" using t2 by (rule same_names_modify) simp
    ultimately show ?thesis using e same_names_mark [OF t3] same_names_trans by blast
  qed (simp add: e)
qed

lemma same_names_add_up: "add_up n i b t = Some t' \<Longrightarrow> same_names t t'"
proof (induction n arbitrary: i t)
  case 0
  then show ?case by (simp add: same_names_def)
next
  case (Suc n)
  then obtain t1 nd where t1: "modify i (\<lambda>nd. nd\<lparr>node_subtree_bytes := sat_add (node_subtree_bytes nd) b\<rparr>) t = Some t1"
    "node t1 i = Some nd"
    and t': "(if node_parent nd = NO_PARENT then Some t1
       else Option.bind (mark_children_dirty (node_parent nd) t1) (add_up n (node_parent nd) b)) = Some t'"
    by (auto simp: bind_eq_Some_conv)
  have n1: "same_names t t1" using t1(1) by (rule same_names_modify) simp
  show ?case
  proof (cases "node_parent nd = NO_PARENT")
    case True
    then show ?thesis using t' n1 by simp
  next
    case False
    then obtain t2 where "mark_children_dirty (node_parent nd) t1 = Some t2" "add_up n (node_parent nd) b t2 = Some t'"
      using t' by (auto simp: bind_eq_Some_conv)
    then show ?thesis using n1 same_names_mark Suc.IH same_names_trans by blast
  qed
qed

lemma same_names_sort: "sort_batch ps t = Some t' \<Longrightarrow> same_names t t'"
proof (induction ps arbitrary: t)
  case (Cons p ps)
  then obtain t1 nd cs t2 where "modify p (\<lambda>nd. nd\<lparr>node_dirty := False\<rparr>) t = Some t1"
    "modify p (\<lambda>nd. nd\<lparr>node_children := cs\<rparr>) t1 = Some t2" "sort_batch ps t2 = Some t'"
    by (auto simp: bind_eq_Some_conv)
  moreover have "same_names t t1" if "modify p (\<lambda>nd. nd\<lparr>node_dirty := False\<rparr>) t = Some t1"
    using that by (rule same_names_modify) simp
  moreover have "same_names t1 t2" if "modify p (\<lambda>nd. nd\<lparr>node_children := cs\<rparr>) t1 = Some t2"
    using that by (rule same_names_modify) simp
  ultimately show ?case using Cons.IH same_names_trans by blast
qed (simp add: same_names_def)

lemma same_names_finish: "finish_batch t = Some t' \<Longrightarrow> same_names t t'"
  unfolding finish_batch_def by (blast intro: same_names_trans same_names_dirty_list same_names_sort)

definition own_name :: "string \<Rightarrow> string option" where
  "own_name name = (if name = [] then None else Some name)"

lemma set_name_names:
  assumes "set_name i name t = Some t'"
  shows "tree_name t' = (if name = [] then tree_name t else (tree_name t)(i := Some name))"
proof (cases "name = []")
  case False
  then have m: "modify i (\<lambda>nd. nd\<lparr>node_name := name\<rparr>) (ensure i t) = Some t'"
    using assms by (simp add: set_name_def)
  have "tree_name t' j = ((tree_name t)(i := Some name)) j" for j
    using node_modify [OF m, of j] same_names_ensure [of t i] False
    by (rule_tac modify_at [OF m]) (auto simp: tree_name_def same_names_def fun_eq_iff)
  then show ?thesis using False by (simp add: fun_eq_iff)
qed (use assms in \<open>simp add: set_name_def\<close>)

lemma tree_add_names:
  assumes "tree_add d t = Some t'"
  shows "tree_name t' = (if dir_name d = [] then tree_name t else (tree_name t)(dir_id d := Some (dir_name d)))"
proof -
  from assms obtain t1 t2 t3 where
    t1: "(case dir_parent_id d of Some p \<Rightarrow> link (dir_id d) p t | None \<Rightarrow> Some t) = Some t1"
    and t2: "set_name (dir_id d) (dir_name d) t1 = Some t2"
    and t3: "set_own (dir_id d) (dir_allocated_bytes d) (sat_sub (dir_entries d) (dir_children d)) t2 = Some t3"
    and t4: "add_bytes (dir_id d) (dir_allocated_bytes d) t3 = Some t'"
    by (auto simp: tree_add_def bind_eq_Some_conv)
  have "same_names t t1" using t1 same_names_link by (auto simp: same_names_def split: option.splits)
  moreover have "same_names (ensure (dir_id d) t2) t3"
    using t3 unfolding set_own_def by (rule same_names_modify) simp
  then have "same_names t2 t3" using same_names_ensure same_names_trans by blast
  moreover have "same_names t3 t'"
    using t4 same_names_ensure same_names_add_up same_names_trans unfolding add_bytes_def by blast
  ultimately show ?thesis using set_name_names [OF t2] by (simp add: same_names_def)
qed

fun name_of :: "directory_summary list \<Rightarrow> u32 \<Rightarrow> string option" where
  \<comment> \<open>the last non-empty name that the summaries give an id\<close>
  "name_of [] i = None"
| "name_of (d # ds) i =
     (case name_of ds i of
        Some name \<Rightarrow> Some name
      | None \<Rightarrow> if dir_id d = i then own_name (dir_name d) else None)"

lemma name_of_append: "name_of (ds @ es) i = (case name_of es i of Some name \<Rightarrow> Some name | None \<Rightarrow> name_of ds i)"
  by (induction ds) (auto split: option.splits)

lemma tree_add_all_names:
  "\<lbrakk>tree_add_all ds t = Some t'; tree_name t = name_of es\<rbrakk> \<Longrightarrow> tree_name t' = name_of (es @ ds)"
proof (induction ds arbitrary: t es)
  case (Cons d ds)
  then obtain t1 where t1: "tree_add d t = Some t1" "tree_add_all ds t1 = Some t'" by (auto simp: bind_eq_Some_conv)
  have "tree_name t1 = name_of (es @ [d])"
    using tree_add_names [OF t1(1)] Cons.prems(2)
    by (auto simp: fun_eq_iff name_of_append own_name_def)
  from Cons.IH [OF t1(2) this] show ?case by simp
qed simp

lemma tree_batches_names:
  "\<lbrakk>tree_batches dss t = Some t'; tree_name t = name_of es\<rbrakk> \<Longrightarrow> tree_name t' = name_of (es @ concat dss)"
proof (induction dss arbitrary: t es)
  case (Cons ds dss)
  then obtain t1 t2 where t: "tree_add_all ds t = Some t1" "finish_batch t1 = Some t2" "tree_batches dss t2 = Some t'"
    by (auto simp: bind_eq_Some_conv tree_batch_def)
  have "tree_name t2 = name_of (es @ ds)"
    using tree_add_all_names [OF t(1) Cons.prems(2)] same_names_finish [OF t(2)] by (simp add: same_names_def)
  from Cons.IH [OF t(3) this] show ?case by simp
qed simp

section \<open>The ancestor chain\<close>

lemma grow_chain_climb:
  "\<lbrakk>distinct (chain @ tl (climb (parent t) (Suc n) current)); length chain + n = MAX_DEPTH\<rbrakk> \<Longrightarrow>
     grow_chain t chain current = chain @ tl (climb (parent t) (Suc n) current)"
proof (induction n arbitrary: chain current)
  case 0
  then show ?case by (subst grow_chain.simps) (simp split: option.splits)
next
  case (Suc n)
  show ?case
  proof (cases "parent t current")
    case None
    then show ?thesis by (subst grow_chain.simps) simp
  next
    case (Some p)
    have d: "distinct (chain @ climb (parent t) (Suc n) p)" using Suc.prems(1) Some by simp
    then have "p \<notin> set chain" by auto
    moreover have "\<not> MAX_DEPTH \<le> length chain" using Suc.prems(2) by simp
    ultimately have "grow_chain t chain current = grow_chain t (chain @ [p]) p"
      using Some by (subst grow_chain.simps) simp
    moreover have "climb (parent t) (Suc n) p = p # tl (climb (parent t) (Suc n) p)" by simp
    then have "grow_chain t (chain @ [p]) p = (chain @ [p]) @ tl (climb (parent t) (Suc n) p)"
      using Suc.prems(2) d by (intro Suc.IH) (metis append.assoc append_Cons append_Nil, simp)
    ultimately show ?thesis using Some by simp
  qed
qed

definition path_names :: "directory_summary list \<Rightarrow> u32 \<Rightarrow> string list" where
  \<comment> \<open>the names on the way from the root to the directory, by the summaries alone\<close>
  "path_names ds i = map (\<lambda>j. case name_of ds j of Some name \<Rightarrow> name | None \<Rightarrow> ''#'' @ show_nat (unat j))
     (rev (climb (parent_of ds) MAX_DEPTH i))"

lemma full_path_holds:
  assumes "holds ds (tree m)" "tree_name (tree m) = name_of ds" "parents_first [] ds" "i \<in> ids ds"
  shows "full_path m i = join_names (path_names ds i)"
proof -
  have par: "parent (tree m) = parent_of ds" using assms(1) by (simp add: holds_def)
  have m: "MAX_DEPTH = Suc 511" by (simp add: MAX_DEPTH_def)
  let ?c = "climb (parent_of ds) MAX_DEPTH i"
  have c: "?c = i # tl ?c" by (simp only: m climb.simps list.sel)
  have "distinct ?c" by (rule climb_distinct [OF assms(3,4)])
  then have "distinct ([i] @ tl ?c)" using c by (metis append_Cons append_Nil)
  then have "grow_chain (tree m) [i] i = [i] @ tl ?c"
    using grow_chain_climb [of "[i]" "tree m" 511 i] by (simp add: m par del: climb.simps)
  then have "grow_chain (tree m) [i] i = ?c" using c by simp
  then show ?thesis
    by (simp add: full_path_def path_names_def ancestor_chain_def directory_name_def [abs_def] assms(2))
qed

section \<open>Whole scans\<close>

definition dir_batches :: "backend_event list \<Rightarrow> directory_summary list list" where
  "dir_batches es = map event_dirs (filter (\<lambda>e. case e of Update _ _ _ _ _ \<Rightarrow> True | _ \<Rightarrow> False) es)"

lemma apply_events_tree: "apply_events es m = Some m' \<Longrightarrow> tree_batches (dir_batches es) (tree m) = Some (tree m')"
proof (induction es arbitrary: m)
  case (Cons e es)
  then obtain m1 where m1: "apply_event e m = Some m1" "apply_events es m1 = Some m'" by (auto simp: bind_eq_Some_conv)
  show ?case
    using apply_event_tree [OF m1(1)] Cons.IH [OF m1(2)] by (cases e) (auto simp: dir_batches_def event_dirs_def)
qed (simp add: dir_batches_def)

lemma concat_dir_batches: "concat (dir_batches es) = concat (map event_dirs es)"
  by (induction es) (auto simp: dir_batches_def event_dirs_def split: backend_event.splits)

text \<open>
  C22. For every directory summarised so far the view model reconstructs the path that its names
  and parents spell out: the names from the root down (from the ancestor \<open>MAX_DEPTH - 1\<close> levels up,
  for a deeper directory), joined by \<open>/\<close>, with \<open>#id\<close> for a directory without a name.
\<close>
theorem paths_reconstructed:
  assumes "apply_events es (new_model limit) = Some m"
    and "parents_first [] (concat (map event_dirs es))" and "i \<in> dir_id ` set (concat (map event_dirs es))"
  shows "full_path m i = join_names (path_names (concat (map event_dirs es)) i)"
proof -
  let ?ds = "concat (map event_dirs es)"
  have t: "tree_batches (dir_batches es) empty_tree = Some (tree m)"
    using apply_events_tree [OF assms(1)] by (simp add: new_model_def)
  have "parents_first [] (concat (dir_batches es))" using assms(2) by (simp add: concat_dir_batches)
  from tree_batches_holds [OF this] t have h: "holds ?ds (tree m)" by (simp add: concat_dir_batches)
  have "tree_name empty_tree = name_of []" by (simp add: fun_eq_iff tree_name_def node_def empty_tree_def)
  from tree_batches_names [OF t this] have "tree_name (tree m) = name_of ?ds" by (simp add: concat_dir_batches)
  from full_path_holds [OF h this assms(2)] assms(3) show ?thesis by (simp add: ids_def)
qed

end
