(* ===== verification/Scan_Demo.thy ===== *)
theory Scan_Demo
  imports Paths
begin

text \<open>A small scan, and the witnesses of the view model's properties on it.\<close>

definition demo_store :: store_stats where
  "demo_store = \<lparr>directory_count = 3, published_directory_count = 2, failed_directory_count = 1,
     pending_directory_count = 0, completion_count = 3, store_entry_count = 12, block_bytes = 0, payload_bytes = 0,
     directory_table_bytes = 0, completion_journal_bytes = 0, root_name_bytes = 0, native_bytes = 4096\<rparr>"

definition demo_status :: index_status_record where
  "demo_status = \<lparr>status_index_id = 7, status_root = ''/'', status_state = Running, status_ranking = Macos,
     status_pending = 1, status_in_flight = 2,
     status_counters = \<lparr>cnt_entries = 12, cnt_directories = 3, cnt_regular_files = 9, cnt_symlinks = 0, cnt_other = 0,
       cnt_metadata_errors = 0, cnt_metadata_error_counts = [], cnt_directory_failure_counts = [],
       cnt_directory_failure_reasons = [], cnt_skipped_mounts = 0\<rparr>,
     status_store = demo_store, status_outcome = None\<rparr>"

definition demo_file :: "string \<Rightarrow> u64 \<Rightarrow> largest_file" where
  "demo_file name bytes = \<lparr>file_name = name, file_size = bytes\<rparr>"

definition demo_root_dir :: directory_summary where
  "demo_root_dir = (demo_dir 0 None ''/srv'' 130)\<lparr>dir_largest_files := [demo_file ''big'' 90, demo_file ''mid'' 40]\<rparr>"

definition demo_sub_dir :: directory_summary where
  "demo_sub_dir = (demo_dir 1 (Some 0) ''log'' 60)\<lparr>dir_largest_files := [demo_file ''old'' 60]\<rparr>"

definition demo_lost_dir :: directory_summary where
  "demo_lost_dir = (demo_dir 2 (Some 1) [] 0)\<lparr>dir_state := DirFailed, dir_error := ''eacces''\<rparr>"

definition demo_events :: "backend_event list" where
  "demo_events = [Started ''/srv'' None Cross,
     Update demo_status F64_0 130 [demo_root_dir] default_histogram,
     Update demo_status F64_1000 190 [demo_sub_dir, demo_lost_dir] default_histogram,
     ErrorEvent ''gone'']"

lemma demo_events_ok:
  "\<forall>e \<in> set demo_events. \<forall>d \<in> set (event_dirs e). dir_parent_id d \<noteq> Some NO_PARENT"
  "\<forall>e \<in> set demo_events. \<forall>d \<in> set (event_dirs e). descends file_size (dir_largest_files d)"
  "parents_first [] (concat (map event_dirs demo_events))"
  by (simp_all add: demo_events_def event_dirs_def demo_root_dir_def demo_sub_dir_def demo_lost_dir_def
      demo_dir_def demo_file_def NO_PARENT_def descends_def)

lemma demo_events_run: "\<exists>m. apply_events demo_events (new_model 2) = Some m"
  using apply_events_ok [OF model_ok_new demo_events_ok(1)] by blast


theorem leaderboard_largest_witness:
  "\<exists>m. apply_events demo_events (new_model 2) = Some m
     \<and> top_files m = take TOP_LIMIT (largest_first entry_bytes (offered demo_events (new_model 2)))"
  using demo_events_run leaderboard_largest [OF _ demo_events_ok(2)] by blast

lemma recent_feed_witness:
  "\<exists>m. apply_events demo_events (new_model 2) = Some m \<and> map recent_id (recent m) = [2, 1]"
proof -
  obtain m where m: "apply_events demo_events (new_model 2) = Some m" using demo_events_run by blast
  have "take 2 (rev (map dir_id (concat (map event_dirs demo_events)))) = [2, 1]"
    by (simp add: demo_events_def event_dirs_def demo_root_dir_def demo_sub_dir_def demo_lost_dir_def demo_dir_def)
  with recent_feed [OF m] m show ?thesis by simp
qed

lemma visible_children_witness:
  "\<exists>m. apply_events demo_events (new_model 2) = Some m
     \<and> children_by_size m 1 = filter (\<lambda>c. 0 < subtree_bytes (tree m) c) (children (tree m) 1)"
  using demo_events_run visible_children [OF _ demo_events_ok(1)] by blast

theorem paths_reconstructed_witness:
  "\<exists>m. apply_events demo_events (new_model 2) = Some m \<and> full_path m 2 = ''/srv/log/#2''"
proof -
  obtain m where m: "apply_events demo_events (new_model 2) = Some m" using demo_events_run by blast
  have "2 \<in> dir_id ` set (concat (map event_dirs demo_events))"
    by (simp add: demo_events_def event_dirs_def demo_root_dir_def demo_sub_dir_def demo_lost_dir_def demo_dir_def)
  from paths_reconstructed [OF m demo_events_ok(3) this]
  have "full_path m 2 = join_names (path_names (concat (map event_dirs demo_events)) 2)" .
  also have "\<dots> = ''/srv/log/#2''" by code_simp
  finally show ?thesis using m by blast
qed

end
