(* ===== verification/Backend.thy ===== *)
theory Backend
  imports Client_Props Leaderboard
begin

text \<open>
  The desktop's worker (\<open>desktop/src/backend.rs\<close>): it owns a client, drains the completion journal,
  summarises the completed directories and sends the view model its events through a bounded
  channel. The clock, the rendering of standard library values and what the operating system makes of
  the command are the environment \<open>backend_env\<close>. A channel is the events it accepted and the number it
  will still accept before its receiver is dropped (\<open>None\<close>: the receiver stays); how long a send
  blocks is not modelled.
\<close>

section \<open>The environment\<close>

record 'n backend_env =
  env_serde :: "'n serde"
  env_show_status :: "exit_status \<Rightarrow> string"
  env_show_path :: "u8 list \<Rightarrow> string"
  env_json_text :: "'n json \<Rightarrow> string"
  env_clock :: "nat \<Rightarrow> nat"
    \<comment> \<open>the reading, in nanoseconds, of the \<open>k\<close>th use of the clock\<close>

record channel =
  accepted :: "backend_event list"
  accepts_more :: "nat option"

record worker =
  w_client :: client
  w_channel :: channel
  w_reads :: nat

definition show_error :: "'n backend_env \<Rightarrow> client_error \<Rightarrow> string" where
  "show_error E = show_client_error (env_show_status E) (env_show_path E)"

definition now :: "'n backend_env \<Rightarrow> worker \<Rightarrow> (string + nat) \<times> worker" where
  \<comment> \<open>\<open>Instant::now()\<close>\<close>
  "now E w = (Inr (env_clock E (w_reads w)), w\<lparr>w_reads := w_reads w + 1\<rparr>)"

definition calling :: "'n backend_env \<Rightarrow> string \<Rightarrow> (client \<Rightarrow> (client_error + 'a) \<times> client)
    \<Rightarrow> worker \<Rightarrow> (string + 'a) \<times> worker" where
  \<comment> \<open>a client call with its \<open>map_err(|error| format!("{context}: {error}"))\<close>\<close>
  "calling E label call w =
     (case call (w_client w) of (m, c) \<Rightarrow> (map_err (\<lambda>e. label @ '': '' @ show_error E e) m, w\<lparr>w_client := c\<rparr>))"

definition push_accepted :: "backend_event \<Rightarrow> channel \<Rightarrow> (string + unit) \<times> channel" where
  "push_accepted event ch =
     (if accepts_more ch = Some 0 then (Inl ''UI event receiver is closed'', ch)
      else (Inr (), ch\<lparr>accepted := accepted ch @ [event], accepts_more := map_option (\<lambda>n. n - 1) (accepts_more ch)\<rparr>))"

definition send_event :: "backend_event \<Rightarrow> worker \<Rightarrow> (string + unit) \<times> worker" where
  "send_event event w =
     (case push_accepted event (w_channel w) of (m, ch) \<Rightarrow> (m, w\<lparr>w_channel := ch\<rparr>))"

section \<open>Summaries\<close>

definition value_text :: "'n backend_env \<Rightarrow> 'n json option \<Rightarrow> string" where
  "value_text E v =
     (case v of
        None \<Rightarrow> []
      | Some JNull \<Rightarrow> []
      | Some (JString s) \<Rightarrow> s
      | Some j \<Rightarrow> env_json_text E j)"

definition summary_from_stats :: "'n backend_env \<Rightarrow> 'n directory_stats \<Rightarrow> directory_summary" where
  "summary_from_stats E stats =
     \<lparr>dir_id = ds_directory_id stats, dir_parent_id = ds_parent_id stats, dir_name = binary_text (ds_name stats),
      dir_state = ds_state stats, dir_entries = ds_entry_count stats, dir_children = ds_child_count stats,
      dir_error = value_text E (ds_error stats), dir_allocated_bytes = ds_size_bytes stats,
      dir_largest_files = sort_key (\<lambda>f. - int (unat (file_size f)))
        (map (\<lambda>f. \<lparr>file_name = binary_text (sized_name.sized_name f), file_size = sized_size f\<rparr>) (ds_largest stats))\<rparr>"

section \<open>Driving one index\<close>

record drive =
  next_progress_at :: nat
  drive_cursor :: u64
  buffered_summaries :: "directory_summary list"
  drive_allocated :: u64
  drive_histogram :: size_histogram

fun absorb :: "'n backend_env \<Rightarrow> 'n directory_stats list \<Rightarrow> drive \<Rightarrow> drive" where
  \<comment> \<open>the \<open>for stat in stats\<close> loop\<close>
  "absorb E [] st = st"
| "absorb E (stat # stats) st =
     absorb E stats (st\<lparr>drive_allocated := sat_add (drive_allocated st) (ds_size_bytes stat),
                        drive_histogram := merge (ds_histogram stat) (drive_histogram st),
                        buffered_summaries := buffered_summaries st @ [summary_from_stats E stat]\<rparr>)"

definition as_millis :: "nat \<Rightarrow> f64_bits" where
  \<comment> \<open>\<open>Duration::as_secs_f64() * 1_000.0\<close>\<close>
  "as_millis nanos =
     f64_mul (f64_add (f64_of_u64 (word_of_nat (nanos div 1000000000)))
                (f64_div (f64_of_u64 (word_of_nat (nanos mod 1000000000))) (f64_of_u64 1000000000))) F64_1000"

definition publish :: "'n backend_env \<Rightarrow> index_id \<Rightarrow> backend_options \<Rightarrow> nat \<Rightarrow> nat \<Rightarrow> drive \<Rightarrow> worker
    \<Rightarrow> (string + drive option) \<times> worker" where
  \<comment> \<open>the body of \<open>if should_publish\<close>; \<open>None\<close> when the index is finished\<close>
  "publish E index options started_at at_time st =
     sbind (calling E ''could not read index status'' (index_status (env_serde E) index)) (\<lambda>status.
     let journal_drained = (completion_count (status_store status) \<le> drive_cursor st
                            \<and> status_state status = Finished) in
     sbind (now E) (\<lambda>t.
     sbind (send_event (Update status (as_millis (t - started_at)) (drive_allocated st)
              (buffered_summaries st) (drive_histogram st))) (\<lambda>_.
     if journal_drained then
       sbind (calling E ''could not read terminal report'' (await_scan (env_serde E) index)) (\<lambda>result.
       sbind (send_event (FinishedEvent result (drive_allocated st))) (\<lambda>_.
       spure (Inr None)))
     else spure (Inr (Some (st\<lparr>buffered_summaries := [],
                              next_progress_at := at_time + progress_interval options\<rparr>))))))"

definition drive_step :: "'n backend_env \<Rightarrow> index_id \<Rightarrow> backend_options \<Rightarrow> nat \<Rightarrow> drive \<Rightarrow> worker
    \<Rightarrow> (string + drive option) \<times> worker" where
  \<comment> \<open>one turn of the loop of \<open>drive_index\<close>\<close>
  "drive_step E index options started_at st =
     sbind (calling E ''could not read completion journal''
             (completed_directories (env_serde E) index (drive_cursor st) COMPLETION_BATCH_SIZE)) (\<lambda>completion.
     let st = st\<lparr>drive_cursor := page_cursor completion\<rparr> in
     sbind (if page_directory_ids completion \<noteq> [] then
              sbind (calling E ''could not summarize directories''
                      (summarize_directories (env_serde E) index (page_directory_ids completion) SIZE_FIELD
                        LARGEST_PER_DIRECTORY)) (\<lambda>stats. spure (Inr (absorb E stats st)))
            else spure (Inr st)) (\<lambda>st.
     sbind (now E) (\<lambda>at_time.
       if next_progress_at st \<le> at_time \<or> unat COMPLETION_BATCH_SIZE \<le> length (buffered_summaries st)
       then publish E index options started_at at_time st
       else spure (Inr (Some st)))))"

section \<open>The loop ends\<close>

text \<open>
  Every turn that continues has read a response, so the bytes to come are a measure: against a peer
  whose stream is finite the loop returns.
\<close>

lemma later_bytes: "later c c' \<Longrightarrow> bytes_to_come c' \<le> bytes_to_come c"
  by (auto simp: later_def bytes_to_come_def dest: suffix_length_le)

lemma await_response_consumes:
  assumes "await_response S de i c = (Inr x, c')"
  shows "bytes_to_come c' < bytes_to_come c"
proof -
  obtain evs c1 m c2 where d: "delivers S c evs c1" and m: "read_message S c1 = (m, c2)" "halts m"
    and r: "await_response S de i c = (verdict de i m, with_events (events c @ evs) c2)"
    using await_response_outcome_aux by blast
  from assms r have "verdict de i m = Inr x" "c' = with_events (events c @ evs) c2" by simp_all
  then obtain n where n: "m = Inr n" by (cases m) (simp_all add: verdict_def)
  have "bytes_to_come c2 < bytes_to_come c1" using m(1) unfolding n by (rule read_message_consumes)
  also have "\<dots> \<le> bytes_to_come c" using later_bytes [OF delivers_later [OF d]] by (simp add: bytes_to_come_def)
  finally show ?thesis using \<open>c' = _\<close> by (simp add: bytes_to_come_def)
qed

lemma request_consumes:
  assumes "request S de req i c = (Inr x, c')"
  shows "bytes_to_come c' < bytes_to_come c"
  using request_cases [of S de req i c]
proof (elim disjE exE conjE)
  fix d
  assume "request S de req i c = await_response S de i d" "client_output d = client_output c"
  then show ?thesis using await_response_consumes [of S de i d x c'] assms by (simp add: bytes_to_come_def)
qed (use assms in simp)

lemma completed_directories_consumes:
  assumes "completed_directories S index cursor limit c = (Inr x, c')"
  shows "bytes_to_come c' < bytes_to_come c"
proof -
  obtain i c1 where "reserve_request_id c = (Inr i, c1)"
    "request S (de_completion S) (CompletionRequest i ''completed_directories'' index cursor limit) i c1 = (Inr x, c')"
    using assms by (auto simp: completed_directories_def sbind_eq_Inr_iff)
  then show ?thesis
    using request_consumes [of S "de_completion S" _ i c1 x c']
    by (auto simp: reserve_request_id_def Let_def bytes_to_come_def split: if_splits)
qed

definition settled :: "(worker \<Rightarrow> (string + 'a) \<times> worker) \<Rightarrow> bool" where
  \<comment> \<open>a step of the worker that moves its client forward: no bytes return to the stream, no child is lost\<close>
  "settled f \<longleftrightarrow> (\<forall>w. later (w_client w) (w_client (snd (f w))))"

named_theorems settled_rules \<open>steps that move the client forward\<close>

lemma settledD: "settled f \<Longrightarrow> f w = (r, w') \<Longrightarrow> later (w_client w) (w_client w')"
  unfolding settled_def by (metis snd_conv)

lemma settled_sbind [settled_rules]:
  assumes "settled f" "\<And>a. settled (g a)"
  shows "settled (sbind f g)"
  unfolding settled_def
proof
  fix w
  obtain m w1 where m: "f w = (m, w1)" by force
  then have 1: "later (w_client w) (w_client w1)" by (rule settledD [OF assms(1)])
  show "later (w_client w) (w_client (snd (sbind f g w)))"
  proof (cases m)
    case (Inr a)
    have "later (w_client w1) (w_client (snd (g a w1)))"
      using assms(2) [of a] by (simp add: settled_def)
    with 1 show ?thesis using m Inr by (simp add: sbind_def) (rule later_trans)
  qed (use 1 m in \<open>simp add: sbind_def\<close>)
qed

lemma settled_basics [settled_rules]:
  "settled (spure m)" "settled (now E)" "settled (send_event event)"
  by (auto simp: settled_def now_def send_event_def split: prod.splits)

lemma settled_calling [settled_rules]:
  assumes "forward call"
  shows "settled (calling E label call)"
  unfolding settled_def calling_def
  using assms by (auto split: prod.splits dest: forwardD)

lemma settled_if [settled_rules]: "settled f \<Longrightarrow> settled g \<Longrightarrow> settled (if b then f else g)"
  by simp

lemma settled_publish: "settled (publish E index options started_at at_time st)"
  unfolding publish_def Let_def
  by (intro settled_rules index_status.forward await_scan.forward)

lemma drive_step_consumes:
  assumes "drive_step E index options started_at st w = (Inr r, w')"
  shows "bytes_to_come (w_client w') < bytes_to_come (w_client w)"
proof -
  let ?call = "calling E ''could not read completion journal''
             (completed_directories (env_serde E) index (drive_cursor st) COMPLETION_BATCH_SIZE)"
  let ?rest = "\<lambda>completion. let st = st\<lparr>drive_cursor := page_cursor completion\<rparr> in
     sbind (if page_directory_ids completion \<noteq> [] then
              sbind (calling E ''could not summarize directories''
                      (summarize_directories (env_serde E) index (page_directory_ids completion) SIZE_FIELD
                        LARGEST_PER_DIRECTORY)) (\<lambda>stats. spure (Inr (absorb E stats st)))
            else spure (Inr st)) (\<lambda>st.
     sbind (now E) (\<lambda>at_time.
       if next_progress_at st \<le> at_time \<or> unat COMPLETION_BATCH_SIZE \<le> length (buffered_summaries st)
       then publish E index options started_at at_time st
       else spure (Inr (Some st))))"
  from assms obtain completion w1 where c: "?call w = (Inr completion, w1)" and r: "?rest completion w1 = (Inr r, w')"
    by (auto simp: drive_step_def sbind_eq_Inr_iff)
  have "settled (?rest completion)"
    unfolding Let_def by (intro settled_rules settled_publish summarize_directories.forward)
  then have "bytes_to_come (w_client w') \<le> bytes_to_come (w_client w1)" using r by (rule later_bytes [OF settledD])
  also have "\<dots> < bytes_to_come (w_client w)"
    using c by (auto simp: calling_def map_err_eq_Inr_iff split: prod.splits dest: completed_directories_consumes)
  finally show ?thesis .
qed

function drive_loop :: "'n backend_env \<Rightarrow> index_id \<Rightarrow> backend_options \<Rightarrow> nat \<Rightarrow> drive \<Rightarrow> worker
    \<Rightarrow> (string + unit) \<times> worker" where
  "drive_loop E index options started_at st w =
     (case drive_step E index options started_at st w of
        (Inl e, w) \<Rightarrow> (Inl e, w)
      | (Inr None, w) \<Rightarrow> (Inr (), w)
      | (Inr (Some st), w) \<Rightarrow> drive_loop E index options started_at st w)"
  by pat_completeness auto
termination
  by (relation "measure (\<lambda>(E, index, options, started_at, st, w). bytes_to_come (w_client w))")
    (auto dest: drive_step_consumes [OF sym])

declare drive_loop.simps [simp del]

definition drive_index :: "'n backend_env \<Rightarrow> index_id \<Rightarrow> backend_options \<Rightarrow> worker \<Rightarrow> (string + unit) \<times> worker" where
  "drive_index E index options =
     sbind (now E) (\<lambda>started_at.
       drive_loop E index options started_at
         \<lparr>next_progress_at = started_at, drive_cursor = 0, buffered_summaries = [], drive_allocated = 0,
          drive_histogram = default_histogram\<rparr>)"

section \<open>A whole run\<close>

definition backend_scan_options :: "backend_options \<Rightarrow> scan_options" where
  "backend_scan_options options =
     default_scan_options\<lparr>opt_fields := bo_fields options, opt_concurrency := bo_concurrency options,
       opt_ranking := DEFAULT_RANKING, opt_mount_policy := bo_mount_policy options,
       opt_failure_sample_limit := Some 20\<rparr>"

definition backend_command :: "u8 list option \<Rightarrow> u8 list \<Rightarrow> command" where
  \<comment> \<open>\<open>packaged\<close> is the path of a bundled release, when there is such a file\<close>
  "backend_command packaged root_path =
     (case packaged of
        Some release \<Rightarrow> \<lparr>program = release, arguments = [''eval'', ''FindexRust.Bridge.run()''], current_dir = None\<rparr>
      | None \<Rightarrow> development_command root_path)"

definition children_left :: "client \<times> child option \<Rightarrow> child list" where
  "children_left p = (case p of (c, awaited) \<Rightarrow>
     (case client_child c of None \<Rightarrow> [] | Some ch \<Rightarrow> [ch]) @ (case awaited of None \<Rightarrow> [] | Some ch \<Rightarrow> [ch]))"

definition session :: "'n backend_env \<Rightarrow> index_handle \<Rightarrow> backend_options \<Rightarrow> worker \<Rightarrow> (string + unit) \<times> worker" where
  "session E index options =
     sbind (send_event (Started (handle_root index) (bo_concurrency options) (bo_mount_policy options))) (\<lambda>_.
     drive_index E (handle_index_id index) options)"

text \<open>
  \<open>run\<close> gets what the operating system made of \<open>backend_command\<close>. Its last result lists the child
  processes as they were left.
\<close>

definition run :: "'n backend_env \<Rightarrow> backend_options \<Rightarrow> io_error + (child \<times> writer option \<times> reader option)
    \<Rightarrow> channel \<Rightarrow> (string + unit) \<times> channel \<times> child list" where
  "run E options spawned ch =
     (case spawn (env_serde E) spawned of
        (Inl e, left) \<Rightarrow>
          (Inl (''could not start Findex backend: '' @ show_error E e), ch, (case left of None \<Rightarrow> [] | Some c \<Rightarrow> [c]))
      | (Inr c, _) \<Rightarrow>
          (case start_scan (env_serde E) (bo_root options) (backend_scan_options options) c of
             (Inl e, c) \<Rightarrow>
               (Inl (''could not start traversal: '' @ show_error E e), ch,
                children_left (snd (shutdown (env_serde E) c)))
           | (Inr index, c) \<Rightarrow>
               (case session E index options \<lparr>w_client = c, w_channel = ch, w_reads = 0\<rparr> of
                  (session_result, w) \<Rightarrow>
                    (case release_index (env_serde E) (handle_index_id index) (w_client w) of
                       (release, c) \<Rightarrow>
                         (case shutdown (env_serde E) c of
                            (down, left) \<Rightarrow>
                              (rbind session_result (\<lambda>_.
                               rbind (map_err (\<lambda>e. ''could not release index: '' @ show_error E e) release) (\<lambda>_.
                               map_err (\<lambda>e. ''could not stop Findex backend: '' @ show_error E e) down)),
                               w_channel w, children_left left))))))"

definition worker_main :: "'n backend_env \<Rightarrow> backend_options \<Rightarrow> io_error + (child \<times> writer option \<times> reader option)
    \<Rightarrow> channel \<Rightarrow> (string + unit) \<times> channel \<times> child list" where
  \<comment> \<open>the closure of \<open>spawn\<close>\<close>
  "worker_main E options spawned ch =
     (case run E options spawned ch of
        (Inl e, ch, left) \<Rightarrow> (Inl e, snd (push_accepted (ErrorEvent e) ch), left)
      | (Inr u, ch, left) \<Rightarrow> (Inr u, ch, left))"

end
