(* ===== verification/Backend_Props.thy ===== *)
theory Backend_Props
  imports Backend Client_Life
begin

text \<open>
  What the worker sends and what it leaves behind: a state machine over the events of the channel
  that every run follows, and the reaping of the child.
\<close>

section \<open>The protocol of the channel\<close>

datatype feed_state = Waiting | Scanning nat | Complete nat | Broken

definition allocated_sum :: "directory_summary list \<Rightarrow> nat" where
  "allocated_sum ds = (\<Sum>d \<leftarrow> ds. unat (dir_allocated_bytes d))"

definition capped :: "nat \<Rightarrow> nat" where
  "capped n = min n (2 ^ 64 - 1)"

definition files_descend :: "directory_summary list \<Rightarrow> bool" where
  "files_descend ds \<longleftrightarrow> list_all (\<lambda>d. descends file_size (dir_largest_files d)) ds"

fun feed_next :: "feed_state \<Rightarrow> backend_event \<Rightarrow> feed_state option" where
  \<comment> \<open>the byte totals of the events are the running sum over the directories sent so far\<close>
  "feed_next Waiting (Started _ _ _) = Some (Scanning 0)"
| "feed_next (Scanning a) (Update _ _ allocated ds h) =
     (if unat allocated = capped (a + allocated_sum ds) \<and> files_descend ds \<and> hist_ok h
      then Some (Scanning (a + allocated_sum ds)) else None)"
| "feed_next (Scanning a) (FinishedEvent _ allocated) = (if unat allocated = capped a then Some (Complete a) else None)"
| "feed_next Broken e = None"
| "feed_next s (ErrorEvent _) = Some Broken"
| "feed_next s e = None"

fun feeds :: "feed_state \<Rightarrow> backend_event list \<Rightarrow> feed_state option" where
  "feeds s [] = Some s"
| "feeds s (e # es) = Option.bind (feed_next s e) (\<lambda>s. feeds s es)"

lemma feeds_append: "feeds s (es @ fs) = Option.bind (feeds s es) (\<lambda>s. feeds s fs)"
  by (induction es arbitrary: s) (auto simp: bind_assoc split: bind_splits)

section \<open>The loop\<close>

definition sends :: "channel \<Rightarrow> backend_event list \<Rightarrow> channel \<Rightarrow> bool" where
  "sends ch es ch' \<longleftrightarrow> accepted ch' = accepted ch @ es \<and> (accepts_more ch = None \<longrightarrow> accepts_more ch' = None)"

lemma sends_refl: "sends ch [] ch"
  by (simp add: sends_def)

lemma sends_trans: "sends ch es ch1 \<Longrightarrow> sends ch1 fs ch2 \<Longrightarrow> sends ch (es @ fs) ch2"
  by (simp add: sends_def)

lemma push_accepted_cases:
  assumes "push_accepted e ch = (m, ch')"
  obtains "m = Inr ()" "sends ch [e] ch'"
  | x where "m = Inl x" "ch' = ch" "accepts_more ch = Some 0"
  using assms by (auto simp: push_accepted_def sends_def split: if_splits)

text \<open>
  \<open>runs f s Q\<close>: from the state \<open>s\<close> of the protocol, what \<open>f\<close> sends is allowed and leads to a state
  that \<open>Q\<close> accepts with its result.
\<close>

definition runs :: "(worker \<Rightarrow> (string + 'a) \<times> worker) \<Rightarrow> feed_state \<Rightarrow> (string + 'a \<Rightarrow> feed_state \<Rightarrow> bool) \<Rightarrow> bool" where
  "runs f s Q \<longleftrightarrow> (\<forall>w r w'. f w = (r, w') \<longrightarrow>
     (\<exists>es s'. sends (w_channel w) es (w_channel w') \<and> feeds s es = Some s' \<and> Q r s'))"

named_theorems runs_rules \<open>the protocol of each step\<close>

lemma runsI:
  assumes "\<And>w r w'. f w = (r, w') \<Longrightarrow> \<exists>es s'. sends (w_channel w) es (w_channel w') \<and> feeds s es = Some s' \<and> Q r s'"
  shows "runs f s Q"
  using assms unfolding runs_def by blast

lemma runsE:
  assumes "runs f s Q" "f w = (r, w')"
  obtains es s' where "sends (w_channel w) es (w_channel w')" "feeds s es = Some s'" "Q r s'"
  using assms unfolding runs_def by blast

lemma runs_spure [runs_rules]: "Q m s \<Longrightarrow> runs (spure m) s Q"
  by (rule runsI, rule exI [of _ "[]"]) (simp add: spure_def sends_refl)

lemma runs_now [runs_rules]: "(\<And>t. Q (Inr t) s) \<Longrightarrow> runs (now E) s Q"
  by (rule runsI, rule exI [of _ "[]"]) (auto simp: now_def sends_refl)

lemma runs_calling [runs_rules]:
  assumes "\<And>e. Q (Inl e) s" "\<And>a. Q (Inr a) s"
  shows "runs (calling E label call) s Q"
proof (rule runsI, rule exI [of _ "[]"], rule exI [of _ s], intro conjI)
  fix w r w' assume "calling E label call w = (r, w')"
  then show "sends (w_channel w) [] (w_channel w')" by (auto simp: calling_def sends_refl split: prod.splits)
  show "Q r s" using assms by (cases r) simp_all
qed simp

lemma runs_send_event [runs_rules]:
  assumes "\<And>e. Q (Inl e) s" "feed_next s event = Some s'" "Q (Inr ()) s'"
  shows "runs (send_event event) s Q"
proof (rule runsI)
  fix w r w' assume "send_event event w = (r, w')"
  then obtain ch where ch: "push_accepted event (w_channel w) = (r, ch)" "w' = w\<lparr>w_channel := ch\<rparr>"
    by (auto simp: send_event_def split: prod.splits)
  from ch(1) show "\<exists>es s'. sends (w_channel w) es (w_channel w') \<and> feeds s es = Some s' \<and> Q r s'"
  proof (cases rule: push_accepted_cases)
    case 1
    then show ?thesis using assms ch(2) by (intro exI [of _ "[event]"] exI [of _ s']) simp
  next
    case (2 x)
    then show ?thesis using assms ch(2) by (intro exI [of _ "[]"] exI [of _ s]) (simp add: sends_refl)
  qed
qed

lemma runs_sbind:
  assumes "runs f s (\<lambda>m s1. case m of Inl e \<Rightarrow> Q (Inl e) s1 | Inr a \<Rightarrow> runs (g a) s1 Q)"
  shows "runs (sbind f g) s Q"
proof (rule runsI)
  fix w r w' assume fg: "sbind f g w = (r, w')"
  obtain m w1 where m: "f w = (m, w1)" by force
  from assms this obtain es s1 where f: "sends (w_channel w) es (w_channel w1)" "feeds s es = Some s1"
    and q: "case m of Inl e \<Rightarrow> Q (Inl e) s1 | Inr a \<Rightarrow> runs (g a) s1 Q" by (rule runsE)
  show "\<exists>es s'. sends (w_channel w) es (w_channel w') \<and> feeds s es = Some s' \<and> Q r s'"
  proof (cases m)
    case (Inl e)
    then show ?thesis using fg m f q by (auto simp: sbind_def)
  next
    case (Inr a)
    then have "runs (g a) s1 Q" "g a w1 = (r, w')" using fg m q by (simp_all add: sbind_def)
    then obtain fs s2 where "sends (w_channel w1) fs (w_channel w')" "feeds s1 fs = Some s2" "Q r s2" by (rule runsE)
    then show ?thesis using f
      by (intro exI [of _ "es @ fs"] exI [of _ s2]) (simp add: feeds_append sends_trans)
  qed
qed

lemma runs_if: "(b \<Longrightarrow> runs f s Q) \<Longrightarrow> (\<not> b \<Longrightarrow> runs g s Q) \<Longrightarrow> runs (if b then f else g) s Q"
  by simp

definition drive_ok :: "nat \<Rightarrow> drive \<Rightarrow> bool" where
  \<comment> \<open>\<open>a\<close> is the sum over the directories sent so far\<close>
  "drive_ok a st \<longleftrightarrow> unat (drive_allocated st) = capped (a + allocated_sum (buffered_summaries st))
     \<and> files_descend (buffered_summaries st) \<and> hist_ok (drive_histogram st)"

lemma descends_summary: "descends file_size (dir_largest_files (summary_from_stats E stat))"
  unfolding summary_from_stats_def directory_summary.select_convs
  using descends_largest_first [of file_size] by (simp only: largest_first_def rank_key_def [abs_def])

lemma drive_ok_absorb: "drive_ok a st \<Longrightarrow> drive_ok a (absorb E stats st)"
proof (induction E stats st rule: absorb.induct)
  case (2 E stat stats st)
  have "dir_allocated_bytes (summary_from_stats E stat) = ds_size_bytes stat"
    by (simp add: summary_from_stats_def)
  then have "unat (sat_add (drive_allocated st) (ds_size_bytes stat))
      = capped (a + allocated_sum (buffered_summaries st @ [summary_from_stats E stat]))"
    using 2(2) by (simp add: drive_ok_def unat_sat_add capped_def min_add_assoc allocated_sum_def)
  then show ?case
    using 2 descends_summary [of E stat] by (simp add: drive_ok_def files_descend_def hist_ok_merge)
qed simp

fun step_result :: "string + drive option \<Rightarrow> feed_state \<Rightarrow> bool" where
  "step_result (Inl e) s = (\<exists>a. s = Scanning a)"
| "step_result (Inr None) s = (\<exists>a. s = Complete a)"
| "step_result (Inr (Some st)) s = (\<exists>a. s = Scanning a \<and> drive_ok a st)"

lemma publish_feed:
  assumes "drive_ok a st"
  shows "runs (publish E index options started_at at_time st) (Scanning a) step_result"
  unfolding publish_def Let_def
  apply (intro runs_sbind runs_calling)
   apply simp
  apply (simp only: sum.case)
  apply (intro runs_sbind runs_now)
  apply (simp only: sum.case)
  apply (intro runs_sbind)
  apply (rule runs_send_event [where s' = "Scanning (a + allocated_sum (buffered_summaries st))"])
    apply simp
   apply (use assms in \<open>simp add: drive_ok_def\<close>)
  apply (simp only: sum.case)
  apply (rule runs_if)
   apply (intro runs_sbind runs_calling)
    apply simp
   apply (simp only: sum.case)
   apply (intro runs_sbind)
   apply (rule runs_send_event [where s' = "Complete (a + allocated_sum (buffered_summaries st))"])
     apply simp
    apply (use assms in \<open>simp add: drive_ok_def\<close>)
   apply (simp only: sum.case)
   apply (rule runs_spure)
   apply simp
  apply (rule runs_spure)
  apply (use assms in \<open>simp add: drive_ok_def allocated_sum_def files_descend_def\<close>)
  done

lemma drive_step_feed:
  assumes "drive_ok a st"
  shows "runs (drive_step E index options started_at st) (Scanning a) step_result"
proof -
  have rest: "runs (sbind (now E) (\<lambda>at_time.
       if next_progress_at st \<le> at_time \<or> unat COMPLETION_BATCH_SIZE \<le> length (buffered_summaries st)
       then publish E index options started_at at_time st
       else spure (Inr (Some st)))) (Scanning a) step_result" if "drive_ok a st" for st
    using that by (auto intro!: runs_sbind runs_now runs_if publish_feed runs_spure)
  have moved: "drive_ok a (st\<lparr>drive_cursor := cursor\<rparr>)" for cursor
    using assms by (simp add: drive_ok_def)
  show ?thesis
    unfolding drive_step_def Let_def
    apply (rule runs_sbind, rule runs_calling, simp)
    apply (simp only: sum.case)
    apply (rule runs_sbind, rule runs_if)
     apply (rule runs_sbind, rule runs_calling, simp)
     apply (simp only: sum.case)
     apply (rule runs_spure)
     apply (simp only: sum.case)
     apply (rule rest, rule drive_ok_absorb, rule moved)
    apply (rule runs_spure)
    apply (simp only: sum.case)
    apply (rule rest, rule moved)
    done
qed

fun settles :: "string + unit \<Rightarrow> feed_state \<Rightarrow> bool" where
  "settles (Inl e) s = (s \<noteq> Broken)"
| "settles (Inr _) s = (\<exists>a. s = Complete a)"

lemma drive_loop_feed:
  assumes "drive_ok a st" "drive_loop E index options started_at st w = (r, w')"
  shows "\<exists>es s. sends (w_channel w) es (w_channel w') \<and> feeds (Scanning a) es = Some s \<and> settles r s"
  using assms
proof (induction E index options started_at st w arbitrary: a rule: drive_loop.induct)
  case (1 E index options started_at st w)
  obtain m w1 where step: "drive_step E index options started_at st w = (m, w1)" by force
  obtain es s where es: "sends (w_channel w) es (w_channel w1)" "feeds (Scanning a) es = Some s" "step_result m s"
    using drive_step_feed [OF 1(2)] step by (rule runsE)
  show ?case
  proof (cases m)
    case (Inl e)
    then have "r = Inl e" "w' = w1" using 1(3) step by (simp_all add: drive_loop.simps [of E index options started_at st w])
    then show ?thesis using es Inl by (intro exI [of _ es] exI [of _ s]) auto
  next
    case (Inr next_st)
    show ?thesis
    proof (cases next_st)
      case None
      then have "r = Inr ()" "w' = w1"
        using 1(3) step Inr by (simp_all add: drive_loop.simps [of E index options started_at st w])
      then show ?thesis using es Inr None by auto
    next
      case (Some st1)
      then obtain b where b: "s = Scanning b" "drive_ok b st1" using es(3) Inr by auto
      have "drive_loop E index options started_at st1 w1 = (r, w')"
        using 1(3) step Inr Some by (simp add: drive_loop.simps [of E index options started_at st w])
      from 1(1) [OF step [symmetric] Inr Some b(2) this] obtain fs s' where "sends (w_channel w1) fs (w_channel w')"
        "feeds (Scanning b) fs = Some s'" "settles r s'" by blast
      then show ?thesis using es(1,2) b(1)
        by (intro exI [of _ "es @ fs"] exI [of _ s']) (simp add: feeds_append sends_trans)
    qed
  qed
qed

lemma drive_index_feed:
  "runs (drive_index E index options) (Scanning 0) settles"
proof -
  have start: "drive_ok 0 \<lparr>next_progress_at = t, drive_cursor = 0, buffered_summaries = [], drive_allocated = 0,
          drive_histogram = default_histogram\<rparr>" for t
    by (simp add: drive_ok_def capped_def allocated_sum_def files_descend_def)
  show ?thesis
    unfolding drive_index_def
    by (intro runs_sbind, rule runs_now, simp only: sum.case) (rule runsI, rule drive_loop_feed [OF start])
qed

lemma session_feed:
  "runs (session E index options) Waiting settles"
  unfolding session_def
  by (intro runs_sbind, rule runs_send_event [where s' = "Scanning 0"]) (simp_all add: drive_index_feed)

lemma run_feed:
  assumes "run E options spawned ch = (r, ch', left)"
  shows "\<exists>es s. sends ch es ch' \<and> feeds Waiting es = Some s \<and> settles r s"
proof -
  have early: ?thesis if "ch' = ch" "isl r"
    using that sends_refl [of ch] by (intro exI [of _ "[]"] exI [of _ Waiting]) (cases r; simp)
  obtain m c0 where sp: "spawn (env_serde E) spawned = (m, c0)" by force
  show ?thesis
  proof (cases m)
    case (Inl e)
    then show ?thesis using assms sp early by (auto simp: run_def)
  next
    case (Inr c)
    obtain m1 c1 where st: "start_scan (env_serde E) (bo_root options) (backend_scan_options options) c = (m1, c1)" by force
    show ?thesis
    proof (cases m1)
      case (Inl e)
      then show ?thesis using assms sp Inr st early by (auto simp: run_def)
    next
      case (Inr index)
      obtain q w where se: "session E index options \<lparr>w_client = c1, w_channel = ch, w_reads = 0\<rparr> = (q, w)" by force
      from session_feed this obtain es s where es: "sends ch es (w_channel w)" "feeds Waiting es = Some s"
        "settles q s"
        by (rule runsE) simp
      have "ch' = w_channel w" "r = Inr () \<longrightarrow> q = Inr ()"
        using assms sp st se \<open>m = Inr c\<close> Inr
        by (auto simp: run_def split: prod.splits) (cases q; simp)
      then have "settles r s" using es(3) by (cases q; cases r) auto
      then show ?thesis using es(1,2) \<open>ch' = _\<close> by blast
    qed
  qed
qed

section \<open>The child\<close>

lemma settled_drive_step: "settled (drive_step E index options started_at st)"
  unfolding drive_step_def Let_def
  by (intro settled_rules settled_publish completed_directories.forward summarize_directories.forward)

lemma drive_loop_later:
  "drive_loop E index options started_at st w = (r, w') \<Longrightarrow> later (w_client w) (w_client w')"
proof (induction E index options started_at st w rule: drive_loop.induct)
  case (1 E index options started_at st w)
  obtain m w1 where step: "drive_step E index options started_at st w = (m, w1)" by force
  have first: "later (w_client w) (w_client w1)" using settled_drive_step step by (rule settledD)
  show ?case
  proof (cases "\<exists>st1. m = Inr (Some st1)")
    case True
    then obtain st1 where st1: "m = Inr (Some st1)" ..
    then have "drive_loop E index options started_at st1 w1 = (r, w')"
      using 1(2) step by (simp add: drive_loop.simps [of E index options started_at st w])
    then have "later (w_client w1) (w_client w')" by (rule 1(1) [OF step [symmetric] st1 refl])
    with first show ?thesis by (rule later_trans)
  next
    case False
    then have "w' = w1"
      using 1(2) step by (auto simp: drive_loop.simps [of E index options started_at st w] split: sum.splits option.splits)
    with first show ?thesis by simp
  qed
qed

lemma settled_session: "settled (session E index options)"
proof -
  have "settled (drive_loop E i options t st)" for i t st
    unfolding settled_def by (metis drive_loop_later prod.collapse)
  then show ?thesis unfolding session_def drive_index_def by (intro settled_rules)
qed

lemma children_left_shutdown:
  assumes "client_child c \<noteq> None" and "shutdown S c = (r, left)"
  shows "\<exists>ch. children_left left = [ch] \<and> reaped ch"
proof -
  obtain c' awaited where left: "left = (c', awaited)" by force
  from shutdown_reaps_aux [OF assms(1) assms(2) [unfolded left]] show ?thesis
    by (auto simp: left children_left_def)
qed

lemma later_child: "later c c' \<Longrightarrow> client_child c \<noteq> None \<Longrightarrow> client_child c' \<noteq> None"
  by (auto simp: later_def child_later_def option_rel_Some1)

lemma run_children:
  assumes "run E options spawned ch = (r, ch', left)"
  shows "if isl spawned then left = [] else \<exists>c. left = [c] \<and> reaped c"
proof -
  obtain m c0 where sp: "spawn (env_serde E) spawned = (m, c0)" by force
  show ?thesis
  proof (cases m)
    case (Inl e)
    then show ?thesis using assms sp
      by (auto simp: run_def spawn_def simp del: fun_upd_apply split: sum.splits prod.splits option.splits if_splits)
  next
    case (Inr c)
    then have live: "client_child c \<noteq> None" "\<not> isl spawned"
      using sp by (auto simp: spawn_def split: sum.splits prod.splits option.splits if_splits)
    obtain m1 c1 where st: "start_scan (env_serde E) (bo_root options) (backend_scan_options options) c = (m1, c1)" by force
    have c1: "client_child c1 \<noteq> None"
      using forwardD [OF start_scan.forward st] live(1) by (rule later_child)
    show ?thesis
    proof (cases m1)
      case (Inl e)
      obtain d p where d: "shutdown (env_serde E) c1 = (d, p)" using surj_pair by metis
      from children_left_shutdown [OF c1 d] show ?thesis
        using assms sp Inr st Inl live(2) d by (auto simp: run_def)
    next
      case (Inr index)
      obtain q w where se: "session E index options \<lparr>w_client = c1, w_channel = ch, w_reads = 0\<rparr> = (q, w)" by force
      obtain rel c2 where re: "release_index (env_serde E) (handle_index_id index) (w_client w) = (rel, c2)" by force
      obtain d p where d: "shutdown (env_serde E) c2 = (d, p)" using surj_pair by metis
      have "later c1 (w_client w)" using settledD [OF settled_session se] by simp
      then have "client_child c2 \<noteq> None"
        using later_child [OF forwardD [OF release_index.forward re]] later_child c1 by blast
      from children_left_shutdown [OF this d] show ?thesis
        using assms sp st \<open>m = Inr c\<close> Inr live(2) se re d by (auto simp: run_def)
    qed
  qed
qed

section \<open>The properties\<close>

lemma worker_feed_aux:
  "case worker_main E options spawned ch of (r, ch', left) \<Rightarrow>
     \<exists>es s. accepted ch' = accepted ch @ es \<and> feeds Waiting es = Some s
       \<and> (case r of Inr _ \<Rightarrow> (\<exists>a. s = Complete a) 
           | Inl e \<Rightarrow> if accepts_more ch = None then s = Broken \<and> last es = ErrorEvent e else True)"
proof -
  obtain r ch1 left where run: "run E options spawned ch = (r, ch1, left)" by (metis prod_cases3)
  obtain es s where es: "sends ch es ch1" "feeds Waiting es = Some s" "settles r s"
    using run_feed [OF run] by blast
  show ?thesis
  proof (cases r)
    case (Inr u)
    then show ?thesis using es run by (auto simp: worker_main_def sends_def intro!: exI [of _ es])
  next
    case (Inl e)
    obtain m ch2 where push: "push_accepted (ErrorEvent e) ch1 = (m, ch2)" by force
    then show ?thesis
    proof (cases rule: push_accepted_cases)
      case 1
      have "s \<noteq> Broken" using es(3) Inl by simp
      then have "feed_next s (ErrorEvent e) = Some Broken" by (cases s) simp_all
      then have "feeds Waiting (es @ [ErrorEvent e]) = Some Broken" using es(2) by (simp add: feeds_append)
      then show ?thesis using es(1) run push Inl 1
        by (auto simp: worker_main_def sends_def intro!: exI [of _ "es @ [ErrorEvent e]"])
    next
      case (2 x)
      then show ?thesis using es run push Inl
        by (auto simp: worker_main_def sends_def intro!: exI [of _ es])
    qed
  qed
qed

text \<open>
  C23. What the worker sends follows the protocol of \<open>feed_next\<close>: one \<open>Started\<close>, then updates whose byte total is the
  capped sum over every directory sent so far, whose files descend by size and whose histogram is
  well-formed, then one \<open>Finished\<close> with the same total; an error, if any, comes last. A worker that
  succeeds has sent \<open>Finished\<close>; one that fails while the receiver stays has sent the error.
\<close>
theorem worker_feed:
  "case worker_main E options spawned ch of (r, ch', left) \<Rightarrow>
     \<exists>es s. accepted ch' = accepted ch @ es \<and> feeds Waiting es = Some s
       \<and> (case r of Inr _ \<Rightarrow> (\<exists>a. s = Complete a) 
           | Inl e \<Rightarrow> if accepts_more ch = None then s = Broken \<and> last es = ErrorEvent e else True)"
  by (rule worker_feed_aux)

text \<open>
  C24. However the worker ends (the backend does not start, the scan is refused, the session or the
  release fails, the receiver is gone), it leaves no child behind: the one child it started, if any, is
  reaped.
\<close>
theorem worker_leaves_no_child:
  "case worker_main E options spawned ch of (r, ch', left) \<Rightarrow>
     if isl spawned then left = [] else \<exists>c. left = [c] \<and> reaped c"
  using run_children [of E options spawned ch]
  by (cases "run E options spawned ch") (auto simp: worker_main_def split: sum.splits prod.splits)

text \<open>The loop again, with a bound on its turns.\<close>

fun drive_turns :: "nat \<Rightarrow> 'n backend_env \<Rightarrow> index_id \<Rightarrow> backend_options \<Rightarrow> nat \<Rightarrow> drive \<Rightarrow> worker
    \<Rightarrow> ((string + unit) \<times> worker) option" where
  "drive_turns 0 E index options started_at st w = None"
| "drive_turns (Suc n) E index options started_at st w =
     (case drive_step E index options started_at st w of
        (Inl e, w) \<Rightarrow> Some (Inl e, w)
      | (Inr None, w) \<Rightarrow> Some (Inr (), w)
      | (Inr (Some st), w) \<Rightarrow> drive_turns n E index options started_at st w)"

lemma drive_turns_enough:
  "bytes_to_come (w_client w) < n
    \<Longrightarrow> drive_turns n E index options started_at st w = Some (drive_loop E index options started_at st w)"
proof (induction n arbitrary: st w)
  case (Suc n)
  obtain m w1 where step: "drive_step E index options started_at st w = (m, w1)" by force
  have "bytes_to_come (w_client w1) < n" if "m = Inr r" for r
    using drive_step_consumes [OF step [unfolded that]] Suc.prems by linarith
  then show ?case using step Suc.IH
    by (auto simp: drive_loop.simps [of E index options started_at st w] split: sum.splits option.splits)
qed simp


end
