(* ===== verification/Pipeline.thy ===== *)
theory Pipeline
  imports Backend_Props Scan_Demo
begin

text \<open>
  The worker and the view model together: whatever the worker sends, the view model takes without a
  panic; the leaderboard and the totals it then shows are those of the summaries that the backend gave.
\<close>

definition summaries :: "backend_event list \<Rightarrow> directory_summary list" where
  "summaries es = concat (map event_dirs es)"

lemma feeds_files: "feeds s es = Some s' \<Longrightarrow> \<forall>e \<in> set es. \<forall>d \<in> set (event_dirs e). descends file_size (dir_largest_files d)"
proof (induction es arbitrary: s)
  case (Cons e es)
  then obtain s1 where s1: "feed_next s e = Some s1" "feeds s1 es = Some s'" by (auto simp: bind_eq_Some_conv)
  have "\<forall>d \<in> set (event_dirs e). descends file_size (dir_largest_files d)"
    using s1(1) by (cases s; cases e) (auto simp: event_dirs_def files_descend_def list_all_iff split: if_splits)
  with Cons.IH [OF s1(2)] show ?case by simp
qed simp

lemma feeds_Broken [simp]: "feeds Broken es \<noteq> Some (Complete b)"
  by (cases es) auto

lemma allocated_sum_append [simp]: "allocated_sum (ds @ es) = allocated_sum ds + allocated_sum es"
  by (simp add: allocated_sum_def)

lemma feeds_Complete: "feeds (Complete a) es = Some (Complete b) \<Longrightarrow> es = [] \<and> a = b"
proof (cases es)
  case (Cons e rest)
  assume "feeds (Complete a) es = Some (Complete b)"
  then show ?thesis using Cons by (cases e) simp_all
qed simp

lemma feeds_Scanning:
  "feeds (Scanning a) es = Some (Complete b) \<Longrightarrow>
     b = a + allocated_sum (summaries es)
     \<and> (\<exists>front result allocated. es = front @ [FinishedEvent result allocated] \<and> unat allocated = capped b)"
proof (induction es arbitrary: a)
  case (Cons e es)
  show ?case
  proof (cases e)
    case (Update status elapsed allocated ds h)
    then have "feeds (Scanning (a + allocated_sum ds)) es = Some (Complete b)"
      using Cons.prems by (auto split: if_splits)
    from Cons.IH [OF this] obtain front result last_allocated where
      "b = a + allocated_sum ds + allocated_sum (summaries es)"
      "es = front @ [FinishedEvent result last_allocated]" "unat last_allocated = capped b" by blast
    then show ?thesis using Update
      by (intro conjI exI [of _ "e # front"] exI [of _ result] exI [of _ last_allocated])
        (simp_all add: summaries_def event_dirs_def)
  next
    case (FinishedEvent result allocated)
    then show ?thesis using Cons.prems
      by (auto dest!: feeds_Complete simp: summaries_def event_dirs_def allocated_sum_def split: if_splits)
  next
    case (ErrorEvent e)
    then show ?thesis using Cons.prems by simp_all
  qed (use Cons.prems in simp)
qed simp

lemma feeds_Waiting:
  assumes "feeds Waiting es = Some (Complete b)"
  shows "b = allocated_sum (summaries es)
     \<and> (\<exists>front result allocated. es = front @ [FinishedEvent result allocated] \<and> unat allocated = capped b)"
proof (cases es)
  case (Cons e rest)
  then show ?thesis
  proof (cases e)
    case (Started root conc policy)
    then have "feeds (Scanning 0) rest = Some (Complete b)" using assms Cons by simp
    from feeds_Scanning [OF this] obtain front result allocated where
      "b = allocated_sum (summaries rest)" "rest = front @ [FinishedEvent result allocated]" "unat allocated = capped b" by auto
    then show ?thesis using Cons Started
      by (intro conjI exI [of _ "e # front"] exI [of _ result] exI [of _ allocated])
        (simp_all add: summaries_def event_dirs_def)
  next
    case (ErrorEvent e)
    then show ?thesis using assms Cons by simp_all
  qed (use assms Cons in simp_all)
qed (use assms in simp)

lemma apply_events_append:
  "apply_events (es @ fs) m = Option.bind (apply_events es m) (apply_events fs)"
proof (induction es arbitrary: m)
  case (Cons e es)
  then show ?case by (cases "apply_event e m") simp_all
qed simp

lemma apply_events_last:
  assumes "apply_events (front @ [e]) m = Some m'"
  shows "\<exists>m1. apply_events front m = Some m1 \<and> apply_event e m1 = Some m'"
  using assms by (auto simp: apply_events_append bind_eq_Some_conv)

lemma complete_feed_shown:
  assumes "feeds Waiting es = Some (Complete b)" "apply_events es m = Some m'"
  shows "finished m' \<and> unat (c_allocated_bytes (counters m')) = capped (allocated_sum (summaries es))"
proof -
  from feeds_Waiting [OF assms(1)] obtain front result allocated where
    es: "es = front @ [FinishedEvent result allocated]" "unat allocated = capped (allocated_sum (summaries es))" by blast
  from apply_events_last [OF assms(2) [unfolded es(1)]] obtain m1
    where "apply_event (FinishedEvent result allocated) m1 = Some m'" by blast
  then show ?thesis using es(2) by (auto simp: apply_event_def report_counters_def Let_def)
qed

text \<open>
  A scan from end to end: the view model takes every event that the worker sends, its leaderboard is the list of the 100
  largest files among all those the summaries offered, and in the end it shows either a finished scan with
  the total of all summaries' bytes, capped at the largest \<open>u64\<close>, or the worker's error.
\<close>
lemma worker_to_view:
  assumes "worker_main E options spawned \<lparr>accepted = [], accepts_more = None\<rparr> = (r, ch, left)"
    and "\<forall>d \<in> set (summaries (accepted ch)). dir_parent_id d \<noteq> Some NO_PARENT"
  shows "\<exists>m. apply_events (accepted ch) (new_model limit) = Some m
    \<and> top_files m = take TOP_LIMIT (largest_first entry_bytes (offered (accepted ch) (new_model limit)))
    \<and> (case r of
         Inr _ \<Rightarrow> finished m \<and> unat (c_allocated_bytes (counters m)) = capped (allocated_sum (summaries (accepted ch)))
       | Inl e \<Rightarrow> notice m = Some \<lparr>notice_text = e, notice_level = ErrorLevel\<rparr>)"
proof -
  let ?es = "accepted ch"
  from worker_feed_aux [where E = E and options = options and spawned = spawned
      and ch = "\<lparr>accepted = [], accepts_more = None\<rparr>"] assms(1)
  obtain s where s: "feeds Waiting ?es = Some s"
    "case r of Inr _ \<Rightarrow> (\<exists>a. s = Complete a) | Inl e \<Rightarrow> s = Broken \<and> last ?es = ErrorEvent e" by (auto cong: sum.case_cong)
  have legal: "\<forall>e \<in> set ?es. \<forall>d \<in> set (event_dirs e). dir_parent_id d \<noteq> Some NO_PARENT"
    using assms(2) by (auto simp: summaries_def)
  obtain m where m: "apply_events ?es (new_model limit) = Some m"
    using apply_events_ok [OF model_ok_new legal] by blast
  have "top_files (new_model limit) = take TOP_LIMIT (largest_first entry_bytes [])"
    by (simp add: new_model_def largest_first_def)
  from apply_events_board [OF m this feeds_files [OF s(1)]]
  have board: "top_files m = take TOP_LIMIT (largest_first entry_bytes (offered ?es (new_model limit)))" by simp
  show ?thesis
  proof (cases r)
    case (Inr u)
    then show ?thesis using m board s complete_feed_shown [OF _ m] by auto
  next
    case (Inl e)
    then have "?es \<noteq> []" "last ?es = ErrorEvent e" using s by (cases ?es; simp)+
    then have "?es = butlast ?es @ [ErrorEvent e]" by (metis append_butlast_last_id)
    then obtain m1 where "apply_event (ErrorEvent e) m1 = Some m"
      using apply_events_last m by metis
    then show ?thesis using m board Inl by (auto simp: apply_event_def)
  qed
qed

lemma parents_first_legal:
  "\<lbrakk>parents_first seen ds; NO_PARENT \<notin> set seen\<rbrakk> \<Longrightarrow> \<forall>d \<in> set ds. dir_parent_id d \<noteq> Some NO_PARENT"
  by (induction ds arbitrary: seen) (fastforce split: option.splits)+

lemma total_of_everything:
  assumes "\<forall>d \<in> set ds. i \<in> set (climb (parent_of ds) MAX_DEPTH (dir_id d))"
  shows "total_bytes ds i = allocated_sum ds"
proof -
  have "map (\<lambda>d. if i \<in> set (climb (parent_of ds) MAX_DEPTH (dir_id d)) then unat (dir_allocated_bytes d) else 0) ds
      = map (\<lambda>d. unat (dir_allocated_bytes d)) ds"
    using assms by simp
  then show ?thesis by (simp only: total_bytes_def allocated_sum_def)
qed

text \<open>
  C38. The two totals on the screen agree: after a complete feed that reports parents first, a directory that is an ancestor of
  every summarised directory within \<open>MAX_DEPTH\<close> levels, such as the root of the scan, has in the
  size tree exactly the bytes that the counters show.
\<close>
theorem totals_agree:
  assumes "feeds Waiting es = Some (Complete b)" and "parents_first [] (summaries es)"
    and "\<forall>d \<in> set (summaries es). i \<in> set (climb (parent_of (summaries es)) MAX_DEPTH (dir_id d))"
  shows "\<exists>m. apply_events es (new_model limit) = Some m \<and> subtree_bytes (tree m) i = c_allocated_bytes (counters m)"
proof -
  have legal: "\<forall>e \<in> set es. \<forall>d \<in> set (event_dirs e). dir_parent_id d \<noteq> Some NO_PARENT"
    using parents_first_legal [OF assms(2)] by (auto simp: summaries_def)
  obtain m where m: "apply_events es (new_model limit) = Some m"
    using apply_events_ok [OF model_ok_new legal] by blast
  have t: "tree_batches (dir_batches es) empty_tree = Some (tree m)"
    using apply_events_tree [OF m] by (simp add: new_model_def)
  have p: "parents_first [] (concat (dir_batches es))" using assms(2) by (simp add: concat_dir_batches summaries_def)
  from tree_batches_holds [OF p] t have "holds (summaries es) (tree m)" by (simp add: concat_dir_batches summaries_def)
  then have "unat (subtree_bytes (tree m) i) = capped (allocated_sum (summaries es))"
    using total_of_everything [OF assms(3)] by (simp add: holds_def capped_def)
  then show ?thesis using m complete_feed_shown [OF assms(1) m] by (metis word_unat_eq_iff)
qed

end
