(* ===== verification/Pipeline_Demo.thy ===== *)
theory Pipeline_Demo
  imports Pipeline Client_Demo
begin

text \<open>The witnesses of the properties of the whole pipeline: a backend that does not start, and a feed of a small scan.\<close>

definition demo_env :: "demo_number backend_env" where
  "demo_env = \<lparr>env_serde = demo_serde, env_show_status = (\<lambda>_. ''exit''), env_show_path = string_of_bytes,
     env_json_text = (\<lambda>_. ''json''), env_clock = (\<lambda>_. 0)\<rparr>"

definition demo_options :: backend_options where
  "demo_options = \<lparr>project_root = [], bo_root = as_bytes ''/srv'', bo_fields = [''type''], bo_concurrency = None,
     poll_interval = 10, progress_interval = 100, bo_mount_policy = Cross\<rparr>"

definition demo_start_error :: string where
  "demo_start_error = ''could not start Findex backend: '' @ show_error demo_env (Io (IoError ''no elixir''))"

lemma demo_failed_worker:
  "worker_main demo_env demo_options (Inl (IoError ''no elixir'')) \<lparr>accepted = [], accepts_more = None\<rparr>
     = (Inl demo_start_error, \<lparr>accepted = [ErrorEvent demo_start_error], accepts_more = None\<rparr>, [])"
  by (simp add: worker_main_def run_def spawn_def push_accepted_def demo_env_def demo_start_error_def)

lemma worker_to_view_witness:
  "\<exists>m. apply_events [ErrorEvent demo_start_error] (new_model 5) = Some m
     \<and> notice m = Some \<lparr>notice_text = demo_start_error, notice_level = ErrorLevel\<rparr>"
  using worker_to_view [OF demo_failed_worker, of 5] by (auto simp: summaries_def event_dirs_def)

definition demo_result :: scan_result where
  "demo_result = \<lparr>result_outcome = OutcomeOk,
     result_report = \<lparr>report_root = ''/srv'', report_complete = True, report_elapsed_ms = F64_1000, report_entries = 2,
       report_directories = 3, report_regular_files = 1, report_symlinks = 0, report_other = 0, report_metadata_errors = 0,
       report_metadata_error_counts = [], report_directory_failure_counts = [], report_directory_failure_reasons = [],
       directory_failure_samples = [], report_skipped_mounts = 0, report_store = demo_store\<rparr>,
     result_failure = None\<rparr>"

definition demo_feed :: "backend_event list" where
  "demo_feed = [Started ''/srv'' None Cross,
     Update demo_status F64_0 130 [demo_root_dir] default_histogram,
     Update demo_status F64_1000 190 [demo_sub_dir, demo_lost_dir] default_histogram,
     FinishedEvent demo_result 190]"

lemma demo_feed_complete: "feeds Waiting demo_feed = Some (Complete 190)"
  by (simp add: demo_feed_def allocated_sum_def files_descend_def capped_def demo_root_dir_def demo_sub_dir_def
      demo_lost_dir_def demo_dir_def demo_file_def descends_def)

lemma totals_agree_witness:
  "\<exists>m. apply_events demo_feed (new_model 5) = Some m \<and> subtree_bytes (tree m) 0 = c_allocated_bytes (counters m)"
proof -
  have s: "summaries demo_feed = [demo_root_dir, demo_sub_dir, demo_lost_dir]"
    by (simp add: summaries_def demo_feed_def event_dirs_def)
  have p: "parents_first [] (summaries demo_feed)"
    by (simp add: s demo_root_dir_def demo_sub_dir_def demo_lost_dir_def demo_dir_def NO_PARENT_def)
  let ?f = "parent_of (summaries demo_feed)"
  have up: "?f 0 = None" "?f 1 = Some 0" "?f 2 = Some 1"
    by (simp_all add: s parent_of_def demo_root_dir_def demo_sub_dir_def demo_lost_dir_def demo_dir_def)
  have deep: "MAX_DEPTH = Suc (Suc (Suc 509))" by (simp add: MAX_DEPTH_def)
  have "0 \<in> set (climb ?f MAX_DEPTH 0)" "0 \<in> set (climb ?f MAX_DEPTH 1)" "0 \<in> set (climb ?f MAX_DEPTH 2)"
    unfolding deep by (simp_all only: climb.simps up option.case list.set insert_iff simp_thms)
  then have "\<forall>d \<in> set (summaries demo_feed). 0 \<in> set (climb ?f MAX_DEPTH (dir_id d))"
    by (simp add: s demo_root_dir_def demo_sub_dir_def demo_lost_dir_def demo_dir_def)
  from totals_agree [OF demo_feed_complete p this] show ?thesis .
qed

end
