(* ===== verification/Cli.thy ===== *)
theory Cli
  imports Prelude
begin

text \<open>
  The command line of the desktop application (\<open>parse_arguments\<close> of \<open>desktop/src/main.rs\<close>): the record of the
  options, the parser as a recursion over the remaining arguments, its soundness, and a round trip
  with a rendering of the options.
\<close>

section \<open>Numbers\<close>

definition is_digit :: "char \<Rightarrow> bool" where
  "is_digit c \<longleftrightarrow> (48 :: nat) \<le> of_char c \<and> (of_char c :: nat) \<le> 57"

definition decimal :: "string \<Rightarrow> nat" where
  "decimal s = foldl (\<lambda>n c. n * 10 + (of_char c - 48)) 0 s"

definition parse_u32 :: "string \<Rightarrow> u32 option" where
  \<comment> \<open>\<open>str::parse::<u32>().ok()\<close>: an optional plus sign and at least one digit, in range\<close>
  "parse_u32 s =
     (let digits = (case s of c # d \<Rightarrow> if c = CHR ''+'' then d else s | [] \<Rightarrow> [])
      in if digits = [] \<or> \<not> list_all is_digit digits \<or> decimal digits \<ge> 2 ^ 32 then None
         else Some (word_of_nat (decimal digits)))"

definition starts_with :: "string \<Rightarrow> string \<Rightarrow> bool" where
  \<comment> \<open>\<open>str::starts_with\<close>\<close>
  "starts_with s p \<longleftrightarrow> take (length p) s = p"

section \<open>Options\<close>

record cli =
  cli_help :: bool
  cli_root :: "string option"
  cli_project_root :: "u8 list option"
  cli_fields :: "string list"
  cli_concurrency :: "u32 option"
  cli_cross_mounts :: bool
  cli_dark :: bool
  cli_anonymize :: bool
  cli_autoshot :: "u8 list option"
  cli_record :: "u8 list option"
  cli_record_fps :: "u32 option"

definition default_cli :: cli where
  "default_cli = \<lparr>cli_help = False, cli_root = None, cli_project_root = None, cli_fields = [],
     cli_concurrency = None, cli_cross_mounts = False, cli_dark = False, cli_anonymize = False,
     cli_autoshot = None, cli_record = None, cli_record_fps = None\<rparr>"

definition record_rate_arg :: "string \<Rightarrow> string + u32" where
  "record_rate_arg value =
     ok_or (case parse_u32 value of Some fps \<Rightarrow> if 1 \<le> fps \<and> fps \<le> 60 then Some fps else None | None \<Rightarrow> None)
       ''--record-fps must be between 1 and 60''"

definition concurrency_arg :: "string \<Rightarrow> string \<Rightarrow> string + u32" where
  "concurrency_arg argument value =
     ok_or (case parse_u32 value of Some n \<Rightarrow> if n > 0 then Some n else None | None \<Rightarrow> None)
       (argument @ '' must be a positive integer'')"

definition next_value :: "string list \<Rightarrow> string \<Rightarrow> string + string \<times> string list" where
  \<comment> \<open>\<open>arguments.next().ok_or_else(..)?\<close>\<close>
  "next_value rest missing = (case rest of [] \<Rightarrow> Inl missing | value # rest \<Rightarrow> Inr (value, rest))"

definition parse_step :: "string \<Rightarrow> string list \<Rightarrow> cli \<Rightarrow> string + string list \<times> cli" where
  \<comment> \<open>the body of the \<open>while let\<close> loop: what is left of the arguments, and the options\<close>
  "parse_step argument rest cli =
     (if argument = ''-h'' \<or> argument = ''--help'' then Inr (rest, cli\<lparr>cli_help := True\<rparr>)
      else if argument = ''--cross-mounts'' then Inr (rest, cli\<lparr>cli_cross_mounts := True\<rparr>)
      else if argument = ''--dark'' then Inr (rest, cli\<lparr>cli_dark := True\<rparr>)
      else if argument = ''--anonymize'' then Inr (rest, cli\<lparr>cli_anonymize := True\<rparr>)
      else if argument = ''--autoshot'' then
        rbind (next_value rest ''--autoshot requires a directory'') (\<lambda>(value, rest).
        Inr (rest, cli\<lparr>cli_autoshot := Some (as_bytes value)\<rparr>))
      else if argument = ''--record'' then
        rbind (next_value rest ''--record requires a directory'') (\<lambda>(value, rest).
        Inr (rest, cli\<lparr>cli_record := Some (as_bytes value)\<rparr>))
      else if argument = ''--record-fps'' then
        rbind (next_value rest ''--record-fps requires a value'') (\<lambda>(value, rest).
        rbind (record_rate_arg value) (\<lambda>fps.
        Inr (rest, cli\<lparr>cli_record_fps := Some fps\<rparr>)))
      else if argument = ''--workspace-root'' \<or> argument = ''--project-root'' then
        rbind (next_value rest (argument @ '' requires a value'')) (\<lambda>(value, rest).
        Inr (rest, cli\<lparr>cli_project_root := Some (as_bytes value)\<rparr>))
      else if argument = ''-c'' \<or> argument = ''--concurrency'' then
        rbind (next_value rest (argument @ '' requires a value'')) (\<lambda>(value, rest).
        rbind (concurrency_arg argument value) (\<lambda>n.
        Inr (rest, cli\<lparr>cli_concurrency := Some n\<rparr>)))
      else if argument = ''--field'' then
        rbind (next_value rest ''--field requires a value'') (\<lambda>(value, rest).
        if value = [] then Inl ''--field must not be empty''
        else Inr (rest, cli\<lparr>cli_fields := cli_fields cli @ [value]\<rparr>))
      else if starts_with argument ''-'' then Inl (''unknown option: '' @ argument)
      else if cli_root cli \<noteq> None then Inl ''at most one ROOT directory is accepted''
      else Inr (rest, cli\<lparr>cli_root := Some argument\<rparr>))"

definition yields :: "('a \<Rightarrow> bool) \<Rightarrow> string + 'a \<Rightarrow> bool" where
  "yields P m \<longleftrightarrow> (\<forall>a. m = Inr a \<longrightarrow> P a)"

named_theorems yields_rules \<open>what a branch of the parser yields\<close>

lemma yieldsD: "yields P m \<Longrightarrow> m = Inr a \<Longrightarrow> P a"
  by (simp add: yields_def)

lemma yields_branches [yields_rules]:
  "yields P (Inl e)"
  "P a \<Longrightarrow> yields P (Inr a)"
  "(b \<Longrightarrow> yields P m) \<Longrightarrow> (\<not> b \<Longrightarrow> yields P n) \<Longrightarrow> yields P (if b then m else n)"
  "(\<And>v r. rest = v # r \<Longrightarrow> yields P (f (v, r))) \<Longrightarrow> yields P (rbind (next_value rest missing) f)"
  "(\<And>v r. p = (v, r) \<Longrightarrow> yields P (g v r)) \<Longrightarrow> yields P (case p of (v, r) \<Rightarrow> g v r)"
  "(\<And>fps. record_rate_arg value = Inr fps \<Longrightarrow> yields P (h fps)) \<Longrightarrow> yields P (rbind (record_rate_arg value) h)"
  "(\<And>n. concurrency_arg argument value = Inr n \<Longrightarrow> yields P (h n)) \<Longrightarrow> yields P (rbind (concurrency_arg argument value) h)"
  by (auto simp: yields_def next_value_def rbind_eq_Inr_iff split: list.splits prod.splits)

lemma parse_step_rest: "yields (\<lambda>(rest', cli'). length rest' \<le> length rest) (parse_step argument rest cli)"
  unfolding parse_step_def by (intro yields_rules) simp_all

function parse_loop :: "string list \<Rightarrow> cli \<Rightarrow> string + cli" where
  "parse_loop [] cli = Inr cli"
| "parse_loop (argument # rest) cli =
     (case parse_step argument rest cli of
        Inl e \<Rightarrow> Inl e
      | Inr (rest, cli) \<Rightarrow> parse_loop rest cli)"
  by pat_completeness auto
termination
  by (relation "measure (length \<circ> fst)") (auto dest!: yieldsD [OF parse_step_rest] simp: less_Suc_eq_le)

definition parse_arguments :: "string list \<Rightarrow> string + cli" where
  "parse_arguments args = parse_loop args default_cli"

section \<open>What the parser accepts\<close>

definition cli_ok :: "cli \<Rightarrow> bool" where
  "cli_ok c \<longleftrightarrow>
     (case cli_concurrency c of None \<Rightarrow> True | Some n \<Rightarrow> 0 < n)
   \<and> (case cli_record_fps c of None \<Rightarrow> True | Some fps \<Rightarrow> 1 \<le> fps \<and> fps \<le> 60)
   \<and> [] \<notin> set (cli_fields c)
   \<and> (case cli_root c of None \<Rightarrow> True | Some r \<Rightarrow> \<not> starts_with r ''-'')"

lemma cli_ok_updates [simp]:
  "cli_ok (c\<lparr>cli_help := b\<rparr>) = cli_ok c"
  "cli_ok (c\<lparr>cli_cross_mounts := b\<rparr>) = cli_ok c"
  "cli_ok (c\<lparr>cli_dark := b\<rparr>) = cli_ok c"
  "cli_ok (c\<lparr>cli_anonymize := b\<rparr>) = cli_ok c"
  "cli_ok (c\<lparr>cli_autoshot := p\<rparr>) = cli_ok c"
  "cli_ok (c\<lparr>cli_record := p\<rparr>) = cli_ok c"
  "cli_ok (c\<lparr>cli_project_root := p\<rparr>) = cli_ok c"
  by (simp_all add: cli_ok_def)

lemma cli_ok_values:
  "cli_ok c \<Longrightarrow> record_rate_arg value = Inr fps \<Longrightarrow> cli_ok (c\<lparr>cli_record_fps := Some fps\<rparr>)"
  "cli_ok c \<Longrightarrow> concurrency_arg argument value = Inr n \<Longrightarrow> cli_ok (c\<lparr>cli_concurrency := Some n\<rparr>)"
  "cli_ok c \<Longrightarrow> value \<noteq> [] \<Longrightarrow> cli_ok (c\<lparr>cli_fields := cli_fields c @ [value]\<rparr>)"
  "cli_ok c \<Longrightarrow> \<not> starts_with argument ''-'' \<Longrightarrow> cli_ok (c\<lparr>cli_root := Some argument\<rparr>)"
  by (auto simp: cli_ok_def record_rate_arg_def concurrency_arg_def ok_or_def split: option.splits if_splits)

lemma parse_step_ok: "cli_ok c \<Longrightarrow> yields (\<lambda>(rest', c'). cli_ok c') (parse_step argument rest c)"
  unfolding parse_step_def by (intro yields_rules) (simp_all add: cli_ok_values)

lemma parse_loop_ok: "cli_ok c \<Longrightarrow> parse_loop args c = Inr c' \<Longrightarrow> cli_ok c'"
  by (induction args c rule: parse_loop.induct) (auto split: sum.splits prod.splits dest: yieldsD [OF parse_step_ok])

section \<open>Rendering options\<close>

definition flag_arg :: "string \<Rightarrow> bool \<Rightarrow> string list" where
  "flag_arg name b = (if b then [name] else [])"

definition value_arg :: "string \<Rightarrow> ('a \<Rightarrow> string) \<Rightarrow> 'a option \<Rightarrow> string list" where
  "value_arg name show v = (case v of None \<Rightarrow> [] | Some x \<Rightarrow> [name, show x])"

definition render :: "cli \<Rightarrow> string list" where
  "render c =
     flag_arg ''--help'' (cli_help c) @ flag_arg ''--cross-mounts'' (cli_cross_mounts c)
     @ flag_arg ''--dark'' (cli_dark c) @ flag_arg ''--anonymize'' (cli_anonymize c)
     @ value_arg ''--autoshot'' string_of_bytes (cli_autoshot c) @ value_arg ''--record'' string_of_bytes (cli_record c)
     @ value_arg ''--record-fps'' (show_nat \<circ> unat) (cli_record_fps c)
     @ value_arg ''--project-root'' string_of_bytes (cli_project_root c)
     @ value_arg ''--concurrency'' (show_nat \<circ> unat) (cli_concurrency c)
     @ concat (map (\<lambda>f. [''--field'', f]) (cli_fields c))
     @ (case cli_root c of None \<Rightarrow> [] | Some r \<Rightarrow> [r])"

lemma decimal_snoc: "decimal (s @ [c]) = decimal s * 10 + (of_char c - 48)"
  by (simp add: decimal_def)

lemma show_nat_digits: "list_all is_digit (show_nat n) \<and> decimal (show_nat n) = n"
proof (induction n rule: show_nat.induct)
  case (1 n)
  have digit: "is_digit (char_of (48 + m))" "(of_char (char_of (48 + m)) :: nat) = 48 + m" if "m < 10" for m :: nat
    using that by (simp_all add: is_digit_def)
  show ?case
  proof (cases "n < 10")
    case True
    then show ?thesis using digit [of n] by (simp add: show_nat.simps [of n] decimal_def)
  next
    case False
    then show ?thesis using 1 digit [of "n mod 10"] by (simp add: show_nat.simps [of n] decimal_snoc)
  qed
qed

lemma parse_u32_show [simp]: "parse_u32 (show_nat (unat n)) = Some n"
proof -
  obtain c d where s: "show_nat (unat n) = c # d" using show_nat_not_Nil [of "unat n"] by (cases "show_nat (unat n)") auto
  have "is_digit c" using show_nat_digits [of "unat n"] s by simp
  then have "c \<noteq> CHR ''+''" by (auto simp: is_digit_def)
  then show ?thesis
    using show_nat_digits [of "unat n"] unat_u32_less [of n] by (simp add: parse_u32_def s not_le)
qed

lemma not_option: "\<not> starts_with x ''-'' \<Longrightarrow> x \<noteq> CHR ''-'' # y"
  by (auto simp: starts_with_def)

lemma cli_same [simp]:
  "\<not> cli_help c \<Longrightarrow> c\<lparr>cli_help := False\<rparr> = c"
  "\<not> cli_cross_mounts c \<Longrightarrow> c\<lparr>cli_cross_mounts := False\<rparr> = c"
  "\<not> cli_dark c \<Longrightarrow> c\<lparr>cli_dark := False\<rparr> = c"
  "\<not> cli_anonymize c \<Longrightarrow> c\<lparr>cli_anonymize := False\<rparr> = c"
  "cli_autoshot c = None \<Longrightarrow> c\<lparr>cli_autoshot := None\<rparr> = c"
  "cli_record c = None \<Longrightarrow> c\<lparr>cli_record := None\<rparr> = c"
  "cli_project_root c = None \<Longrightarrow> c\<lparr>cli_project_root := None\<rparr> = c"
  "cli_record_fps c = None \<Longrightarrow> c\<lparr>cli_record_fps := None\<rparr> = c"
  "cli_concurrency c = None \<Longrightarrow> c\<lparr>cli_concurrency := None\<rparr> = c"
  "cli_root c = None \<Longrightarrow> c\<lparr>cli_root := None\<rparr> = c"
  by (cases c; simp)+

lemma parse_flags:
  "\<not> cli_help c \<Longrightarrow> parse_loop (flag_arg ''--help'' b @ rest) c = parse_loop rest (c\<lparr>cli_help := b\<rparr>)"
  "\<not> cli_cross_mounts c \<Longrightarrow> parse_loop (flag_arg ''--cross-mounts'' b @ rest) c = parse_loop rest (c\<lparr>cli_cross_mounts := b\<rparr>)"
  "\<not> cli_dark c \<Longrightarrow> parse_loop (flag_arg ''--dark'' b @ rest) c = parse_loop rest (c\<lparr>cli_dark := b\<rparr>)"
  "\<not> cli_anonymize c \<Longrightarrow> parse_loop (flag_arg ''--anonymize'' b @ rest) c = parse_loop rest (c\<lparr>cli_anonymize := b\<rparr>)"
  by (cases b; simp add: flag_arg_def parse_step_def)+

lemma parse_paths:
  "cli_autoshot c = None \<Longrightarrow>
     parse_loop (value_arg ''--autoshot'' string_of_bytes p @ rest) c = parse_loop rest (c\<lparr>cli_autoshot := p\<rparr>)"
  "cli_record c = None \<Longrightarrow>
     parse_loop (value_arg ''--record'' string_of_bytes p @ rest) c = parse_loop rest (c\<lparr>cli_record := p\<rparr>)"
  "cli_project_root c = None \<Longrightarrow>
     parse_loop (value_arg ''--project-root'' string_of_bytes p @ rest) c = parse_loop rest (c\<lparr>cli_project_root := p\<rparr>)"
  by (cases p; simp add: value_arg_def parse_step_def next_value_def)+

lemma parse_record_rate:
  "\<lbrakk>case v of None \<Rightarrow> True | Some n \<Rightarrow> 1 \<le> n \<and> n \<le> 60; cli_record_fps c = None\<rbrakk> \<Longrightarrow>
   parse_loop (value_arg ''--record-fps'' (show_nat \<circ> unat) v @ rest) c = parse_loop rest (c\<lparr>cli_record_fps := v\<rparr>)"
  by (cases v) (simp_all add: value_arg_def parse_step_def next_value_def record_rate_arg_def)

lemma parse_concurrency:
  "\<lbrakk>case v of None \<Rightarrow> True | Some n \<Rightarrow> 0 < n; cli_concurrency c = None\<rbrakk> \<Longrightarrow>
   parse_loop (value_arg ''--concurrency'' (show_nat \<circ> unat) v @ rest) c = parse_loop rest (c\<lparr>cli_concurrency := v\<rparr>)"
  by (cases v) (simp_all add: value_arg_def parse_step_def next_value_def concurrency_arg_def)

lemma parse_fields:
  "[] \<notin> set fs \<Longrightarrow>
   parse_loop (concat (map (\<lambda>f. [''--field'', f]) fs) @ rest) c = parse_loop rest (c\<lparr>cli_fields := cli_fields c @ fs\<rparr>)"
proof (induction fs arbitrary: c)
  case (Cons f fs)
  from Cons.prems have "f \<noteq> []" "[] \<notin> set fs" by auto
  then show ?case by (simp add: Cons.IH parse_step_def next_value_def)
qed simp

lemma parse_step_plain:
  assumes "\<not> starts_with x ''-''" "cli_root c = None"
  shows "parse_step x rest c = Inr (rest, c\<lparr>cli_root := Some x\<rparr>)"
  using assms unfolding parse_step_def by (simp only: not_option [OF assms(1)] if_False simp_thms)

lemma parse_root:
  "\<lbrakk>case r of None \<Rightarrow> True | Some x \<Rightarrow> \<not> starts_with x ''-''; cli_root c = None\<rbrakk> \<Longrightarrow>
   parse_loop (case r of None \<Rightarrow> [] | Some x \<Rightarrow> [x]) c = Inr (c\<lparr>cli_root := r\<rparr>)"
  by (cases r) (simp_all add: parse_step_plain)

lemma parse_render:
  assumes "cli_ok c"
  shows "parse_arguments (render c) = Inr c"
proof -
  have ok: "case cli_concurrency c of None \<Rightarrow> True | Some n \<Rightarrow> 0 < n" "[] \<notin> set (cli_fields c)"
    "case cli_record_fps c of None \<Rightarrow> True | Some fps \<Rightarrow> 1 \<le> fps \<and> fps \<le> 60"
    "case cli_root c of None \<Rightarrow> True | Some r \<Rightarrow> \<not> starts_with r ''-''"
    using assms by (simp_all add: cli_ok_def)
  show ?thesis
    unfolding parse_arguments_def render_def
    by (simp add: parse_flags parse_paths parse_record_rate [OF ok(3)] parse_concurrency [OF ok(1)]
        parse_fields [OF ok(2)] parse_root [OF ok(4)] default_cli_def)
qed

text \<open>
  C26. Whatever the arguments, an accepted command line has a positive worker count, a capture rate
  from 1 to 60, no empty field name and no root that looks like an option; and these conditions are exact: options
  are the result of some command line if and only if they satisfy them.
\<close>
theorem parse_arguments_image: "(\<exists>args. parse_arguments args = Inr c) \<longleftrightarrow> cli_ok c"
proof
  have "cli_ok default_cli" by (simp add: cli_ok_def default_cli_def)
  then show "\<exists>args. parse_arguments args = Inr c \<Longrightarrow> cli_ok c"
    unfolding parse_arguments_def using parse_loop_ok by blast
  show "cli_ok c \<Longrightarrow> \<exists>args. parse_arguments args = Inr c"
    using parse_render by blast
qed

text \<open>
  C27. Parsing the rendering of valid options gives the options back.
\<close>
theorem parse_arguments_render:
  assumes "cli_ok c"
  shows "parse_arguments (render c) = Inr c"
  using assms by (rule parse_render)

definition demo_cli :: cli where
  "demo_cli = default_cli\<lparr>cli_root := Some ''/tmp'', cli_fields := [''modified_at''], cli_concurrency := Some 8,
     cli_dark := True, cli_record := Some (as_bytes ''frames''), cli_record_fps := Some 60\<rparr>"

lemma parse_arguments_render_witness:
  "cli_ok demo_cli \<and> parse_arguments (render demo_cli) = Inr demo_cli"
proof -
  have ok: "cli_ok demo_cli" by (simp add: cli_ok_def demo_cli_def default_cli_def starts_with_def)
  then show ?thesis using parse_arguments_render [OF ok] by simp
qed

end
