(* ===== verification/Desktop_Paths.thy ===== *)
theory Desktop_Paths
  imports Cli Backend
begin

text \<open>
  Paths in the desktop application (\<open>desktop/src/main.rs\<close>): the \<open>std::path\<close> operations it uses, the
  sanitising of the root that the user typed, and the search for the workspace and the packaged
  backend. What the file system and the process environment answer is the record \<open>host\<close>.
\<close>

section \<open>The host\<close>

record host =
  host_home :: "string option"
    \<comment> \<open>\<open>env::var("HOME").ok()\<close>\<close>
  host_canonicalize :: "string \<Rightarrow> u8 list option"
  host_is_dir :: "u8 list \<Rightarrow> bool"
  host_is_file :: "u8 list \<Rightarrow> bool"
  host_current_dir :: "u8 list option"
  host_current_exe :: "u8 list option"
  host_manifest_dir :: "u8 list"
    \<comment> \<open>\<open>env!("CARGO_MANIFEST_DIR")\<close>\<close>
  host_show_path :: "u8 list \<Rightarrow> string"
    \<comment> \<open>\<open>Path::display\<close>\<close>

section \<open>Strings and paths of the standard library\<close>

definition white_space :: "u8 list list" where
  \<comment> \<open>the characters with the property \<open>White_Space\<close>, in UTF-8\<close>
  "white_space =
     [[0x09], [0x0A], [0x0B], [0x0C], [0x0D], [0x20], [0xC2, 0x85], [0xC2, 0xA0], [0xE1, 0x9A, 0x80]]
     @ map (\<lambda>b. [0xE2, 0x80, b]) [0x80, 0x81, 0x82, 0x83, 0x84, 0x85, 0x86, 0x87, 0x88, 0x89, 0x8A, 0xA8, 0xA9, 0xAF]
     @ [[0xE2, 0x81, 0x9F], [0xE3, 0x80, 0x80]]"

lemma white_space_not_Nil: "[] \<notin> set white_space"
  by (auto simp: white_space_def)

function strip_any :: "u8 list list \<Rightarrow> u8 list \<Rightarrow> u8 list" where
  \<comment> \<open>drops words of \<open>ws\<close> from the front for as long as there is one\<close>
  "strip_any ws bs =
     (case List.find (\<lambda>w. w \<noteq> [] \<and> take (length w) bs = w) ws of
        None \<Rightarrow> bs
      | Some w \<Rightarrow> strip_any ws (drop (length w) bs))"
  by pat_completeness auto
termination
proof (relation "measure (length \<circ> snd)")
  fix ws :: "u8 list list" and bs w
  assume "List.find (\<lambda>w. w \<noteq> [] \<and> take (length w) bs = w) ws = Some w"
  then have "w \<noteq> []" "take (length w) bs = w" by (auto simp: find_Some_iff)
  then have "bs \<noteq> []" "length w > 0" by auto
  then show "((ws, drop (length w) bs), (ws, bs)) \<in> measure (length \<circ> snd)" by simp
qed simp

declare strip_any.simps [simp del]

definition trim :: "string \<Rightarrow> string" where
  \<comment> \<open>\<open>str::trim\<close>\<close>
  "trim s = string_of_bytes (rev (strip_any (map rev white_space) (rev (strip_any white_space (as_bytes s)))))"

definition SLASH :: u8 where "SLASH = 0x2F"
definition DOT :: u8 where "DOT = 0x2E"

definition before_body :: "u8 list \<Rightarrow> nat" where
  \<comment> \<open>the length of the root, or of a leading current-directory component\<close>
  "before_body p =
     (if take 1 p = [SLASH] then 1
      else if p = [DOT] \<or> take 2 p = [DOT, SLASH] then 1 else 0)"

definition last_component :: "u8 list \<Rightarrow> nat \<times> u8 list" where
  \<comment> \<open>of a body: the number of bytes to cut off with their separator, and the component\<close>
  "last_component body =
     (let part = rev (takeWhile (\<lambda>b. b \<noteq> SLASH) (rev body))
      in (if length part < length body then length part + 1 else length part, part))"

function trim_right :: "u8 list \<Rightarrow> u8 list" where
  \<comment> \<open>drops empty and \<open>.\<close> components from the end\<close>
  "trim_right p =
     (if length p \<le> before_body p then p
      else case last_component (drop (before_body p) p) of (tail, part) \<Rightarrow>
        if part = [] \<or> part = [DOT] then trim_right (take (length p - tail) p) else p)"
  by pat_completeness auto
termination
  by (relation "measure length") (auto simp: last_component_def Let_def split: if_splits)

declare trim_right.simps [simp del]

definition path_parent :: "u8 list \<Rightarrow> u8 list option" where
  \<comment> \<open>\<open>Path::parent\<close> on Unix\<close>
  "path_parent p =
     (let q = trim_right p in
      if length q > before_body q then
        (case last_component (drop (before_body q) q) of (tail, part) \<Rightarrow> Some (trim_right (take (length q - tail) q)))
      else if take 1 q = [SLASH] then None
      else if before_body q = 1 then Some []
      else None)"

lemma path_parent_examples:
  "map_option string_of_bytes (path_parent (as_bytes ''/a/b'')) = Some ''/a''"
  "map_option string_of_bytes (path_parent (as_bytes ''/a/b//.'')) = Some ''/a''"
  "map_option string_of_bytes (path_parent (as_bytes ''a'')) = Some ''''"
  "map_option string_of_bytes (path_parent (as_bytes ''./a'')) = Some ''.''"
  "path_parent (as_bytes ''/'') = None"
  by code_simp+

section \<open>The root the user typed\<close>

definition expand_tilde :: "host \<Rightarrow> string \<Rightarrow> string" where
  "expand_tilde H path =
     (if path \<noteq> ''~'' \<and> \<not> starts_with path ''~/'' then path
      else case host_home H of
        Some home \<Rightarrow> if home \<noteq> [] then home @ drop 1 path else path
      | None \<Rightarrow> path)"

definition sanitized_root :: "host \<Rightarrow> string \<Rightarrow> string + string" where
  "sanitized_root H input =
     (let expanded = expand_tilde H (trim input) in
      if expanded = [] then Inl ''enter a directory to index''
      else
        rbind (ok_or (host_canonicalize H expanded) (expanded @ '' is not a directory'')) (\<lambda>canonical.
        if \<not> host_is_dir H canonical then Inl (expanded @ '' is not a directory'')
        else ok_or (from_utf8 canonical) (expanded @ '' is not valid UTF-8'')))"

section \<open>The workspace and the packaged backend\<close>

definition packaged_backend_path :: "host \<Rightarrow> u8 list option" where
  "packaged_backend_path H =
     Option.bind (host_current_exe H) (\<lambda>executable.
     Option.bind (path_parent executable) (\<lambda>folder.
       let release = path_join folder (as_bytes ''../Resources/backend/bin/backend'') in
       if host_is_file H release then Some release else None))"

definition packaged_backend_available :: "host \<Rightarrow> bool" where
  "packaged_backend_available H \<longleftrightarrow> packaged_backend_path H \<noteq> None"

definition is_workspace_root :: "host \<Rightarrow> u8 list \<Rightarrow> bool" where
  "is_workspace_root H p \<longleftrightarrow>
     host_is_file H (path_join p (as_bytes ''findex/mix.exs''))
     \<and> host_is_file H (path_join p (as_bytes ''rust_client/backend/mix.exs''))"

definition fallback_root :: "host \<Rightarrow> u8 list" where
  "fallback_root H = (case path_parent (host_manifest_dir H) of Some p \<Rightarrow> p | None \<Rightarrow> [DOT])"

definition default_project_root :: "host \<Rightarrow> u8 list" where
  "default_project_root H =
     (let current = (case host_current_dir H of Some p \<Rightarrow> p | None \<Rightarrow> [DOT]) in
      if is_workspace_root H current then current
      else case path_parent current of
        Some up \<Rightarrow> if is_workspace_root H up then up else fallback_root H
      | None \<Rightarrow> fallback_root H)"

definition validate_project :: "host \<Rightarrow> u8 list \<Rightarrow> string + unit" where
  "validate_project H p =
     (if packaged_backend_available H then Inr ()
      else if \<not> is_workspace_root H p then
        Inl (host_show_path H p @ '' is not the workspace root (expected findex/mix.exs and rust_client/backend/mix.exs)'')
      else
        let build = path_join p (as_bytes ''rust_client/backend/_build/dev/lib'') in
        if \<not> host_is_file H (path_join build (as_bytes ''findex_rust_backend/ebin/Elixir.FindexRust.Bridge.beam''))
           \<or> \<not> host_is_file H (path_join build (as_bytes ''findex/priv/findex_nif.so''))
        then Inl ''the Rust backend is not compiled; run `(cd rust_client/backend && mix compile)`''
        else Inr ())"

end
