(* ===== verification/Recording.thy ===== *)
theory Recording
  imports Prelude "HOL-Library.Sublist"
begin

text \<open>
  The frame writer of \<open>desktop/src/recording.rs\<close>: the user interface pushes screenshots into a bounded
  channel that a thread empties into PNG files and a manifest. The thread is part of the state; its
  moves interleave with those of the user interface. What the file system answers is a list in the state, one
  answer per fallible call, \<open>None\<close> for success (no answer left: success); a failed write has no effect.
  The counters \<open>frames\<close> and \<open>dropped\<close> are unbounded (a \<open>usize\<close> in the code).
\<close>

section \<open>The channel and the thread\<close>

definition FRAME_BACKLOG :: nat where "FRAME_BACKLOG = 4"

record 'p frame =
  frame_index :: nat
  frame_elapsed :: nat
  frame_shot :: 'p

datatype writer_thread = Opening | Draining | Ended "string + unit"

record 'p frame_writer =
  sender_open :: bool
  worker_there :: bool
  frames :: nat
  dropped :: nat
  backlog :: "'p frame list"
  thread :: writer_thread
  file_answers :: "string option list"
  saved :: "(string \<times> 'p) list"
  manifest :: "(string \<times> nat) list"
    \<comment> \<open>the lines of \<open>frames.jsonl\<close>: file name and elapsed nanoseconds\<close>

definition new_writer :: "string option list \<Rightarrow> 'p frame_writer" where
  "new_writer answers = \<lparr>sender_open = True, worker_there = True, frames = 0, dropped = 0, backlog = [],
     thread = Opening, file_answers = answers, saved = [], manifest = []\<rparr>"

definition answer :: "'p frame_writer \<Rightarrow> (string + unit) \<times> 'p frame_writer" where
  "answer w =
     (case file_answers w of
        [] \<Rightarrow> (Inr (), w)
      | None # as \<Rightarrow> (Inr (), w\<lparr>file_answers := as\<rparr>)
      | Some e # as \<Rightarrow> (Inl e, w\<lparr>file_answers := as\<rparr>))"

definition pad4 :: "nat \<Rightarrow> string" where
  \<comment> \<open>\<open>{:04}\<close>\<close>
  "pad4 n = (let s = show_nat n in replicate (4 - length s) CHR ''0'' @ s)"

definition frame_file :: "nat \<Rightarrow> string" where
  "frame_file n = ''frame-'' @ pad4 n @ ''.png''"

definition open_files :: "'p frame_writer \<Rightarrow> (string + unit) \<times> 'p frame_writer" where
  \<comment> \<open>the directory, then the manifest\<close>
  "open_files = sbind answer (\<lambda>_. answer)"

definition write_frame_files :: "'p frame \<Rightarrow> 'p frame_writer \<Rightarrow> (string + unit) \<times> 'p frame_writer" where
  \<comment> \<open>the picture, the manifest entry and its newline\<close>
  "write_frame_files f =
     sbind answer (\<lambda>_ w. sbind answer (\<lambda>_. sbind answer (\<lambda>_ w.
       (Inr (), w\<lparr>manifest := manifest w @ [(frame_file (frame_index f), frame_elapsed f)]\<rparr>)))
       (w\<lparr>saved := saved w @ [(frame_file (frame_index f), frame_shot f)]\<rparr>))"

definition thread_move :: "'p frame_writer \<Rightarrow> 'p frame_writer" where
  \<comment> \<open>one move of the thread; blocked on an empty channel it stays where it is\<close>
  "thread_move w =
     (case thread w of
        Opening \<Rightarrow>
          (case open_files w of (Inl e, w) \<Rightarrow> w\<lparr>thread := Ended (Inl e)\<rparr> | (Inr _, w) \<Rightarrow> w\<lparr>thread := Draining\<rparr>)
      | Draining \<Rightarrow>
          (case backlog w of
             f # fs \<Rightarrow>
               (case write_frame_files f (w\<lparr>backlog := fs\<rparr>) of
                  (Inl e, w) \<Rightarrow> w\<lparr>thread := Ended (Inl e)\<rparr>
                | (Inr _, w) \<Rightarrow> w)
           | [] \<Rightarrow>
               if sender_open w then w
               else (case answer w of (r, w) \<Rightarrow> w\<lparr>thread := Ended r\<rparr>))
      | Ended r \<Rightarrow> w)"

section \<open>Finishing\<close>

definition thread_work :: "'p frame_writer \<Rightarrow> nat" where
  "thread_work w = length (backlog w) + (case thread w of Opening \<Rightarrow> 2 | Draining \<Rightarrow> 1 | Ended _ \<Rightarrow> 0)"

lemma write_frame_files_keeps:
  "write_frame_files f w = (r, w') \<Longrightarrow>
     backlog w' = backlog w \<and> sender_open w' = sender_open w \<and> thread w' = thread w \<and> frames w' = frames w
   \<and> dropped w' = dropped w"
  unfolding write_frame_files_def
  by (auto simp: sbind_def answer_def split: prod.splits sum.splits list.splits option.splits)

lemma open_files_keeps:
  "open_files w = (r, w') \<Longrightarrow>
     backlog w' = backlog w \<and> thread w' = thread w \<and> frames w' = frames w \<and> saved w' = saved w \<and> manifest w' = manifest w
   \<and> dropped w' = dropped w"
  unfolding open_files_def
  by (auto simp: sbind_def answer_def split: prod.splits sum.splits list.splits option.splits)

lemma answer_keeps:
  "answer w = (r, w') \<Longrightarrow>
     backlog w' = backlog w \<and> thread w' = thread w \<and> frames w' = frames w \<and> saved w' = saved w \<and> manifest w' = manifest w
   \<and> dropped w' = dropped w"
  by (auto simp: answer_def split: list.splits option.splits)

lemma thread_move_works:
  assumes "\<not> sender_open w" "\<And>r. thread w \<noteq> Ended r"
  shows "thread_work (thread_move w) < thread_work w"
proof (cases "thread w")
  case Opening
  then show ?thesis
    by (auto simp: thread_move_def thread_work_def dest: open_files_keeps split: prod.splits sum.splits)
next
  case Draining
  then show ?thesis using assms(1)
    by (cases "backlog w") (auto simp: thread_move_def thread_work_def dest: write_frame_files_keeps answer_keeps
      split: prod.splits sum.splits)
qed (use assms in simp)

function join :: "'p frame_writer \<Rightarrow> (string + unit) \<times> 'p frame_writer" where
  \<comment> \<open>waits for the thread, whose sender was dropped\<close>
  "join w =
     (case thread w of
        Ended r \<Rightarrow> (r, w)
      | _ \<Rightarrow> join (thread_move (w\<lparr>sender_open := False\<rparr>)))"
  by pat_completeness auto
termination
proof (relation "measure thread_work")
  fix w :: "'p frame_writer"
  have less: "thread_work (thread_move (w\<lparr>sender_open := False\<rparr>)) < thread_work w" if "\<And>r. thread w \<noteq> Ended r"
    using thread_move_works [of "w\<lparr>sender_open := False\<rparr>"] that by (simp add: thread_work_def)
  show "thread w = Opening \<Longrightarrow> (thread_move (w\<lparr>sender_open := False\<rparr>), w) \<in> measure thread_work"
    "thread w = Draining \<Longrightarrow> (thread_move (w\<lparr>sender_open := False\<rparr>), w) \<in> measure thread_work"
    using less by simp_all
qed simp

declare join.simps [simp del]

definition finish :: "'p frame_writer \<Rightarrow> (string + unit) \<times> 'p frame_writer" where
  "finish w =
     (let w = w\<lparr>sender_open := False\<rparr> in
      if worker_there w then join (w\<lparr>worker_there := False\<rparr>) else (Inr (), w))"

definition push :: "'p \<Rightarrow> nat \<Rightarrow> 'p frame_writer \<Rightarrow> (string + unit) \<times> 'p frame_writer" where
  "push shot elapsed w =
     (if \<not> sender_open w then (Inl ''recording writer is closed'', w)
      else case thread w of
        Ended _ \<Rightarrow>
          (case finish w of
             (Inl e, w) \<Rightarrow> (Inl e, w)
           | (Inr _, w) \<Rightarrow> (Inl ''recording writer disconnected'', w))
      | _ \<Rightarrow>
          if length (backlog w) \<ge> FRAME_BACKLOG then (Inr (), w\<lparr>dropped := dropped w + 1\<rparr>)
          else (Inr (), w\<lparr>frames := frames w + 1,
                  backlog := backlog w @ [\<lparr>frame_index = frames w, frame_elapsed = elapsed, frame_shot = shot\<rparr>]\<rparr>))"

definition drop_writer :: "'p frame_writer \<Rightarrow> 'p frame_writer" where
  "drop_writer w = snd (finish w)"

section \<open>Interleavings\<close>

datatype 'p writer_event = Push 'p nat | ThreadMove

fun run_writer :: "'p writer_event list \<Rightarrow> 'p frame_writer \<Rightarrow> (string + unit) \<times> 'p frame_writer" where
  \<comment> \<open>pushes and moves of the thread in the given order, up to the first failed push\<close>
  "run_writer [] w = (Inr (), w)"
| "run_writer (Push shot elapsed # es) w = sbind (push shot elapsed) (\<lambda>_. run_writer es) w"
| "run_writer (ThreadMove # es) w = run_writer es (thread_move w)"

fun pushed :: "'p writer_event list \<Rightarrow> ('p \<times> nat) list" where
  "pushed [] = []"
| "pushed (Push shot elapsed # es) = (shot, elapsed) # pushed es"
| "pushed (ThreadMove # es) = pushed es"

section \<open>What is recorded\<close>

definition picture :: "'p frame \<Rightarrow> string \<times> 'p" where
  "picture f = (frame_file (frame_index f), frame_shot f)"

definition manifest_line :: "'p frame \<Rightarrow> string \<times> nat" where
  "manifest_line f = (frame_file (frame_index f), frame_elapsed f)"

definition recorded :: "'p frame list \<Rightarrow> 'p frame_writer \<Rightarrow> bool" where
  "recorded gs w \<longleftrightarrow> frames w = length gs \<and> map frame_index gs = [0..<length gs]
     \<and> (isl (case thread w of Ended r \<Rightarrow> r | _ \<Rightarrow> Inr ())
        \<or> (\<exists>d. gs = d @ backlog w \<and> saved w = map picture d \<and> manifest w = map manifest_line d
              \<and> (thread w = Ended (Inr ()) \<longrightarrow> backlog w = [])))"

lemma write_frame_files_saves:
  "write_frame_files f w = (Inr u, w') \<Longrightarrow> saved w' = saved w @ [picture f] \<and> manifest w' = manifest w @ [manifest_line f]"
  unfolding write_frame_files_def
  by (auto simp: sbind_def answer_def picture_def manifest_line_def split: prod.splits sum.splits list.splits option.splits)

lemma recorded_move: "recorded gs w \<Longrightarrow> recorded gs (thread_move w)"
proof -
  assume r: "recorded gs w"
  show ?thesis
  proof (cases "thread w")
    case Opening
    obtain m w1 where "open_files w = (m, w1)" by force
    then show ?thesis using r Opening
      by (cases m) (auto simp: thread_move_def recorded_def dest: open_files_keeps)
  next
    case Draining
    show ?thesis
    proof (cases "backlog w")
      case Nil
      obtain m w1 where a: "answer w = (m, w1)" by force
      show ?thesis
      proof (cases "sender_open w")
        case False
        then show ?thesis using r Draining Nil a answer_keeps [OF a]
          by (cases m) (auto simp: thread_move_def recorded_def)
      qed (use r Draining Nil in \<open>simp add: thread_move_def\<close>)
    next
      case (Cons f fs)
      obtain m w1 where a: "write_frame_files f (w\<lparr>backlog := fs\<rparr>) = (m, w1)" by force
      note k = write_frame_files_keeps [OF a]
      show ?thesis
      proof (cases m)
        case (Inr u)
        obtain d where d: "gs = d @ f # fs" "saved w = map picture d" "manifest w = map manifest_line d"
          using r Draining Cons by (auto simp: recorded_def)
        have "saved w1 = map picture (d @ [f])" "manifest w1 = map manifest_line (d @ [f])"
          using write_frame_files_saves [OF a [unfolded Inr]] d by simp_all
        then have "recorded gs w1"
          using r d(1) k Draining unfolding recorded_def by (auto intro!: exI [of _ "d @ [f]"])
        then show ?thesis using Draining Cons a Inr by (simp add: thread_move_def)
      qed (use r Draining Cons a k in \<open>simp add: thread_move_def recorded_def\<close>)
    qed
  qed (use r in \<open>simp add: thread_move_def\<close>)
qed

lemma recorded_flags [simp]:
  "recorded gs (w\<lparr>sender_open := b\<rparr>) = recorded gs w" "recorded gs (w\<lparr>worker_there := b\<rparr>) = recorded gs w"
  "recorded gs (w\<lparr>dropped := n\<rparr>) = recorded gs w"
  by (simp_all add: recorded_def)

lemma thread_move_dropped [simp]: "dropped (thread_move w) = dropped w"
  by (auto simp: thread_move_def split: writer_thread.splits list.splits prod.splits sum.splits
      dest: open_files_keeps write_frame_files_keeps answer_keeps)

lemma recorded_join: "recorded gs w \<Longrightarrow> join w = (r, w') \<Longrightarrow> recorded gs w' \<and> thread w' = Ended r \<and> dropped w' = dropped w"
proof (induction w rule: join.induct)
  case (1 w)
  show ?case
    using 1 recorded_move [of gs "w\<lparr>sender_open := False\<rparr>"]
    by (cases "thread w") (auto simp: join.simps [of w])
qed

definition numbered :: "nat \<Rightarrow> ('p \<times> nat) list \<Rightarrow> 'p frame list" where
  "numbered n ps = map (\<lambda>(i, shot, elapsed). \<lparr>frame_index = i, frame_elapsed = elapsed, frame_shot = shot\<rparr>) (enumerate n ps)"

lemma numbered_snoc:
  "numbered 0 (ps @ [(shot, elapsed)])
     = numbered 0 ps @ [\<lparr>frame_index = length ps, frame_elapsed = elapsed, frame_shot = shot\<rparr>]"
  by (simp add: numbered_def enumerate_append_eq)

lemma length_numbered [simp]: "length (numbered n ps) = length ps"
  by (simp add: numbered_def)

lemma recorded_push:
  assumes "recorded (numbered 0 ps) w" "push shot elapsed w = (Inr u, w')"
  shows "(w' = w\<lparr>dropped := dropped w + 1\<rparr> \<and> recorded (numbered 0 ps) w')
    \<or> (recorded (numbered 0 (ps @ [(shot, elapsed)])) w' \<and> dropped w' = dropped w)"
proof (cases "length (backlog w) \<ge> FRAME_BACKLOG")
  case True
  then show ?thesis
    using assms by (auto simp: push_def split: if_splits writer_thread.splits prod.splits sum.splits)
next
  case False
  then have "w' = w\<lparr>frames := frames w + 1,
                  backlog := backlog w @ [\<lparr>frame_index = frames w, frame_elapsed = elapsed, frame_shot = shot\<rparr>]\<rparr>"
    "thread w = Opening \<or> thread w = Draining"
    using assms(2) by (auto simp: push_def split: if_splits writer_thread.splits prod.splits sum.splits)
  then show ?thesis using assms(1) by (auto simp: recorded_def numbered_snoc)
qed

lemma recorded_run:
  assumes "recorded (numbered 0 ps) w" "run_writer es w = (Inr u, w')"
  shows "\<exists>qs. subseq qs (pushed es) \<and> recorded (numbered 0 (ps @ qs)) w'
    \<and> length qs + dropped w' = length (pushed es) + dropped w"
  using assms
proof (induction es w arbitrary: ps rule: run_writer.induct)
  case (1 w)
  then show ?case by (intro exI [of _ "[]"]) simp
next
  case (2 shot elapsed es w)
  from 2(3) obtain v w1 where p: "push shot elapsed w = (Inr v, w1)" and r: "run_writer es w1 = (Inr u, w')"
    by (auto simp: sbind_eq_Inr_iff)
  note IH = 2(1) [OF p _ r]
  from recorded_push [OF 2(2) p] show ?case
  proof (elim disjE conjE)
    assume "w1 = w\<lparr>dropped := dropped w + 1\<rparr>" "recorded (numbered 0 ps) w1"
    then show ?thesis using IH [of ps] by auto
  next
    assume "recorded (numbered 0 (ps @ [(shot, elapsed)])) w1" "dropped w1 = dropped w"
    with IH [of "ps @ [(shot, elapsed)]"] obtain qs where "subseq qs (pushed es)"
      "recorded (numbered 0 (ps @ (shot, elapsed) # qs)) w'" "length qs + dropped w' = length (pushed es) + dropped w" by auto
    then show ?thesis by (intro exI [of _ "(shot, elapsed) # qs"]) simp
  qed
next
  case (3 es w)
  from 3(1) [OF recorded_move [OF 3(2)]] 3(3)
  show ?case
    by simp
qed

lemma push_there: "push shot elapsed w = (Inr u, w') \<Longrightarrow> worker_there w' = worker_there w"
  by (auto simp: push_def split: if_splits writer_thread.splits prod.splits sum.splits)

lemma thread_move_there [simp]: "worker_there (thread_move w) = worker_there w"
  by (auto simp: thread_move_def open_files_def write_frame_files_def sbind_def answer_def
      split: writer_thread.splits list.splits prod.splits sum.splits option.splits)

lemma run_writer_there: "run_writer es w = (Inr u, w') \<Longrightarrow> worker_there w' = worker_there w"
  by (induction es w rule: run_writer.induct) (auto simp: sbind_eq_Inr_iff dest: push_there)

text \<open>
  C28. When every push of a recording and its \<open>finish\<close> succeed, in whatever order the thread moved, the files on
  disk are exactly the frames that were not dropped, numbered from 0 in the order of capture, and the
  manifest has one line per file with its capture time; frames and dropped frames add up to the pushes.
\<close>
theorem recording_complete:
  assumes "run_writer es (new_writer answers) = (Inr (), w)" and "finish w = (Inr (), w')"
  shows "\<exists>fs. subseq fs (pushed es) \<and> length fs = frames w' \<and> frames w' + dropped w' = length (pushed es)
    \<and> saved w' = map (\<lambda>(i, shot, elapsed). (frame_file i, shot)) (enumerate 0 fs)
    \<and> manifest w' = map (\<lambda>(i, shot, elapsed). (frame_file i, elapsed)) (enumerate 0 fs)
    \<and> thread w' = Ended (Inr ())"
proof -
  have "recorded (numbered 0 []) (new_writer answers :: 'a frame_writer)"
    by (simp add: recorded_def numbered_def new_writer_def)
  from recorded_run [OF this assms(1)] obtain fs where fs: "subseq fs (pushed es)" "recorded (numbered 0 fs) w"
    "length fs + dropped w = length (pushed es)" by (auto simp: new_writer_def)
  have "worker_there w" using run_writer_there [OF assms(1)] by (simp add: new_writer_def)
  then have "join (w\<lparr>sender_open := False, worker_there := False\<rparr>) = (Inr (), w')"
    using assms(2) by (simp add: finish_def)
  from recorded_join [OF _ this, of "numbered 0 fs"] fs(2)
  have j: "recorded (numbered 0 fs) w'" "thread w' = Ended (Inr ())" "dropped w' = dropped w" by simp_all
  then have "frames w' = length fs" "saved w' = map picture (numbered 0 fs)" "manifest w' = map manifest_line (numbered 0 fs)"
    by (auto simp: recorded_def)
  then show ?thesis using fs(1,3) j(2,3)
    by (intro exI [of _ fs]) (auto simp: numbered_def picture_def manifest_line_def)
qed

definition demo_moves :: "nat writer_event list" where
  "demo_moves = [Push 11 100, ThreadMove, Push 12 134, ThreadMove]"

definition demo_recorded :: "nat frame_writer" where
  "demo_recorded = snd (run_writer demo_moves (new_writer []))"

lemma demo_recording:
  "run_writer demo_moves (new_writer []) = (Inr (), demo_recorded)" "fst (finish demo_recorded) = Inr ()"
  by code_simp+

lemma recording_complete_witness:
  "length (saved (snd (finish demo_recorded))) + dropped (snd (finish demo_recorded)) = 2
   \<and> thread (snd (finish demo_recorded)) = Ended (Inr ())"
proof -
  have f: "finish demo_recorded = (Inr (), snd (finish demo_recorded))"
    using demo_recording(2) by (cases "finish demo_recorded") simp
  have "length (pushed demo_moves) = 2" by (simp add: demo_moves_def)
  then show ?thesis
    using recording_complete [OF demo_recording(1) f] by auto
qed

end
