(* ===== verification/Desktop.thy ===== *)
theory Desktop
  imports Desktop_Paths Recording Scan_Props
begin

text \<open>
  The application state of \<open>desktop/src/main.rs\<close> and its message handler: the setup form, the scan in
  progress, the screenshot tour of \<open>--autoshot\<close> and the capture of \<open>--record\<close>. A handler returns an
  option, \<open>None\<close> when the code panics or does not return. The theme flag of \<open>theme.rs\<close>, a global in the code, is part
  of the state; the clock is an argument, in nanoseconds.
\<close>

definition RECENT_LIMIT :: nat where "RECENT_LIMIT = 256"
definition POLL_INTERVAL :: nat where "POLL_INTERVAL = 10 * 1000000"
definition PROGRESS_INTERVAL :: nat where "PROGRESS_INTERVAL = 100 * 1000000"

section \<open>State\<close>

record scan_config =
  sc_generation :: u64
  sc_root :: string
  sc_project_root :: "u8 list"
  sc_fields :: "string list"
  sc_concurrency :: "u32 option"
  sc_cross_mounts :: bool

definition config_options :: "scan_config \<Rightarrow> backend_options" where
  "config_options c =
     \<lparr>project_root = sc_project_root c, bo_root = as_bytes (sc_root c), bo_fields = sc_fields c,
      bo_concurrency = sc_concurrency c, poll_interval = POLL_INTERVAL, progress_interval = PROGRESS_INTERVAL,
      bo_mount_policy = (if sc_cross_mounts c then Cross else StayOnFilesystem)\<rparr>"

record setup_form =
  form_root :: string
  form_fields :: "string list"
  form_concurrency :: "u32 option"
  form_cross_mounts :: bool
  form_error :: "string option"

datatype worker_choice = WorkerChoice "u32 option"

definition WORKER_CHOICES :: "worker_choice list" where
  "WORKER_CHOICES = WorkerChoice None # map (\<lambda>n. WorkerChoice (Some n)) [1, 2, 4, 6, 8, 12, 16]"

fun show_worker_choice :: "worker_choice \<Rightarrow> string" where
  "show_worker_choice (WorkerChoice None) = ''auto (BEAM schedulers)''"
| "show_worker_choice (WorkerChoice (Some workers)) = show_nat (unat workers)"

datatype screen = SetupScreen | RunningScreen

record 'p recording =
  rec_writer :: "'p frame_writer"
  rec_fps :: u32
  rec_started_at :: nat
  rec_capturing :: bool
  rec_completed_at :: "nat option"

record autoshot =
  as_directory :: "u8 list"
  as_step :: nat
  as_armed :: bool
  as_warmup :: nat

record 'p desktop =
  d_screen :: screen
  d_setup :: setup_form
  d_model :: scan_model
  d_scan :: "scan_config option"
  d_generation :: u64
  d_project_root :: "u8 list"
  d_autoshot :: "autoshot option"
  d_recording :: "'p recording option"
  d_dark :: bool

definition AUTOSHOT_STEPS :: "(string \<times> tab \<times> bool \<times> bool) list" where
  "AUTOSHOT_STEPS =
     [(''1-treemap-light'', Treemap, False, False),
      (''2-sunburst-light'', SunburstTab, False, False),
      (''3-graph-light'', GraphTab, False, False),
      (''4-diagnostics-light'', Diagnostics, False, False),
      (''5-treemap-dark'', Treemap, True, False),
      (''6-sunburst-dark'', SunburstTab, True, False),
      (''7-graph-dark'', GraphTab, True, False),
      (''8-diagnostics-dark'', Diagnostics, True, False),
      (''9-graph-deep-light'', GraphTab, False, True)]"

section \<open>Starting a scan\<close>

fun add_fields :: "string list \<Rightarrow> string list \<Rightarrow> string list" where
  \<comment> \<open>the loop over the fields of the form\<close>
  "add_fields known [] = known"
| "add_fields known (field # rest) =
     add_fields (if field \<in> set known then known else known @ [field]) rest"

definition desktop_start_scan :: "host \<Rightarrow> 'p desktop \<Rightarrow> 'p desktop" where
  "desktop_start_scan H st =
     (case sanitized_root H (form_root (d_setup st)) of
        Inl e \<Rightarrow> st\<lparr>d_setup := (d_setup st)\<lparr>form_error := Some e\<rparr>\<rparr>
      | Inr r \<Rightarrow>
          let st = st\<lparr>d_setup := (d_setup st)\<lparr>form_root := r\<rparr>\<rparr> in
          (case validate_project H (d_project_root st) of
             Inl e \<Rightarrow> st\<lparr>d_setup := (d_setup st)\<lparr>form_error := Some e\<rparr>\<rparr>
           | Inr _ \<Rightarrow>
               let retained = add_fields [''type'', SIZE_FIELD] (form_fields (d_setup st));
                   st = st\<lparr>d_generation := d_generation st + 1, d_setup := (d_setup st)\<lparr>form_error := None\<rparr>,
                          d_model := new_model RECENT_LIMIT\<rparr>
               in st\<lparr>d_scan := Some \<lparr>sc_generation = d_generation st, sc_root = r, sc_project_root = d_project_root st,
                        sc_fields = retained, sc_concurrency = form_concurrency (d_setup st),
                        sc_cross_mounts = form_cross_mounts (d_setup st)\<rparr>,
                    d_screen := RunningScreen\<rparr>))"

definition new_desktop :: "host \<Rightarrow> nat \<Rightarrow> string option list \<Rightarrow> bool \<Rightarrow> cli \<Rightarrow> 'p desktop" where
  \<comment> \<open>with the time, the answers of the file system to the recording thread and the theme\<close>
  "new_desktop H time answers dark cli =
     (let st =
        \<lparr>d_screen = SetupScreen,
         d_setup = \<lparr>form_root = (case cli_root cli of Some r \<Rightarrow> r | None \<Rightarrow> []), form_fields = cli_fields cli,
                    form_concurrency = cli_concurrency cli, form_cross_mounts = cli_cross_mounts cli,
                    form_error = None\<rparr>,
         d_model = new_model RECENT_LIMIT, d_scan = None, d_generation = 0,
         d_project_root = (case cli_project_root cli of Some p \<Rightarrow> p | None \<Rightarrow> default_project_root H),
         d_autoshot = map_option (\<lambda>directory. \<lparr>as_directory = directory, as_step = 0, as_armed = False,
                        as_warmup = 3\<rparr>) (cli_autoshot cli),
         d_recording = map_option (\<lambda>directory. \<lparr>rec_writer = new_writer answers,
                         rec_fps = (case cli_record_fps cli of Some fps \<Rightarrow> fps | None \<Rightarrow> 30), rec_started_at = time,
                         rec_capturing = False, rec_completed_at = None\<rparr>) (cli_record cli),
         d_dark = dark\<rparr>
      in if cli_root cli \<noteq> None then desktop_start_scan H st else st)"

section \<open>Messages\<close>

datatype 'p app_message =
    RootChanged string
  | WorkersSelected worker_choice
  | CrossMountsToggled bool
  | StartScan
  | NewScan
  | ThemeToggled
  | BackendMessage backend_event
  | TabSelected tab
  | FocusDirectory u32
  | NodeSelected u32
  | Reveal string
  | FilterChanged string
  | DismissNotice
  | AutoshotTick
  | ShotTaken 'p

datatype task = NoTask | ExitTask | Screenshot
  \<comment> \<open>\<open>Screenshot\<close>: the latest window, then \<open>ShotTaken\<close>\<close>

partial_function (option) descend :: "scan_model \<Rightarrow> u32 \<Rightarrow> u32 option" where
  \<comment> \<open>the loop to the deepest largest child; a cycle of parents would keep it going\<close>
  "descend m cursor =
     (if children_by_size m cursor = [] then Some cursor else descend m (hd (children_by_size m cursor)))"

definition autoshot_tick :: "'p desktop \<Rightarrow> ('p desktop \<times> task) option" where
  "autoshot_tick st =
     (case d_autoshot st of
        None \<Rightarrow> Some (st, NoTask)
      | Some plan \<Rightarrow>
          if as_warmup plan > 0 then Some (st\<lparr>d_autoshot := Some (plan\<lparr>as_warmup := as_warmup plan - 1\<rparr>)\<rparr>, NoTask)
          else if as_step plan \<ge> length AUTOSHOT_STEPS then Some (st, ExitTask)
          else case AUTOSHOT_STEPS ! as_step plan of (_, tab, dark, deep) \<Rightarrow>
            if \<not> as_armed plan then
              let st = st\<lparr>d_autoshot := Some (plan\<lparr>as_armed := True\<rparr>), d_dark := dark,
                         d_model := (d_model st)\<lparr>active_tab := tab\<rparr>\<rparr> in
              if deep then
                map_option (\<lambda>cursor. (st\<lparr>d_model := focus_directory cursor (d_model st)\<rparr>, NoTask))
                  (descend (d_model st) (focus (d_model st)))
              else Some (st, NoTask)
            else Some (st, Screenshot))"

definition recording_tick :: "'p desktop \<Rightarrow> 'p desktop \<times> task" where
  "recording_tick st =
     (case d_recording st of
        None \<Rightarrow> (st, NoTask)
      | Some r \<Rightarrow>
          if rec_capturing r then (st, NoTask)
          else (st\<lparr>d_recording := Some (r\<lparr>rec_capturing := True\<rparr>)\<rparr>, Screenshot))"

definition recording_tour_tab :: "nat \<Rightarrow> tab option" where
  "recording_tour_tab elapsed =
     (let secs = elapsed div 1000000000 in
      if secs \<le> 3 then Some Treemap
      else if secs \<le> 7 then Some SunburstTab
      else if secs \<le> 11 then Some GraphTab
      else if secs \<le> 15 then Some Diagnostics
      else None)"

definition terminal_phase :: "string \<Rightarrow> bool" where
  "terminal_phase p \<longleftrightarrow> p \<in> {''complete'', ''incomplete'', ''fatal'', ''disconnected''}"

definition recording_store :: "nat \<Rightarrow> 'p \<Rightarrow> 'p desktop \<Rightarrow> 'p desktop \<times> task" where
  "recording_store captured_at shot st =
     (case d_recording st of
        None \<Rightarrow> (st, NoTask)
      | Some r \<Rightarrow>
          (case push shot (captured_at - rec_started_at r) (rec_writer r) of
             (Inl e, w) \<Rightarrow> (st\<lparr>d_recording := Some (r\<lparr>rec_capturing := False, rec_writer := w\<rparr>)\<rparr>, ExitTask)
           | (Inr _, w) \<Rightarrow>
               let r = r\<lparr>rec_capturing := False, rec_writer := w\<rparr> in
               if \<not> terminal_phase (phase (d_model st)) then (st\<lparr>d_recording := Some r\<rparr>, NoTask)
               else
                 let completed_at = (case rec_completed_at r of Some t \<Rightarrow> t | None \<Rightarrow> captured_at);
                     r = r\<lparr>rec_completed_at := Some completed_at\<rparr> in
                 (case recording_tour_tab (captured_at - completed_at) of
                    Some tab \<Rightarrow> (st\<lparr>d_recording := Some r, d_model := (d_model st)\<lparr>active_tab := tab\<rparr>\<rparr>, NoTask)
                  | None \<Rightarrow> (st\<lparr>d_recording := Some (r\<lparr>rec_writer := snd (finish (rec_writer r))\<rparr>)\<rparr>, ExitTask))))"

definition autoshot_store :: "'p desktop \<Rightarrow> 'p desktop \<times> task" where
  \<comment> \<open>the picture goes to a file of its own; an error of that is only printed\<close>
  "autoshot_store st =
     (case d_autoshot st of
        None \<Rightarrow> (st, NoTask)
      | Some plan \<Rightarrow>
          if as_step plan \<ge> length AUTOSHOT_STEPS then (st, ExitTask)
          else
            let plan = plan\<lparr>as_step := as_step plan + 1, as_armed := False\<rparr>; st = st\<lparr>d_autoshot := Some plan\<rparr> in
            (st, if as_step plan \<ge> length AUTOSHOT_STEPS then ExitTask else NoTask))"

definition reveal_in_finder :: "(string \<Rightarrow> string option) \<Rightarrow> string \<Rightarrow> 'p desktop \<Rightarrow> 'p desktop" where
  \<comment> \<open>\<open>opener\<close> gives the text of the error, if the command does not start\<close>
  "reveal_in_finder opener path st =
     (case opener path of
        None \<Rightarrow> st
      | Some e \<Rightarrow> st\<lparr>d_model := (d_model st)\<lparr>notice :=
          Some \<lparr>notice_text = ''could not reveal '' @ path @ '': '' @ e, notice_level = ErrorLevel\<rparr>\<rparr>\<rparr>)"

definition update :: "host \<Rightarrow> (string \<Rightarrow> string option) \<Rightarrow> nat \<Rightarrow> 'p app_message \<Rightarrow> 'p desktop \<Rightarrow> ('p desktop \<times> task) option" where
  "update H opener time msg st =
     (case msg of
        AutoshotTick \<Rightarrow> if d_recording st \<noteq> None then Some (recording_tick st) else autoshot_tick st
      | ShotTaken shot \<Rightarrow>
          if d_recording st \<noteq> None then Some (recording_store time shot st) else Some (autoshot_store st)
      | RootChanged value \<Rightarrow> Some (st\<lparr>d_setup := (d_setup st)\<lparr>form_root := value\<rparr>\<rparr>, NoTask)
      | WorkersSelected (WorkerChoice n) \<Rightarrow> Some (st\<lparr>d_setup := (d_setup st)\<lparr>form_concurrency := n\<rparr>\<rparr>, NoTask)
      | CrossMountsToggled b \<Rightarrow> Some (st\<lparr>d_setup := (d_setup st)\<lparr>form_cross_mounts := b\<rparr>\<rparr>, NoTask)
      | StartScan \<Rightarrow> Some (desktop_start_scan H st, NoTask)
      | NewScan \<Rightarrow> Some (st\<lparr>d_scan := None, d_screen := SetupScreen\<rparr>, NoTask)
      | ThemeToggled \<Rightarrow> Some (st\<lparr>d_dark := \<not> d_dark st\<rparr>, NoTask)
      | BackendMessage event \<Rightarrow> map_option (\<lambda>m. (st\<lparr>d_model := m\<rparr>, NoTask)) (apply_event event (d_model st))
      | TabSelected tab \<Rightarrow> Some (st\<lparr>d_model := (d_model st)\<lparr>active_tab := tab\<rparr>\<rparr>, NoTask)
      | FocusDirectory i \<Rightarrow> Some (st\<lparr>d_model := focus_directory i (d_model st)\<rparr>, NoTask)
      | NodeSelected i \<Rightarrow> Some (st\<lparr>d_model := (d_model st)\<lparr>selected := Some i\<rparr>\<rparr>, NoTask)
      | Reveal path \<Rightarrow> Some (reveal_in_finder opener path st, NoTask)
      | FilterChanged value \<Rightarrow> Some (st\<lparr>d_model := set_filter value (d_model st)\<rparr>, NoTask)
      | DismissNotice \<Rightarrow> Some (st\<lparr>d_model := (d_model st)\<lparr>notice := None\<rparr>\<rparr>, NoTask))"

section \<open>Subscriptions\<close>

datatype subscription = BackendStream scan_config | RecordingTicks u32 | AutoshotTicks
  \<comment> \<open>the runtime keeps the stream of a subscription for as long as an equal one is returned\<close>

definition subscriptions :: "'p desktop \<Rightarrow> subscription list" where
  "subscriptions st =
     (case d_scan st of Some config \<Rightarrow> [BackendStream config] | None \<Rightarrow> [])
     @ (case d_recording st of
          Some r \<Rightarrow> [RecordingTicks (rec_fps r)]
        | None \<Rightarrow> if d_autoshot st \<noteq> None then [AutoshotTicks] else [])"

end
