(* ===== verification/Desktop_Props.thy ===== *)
theory Desktop_Props
  imports Desktop Paths
begin

text \<open>
  The application as a transition system: its invariant, the identity of its subscriptions, the
  outcome of starting a scan, and the tours of \<open>--autoshot\<close> and \<open>--record\<close>.
\<close>

section \<open>Starting a scan\<close>

lemma add_fields_distinct: "distinct known \<Longrightarrow> distinct (add_fields known fs)"
  by (induction known fs rule: add_fields.induct) simp_all

lemma set_add_fields: "set (add_fields known fs) = set known \<union> set fs"
  by (induction known fs rule: add_fields.induct) auto

lemma add_fields_prefix: "\<exists>more. add_fields known fs = known @ more"
  by (induction known fs rule: add_fields.induct) (auto split: if_splits)

definition fields_ok :: "string list \<Rightarrow> bool" where
  "fields_ok fs \<longleftrightarrow> distinct fs \<and> take 2 fs = [''type'', SIZE_FIELD]"

lemma fields_ok_add: "fields_ok (add_fields [''type'', SIZE_FIELD] fs)"
proof -
  obtain more where "add_fields [''type'', SIZE_FIELD] fs = [''type'', SIZE_FIELD] @ more"
    using add_fields_prefix by blast
  moreover have "distinct (add_fields [''type'', SIZE_FIELD] fs)"
    by (rule add_fields_distinct) (simp add: SIZE_FIELD_def)
  ultimately show ?thesis by (simp add: fields_ok_def)
qed

definition can_start :: "host \<Rightarrow> 'p desktop \<Rightarrow> string option" where
  \<comment> \<open>the canonical root, when the form is valid\<close>
  "can_start H st =
     (case sanitized_root H (form_root (d_setup st)) of
        Inl _ \<Rightarrow> None
      | Inr r \<Rightarrow> if isl (validate_project H (d_project_root st)) then None else Some r)"

section \<open>The transition system\<close>

definition legal :: "'p app_message \<Rightarrow> bool" where
  \<comment> \<open>a summary never names the id that stands for no parent\<close>
  "legal msg \<longleftrightarrow> (case msg of
      BackendMessage event \<Rightarrow> list_all (\<lambda>d. dir_parent_id d \<noteq> Some NO_PARENT) (event_dirs event)
    | _ \<Rightarrow> True)"

inductive desk_step :: "'p desktop \<Rightarrow> 'p desktop \<Rightarrow> bool" where
  handle: "\<lbrakk>update H opener time msg st = Some (st', task); legal msg\<rbrakk> \<Longrightarrow> desk_step st st'"

inductive desk_reachable :: "'p desktop \<Rightarrow> bool" where
  start: "desk_reachable (new_desktop H time answers dark cli)"
| step: "desk_reachable st \<Longrightarrow> desk_step st st' \<Longrightarrow> desk_reachable st'"

inductive_cases desk_stepE: "desk_step st st'"

definition desk_ok :: "'p desktop \<Rightarrow> bool" where
  "desk_ok st \<longleftrightarrow> model_ok (d_model st)
     \<and> (case d_scan st of
          None \<Rightarrow> d_screen st = SetupScreen
        | Some c \<Rightarrow> d_screen st = RunningScreen \<and> sc_generation c = d_generation st \<and> fields_ok (sc_fields c))
     \<and> (case d_autoshot st of None \<Rightarrow> True | Some plan \<Rightarrow> as_step plan \<le> length AUTOSHOT_STEPS)"

definition started :: "string \<Rightarrow> 'p desktop \<Rightarrow> 'p desktop" where
  \<comment> \<open>the state after a scan of \<open>r\<close> was started\<close>
  "started r st =
     st\<lparr>d_generation := d_generation st + 1, d_setup := (d_setup st)\<lparr>form_root := r, form_error := None\<rparr>,
        d_model := new_model RECENT_LIMIT,
        d_scan := Some \<lparr>sc_generation = d_generation st + 1, sc_root = r, sc_project_root = d_project_root st,
          sc_fields = add_fields [''type'', SIZE_FIELD] (form_fields (d_setup st)),
          sc_concurrency = form_concurrency (d_setup st), sc_cross_mounts = form_cross_mounts (d_setup st)\<rparr>,
        d_screen := RunningScreen\<rparr>"

lemma start_scan_Some: "can_start H st = Some r \<Longrightarrow> desktop_start_scan H st = started r st"
  by (auto simp: desktop_start_scan_def can_start_def started_def Let_def split: sum.splits if_splits)

lemma start_scan_None:
  "can_start H st = None \<Longrightarrow> \<exists>setup e. desktop_start_scan H st = st\<lparr>d_setup := setup\<rparr> \<and> form_error setup = Some e"
  by (cases "sanitized_root H (form_root (d_setup st))"; cases "validate_project H (d_project_root st)")
    (auto simp: desktop_start_scan_def can_start_def)

lemma desk_ok_start_scan: "desk_ok st \<Longrightarrow> desk_ok (desktop_start_scan H st)"
  by (cases "can_start H st")
    (use start_scan_None [of H st] in
      \<open>auto simp: desk_ok_def model_ok_new start_scan_Some started_def fields_ok_add split: option.splits\<close>)

lemma desk_ok_new: "desk_ok (new_desktop H time answers dark cli)"
proof -
  have init: "desk_ok \<lparr>d_screen = SetupScreen, d_setup = f, d_model = new_model RECENT_LIMIT, d_scan = None,
      d_generation = 0, d_project_root = p,
      d_autoshot = map_option (\<lambda>directory. \<lparr>as_directory = directory, as_step = 0, as_armed = False, as_warmup = 3\<rparr>) a,
      d_recording = r, d_dark = dark\<rparr>" for f p a r
    by (cases a) (simp_all add: desk_ok_def model_ok_new)
  show ?thesis
    by (simp only: new_desktop_def Let_def split: if_split) (intro conjI impI desk_ok_start_scan init)
qed

lemma model_ok_view [simp]:
  "model_ok (m\<lparr>active_tab := t\<rparr>) = model_ok m" "model_ok (m\<lparr>notice := n\<rparr>) = model_ok m"
  "model_ok (m\<lparr>selected := s\<rparr>) = model_ok m" "model_ok (focus_directory i m) = model_ok m"
  "model_ok (set_filter value m) = model_ok m"
  by (simp_all add: model_ok_def lists_ok_def histories_ok_def failures_ok_def board_ok_def focus_directory_def set_filter_def)

lemma desk_ok_updates [simp]:
  "desk_ok (st\<lparr>d_setup := f\<rparr>) = desk_ok st" "desk_ok (st\<lparr>d_dark := b\<rparr>) = desk_ok st"
  "desk_ok (st\<lparr>d_recording := r\<rparr>) = desk_ok st"
  by (simp_all add: desk_ok_def split: option.split)

lemma desk_ok_model: "desk_ok st \<Longrightarrow> model_ok m \<Longrightarrow> desk_ok (st\<lparr>d_model := m\<rparr>)"
  by (auto simp: desk_ok_def split: option.split)

lemma desk_ok_model_ok: "desk_ok st \<Longrightarrow> model_ok (d_model st)"
  by (simp add: desk_ok_def)

lemma desk_ok_autoshot_tick: "desk_ok st \<Longrightarrow> autoshot_tick st = Some (st', task) \<Longrightarrow> desk_ok st'"
  by (auto simp: autoshot_tick_def desk_ok_def Let_def split: option.splits if_splits prod.splits)

lemma desk_ok_autoshot_store: "desk_ok st \<Longrightarrow> desk_ok (fst (autoshot_store st))"
  by (auto simp: autoshot_store_def desk_ok_def Let_def split: option.splits)

lemma desk_ok_recording_tick: "desk_ok st \<Longrightarrow> desk_ok (fst (recording_tick st))"
  by (auto simp: recording_tick_def desk_ok_def split: option.splits)

lemma desk_ok_recording_store: "desk_ok st \<Longrightarrow> desk_ok (fst (recording_store time shot st))"
  by (auto simp: recording_store_def desk_ok_def Let_def split: option.splits prod.splits sum.splits)

lemma desk_ok_update:
  assumes "update H opener time msg st = Some (st', task)" "legal msg" "desk_ok st"
  shows "desk_ok st'"
proof (cases msg)
  case (BackendMessage event)
  then have "\<forall>d \<in> set (event_dirs event). dir_parent_id d \<noteq> Some NO_PARENT"
    using assms(2) by (simp add: legal_def list_all_iff)
  from apply_event_ok [OF desk_ok_model_ok [OF assms(3)] this] show ?thesis
    using assms(1,3) BackendMessage by (auto simp: update_def desk_ok_model)
next
  case AutoshotTick
  then show ?thesis using assms(1,3) desk_ok_recording_tick [of st]
    by (auto simp: update_def desk_ok_autoshot_tick split: if_splits)
next
  case (ShotTaken shot)
  then show ?thesis using assms(1,3) desk_ok_recording_store [of st time shot] desk_ok_autoshot_store [of st]
    by (auto simp: update_def split: if_splits)
next
  case (WorkersSelected choice)
  then show ?thesis using assms(1,3) by (cases choice) (auto simp: update_def)
next
  case NewScan
  then show ?thesis using assms(1,3) by (auto simp: update_def desk_ok_def)
qed (use assms(1,3) desk_ok_model_ok [OF assms(3)] in
  \<open>auto simp: update_def reveal_in_finder_def desk_ok_start_scan desk_ok_model split: option.splits\<close>)

lemma update_returns:
  assumes "desk_ok st" "legal msg" "msg \<noteq> AutoshotTick"
  shows "update H opener time msg st \<noteq> None"
proof (cases msg)
  case (BackendMessage event)
  then have "\<forall>d \<in> set (event_dirs event). dir_parent_id d \<noteq> Some NO_PARENT"
    using assms(2) by (simp add: legal_def list_all_iff)
  from apply_event_ok [OF _ this, of "d_model st"] show ?thesis
    using assms(1) BackendMessage by (auto simp: update_def desk_ok_def)
next
  case (WorkersSelected choice)
  then show ?thesis by (cases choice) (simp add: update_def)
qed (use assms(3) in \<open>simp_all add: update_def\<close>)


section \<open>The identity of a scan's subscription\<close>

lemma desk_step_generation:
  assumes "desk_step st st'"
  shows "(d_generation st' = d_generation st \<and> (d_scan st' = d_scan st \<or> d_scan st' = None))
    \<or> d_generation st' = d_generation st + 1"
proof -
  have start: ?thesis if "st' = desktop_start_scan H st" for H
    using start_scan_None [of H st] that by (cases "can_start H st") (auto simp: start_scan_Some started_def)
  from assms show ?thesis
  proof (rule desk_stepE)
    fix H opener time msg task assume u: "update H opener time msg st = Some (st', task)"
    show ?thesis
    proof (cases msg)
      case (WorkersSelected choice)
      then show ?thesis using u by (cases choice) (auto simp: update_def)
    next
      case StartScan
      then show ?thesis using u start [of H] by (simp add: update_def)
    qed (use u in \<open>auto simp: update_def reveal_in_finder_def autoshot_tick_def autoshot_store_def recording_tick_def
        recording_store_def Let_def split: option.splits if_splits prod.splits sum.splits\<close>)
  qed
qed

lemma desk_steps_generation:
  "(desk_step ^^ n) st st' \<Longrightarrow>
     \<exists>k \<le> n. d_generation st' = d_generation st + of_nat k \<and> (k = 0 \<longrightarrow> d_scan st' = d_scan st \<or> d_scan st' = None)"
proof (induction n arbitrary: st')
  case (Suc n)
  then obtain u where u: "(desk_step ^^ n) st u" "desk_step u st'" by (auto elim: relpowp_Suc_E)
  from Suc.IH [OF u(1)] obtain k where k: "k \<le> n" "d_generation u = d_generation st + of_nat k"
    "k = 0 \<longrightarrow> d_scan u = d_scan st \<or> d_scan u = None" by blast
  from desk_step_generation [OF u(2)] show ?case
  proof (elim disjE conjE)
    assume "d_generation st' = d_generation u + 1"
    then show ?thesis using k by (intro exI [of _ "Suc k"]) (simp add: ac_simps)
  qed (use k in \<open>auto intro!: exI [of _ k]\<close>)
qed simp

lemma desk_reachable_ok: "desk_reachable st \<Longrightarrow> desk_ok st"
  by (induction rule: desk_reachable.induct) (auto simp: desk_ok_new desk_ok_update elim!: desk_stepE)

lemma desk_reachable_steps: "(desk_step ^^ n) st st' \<Longrightarrow> desk_reachable st \<Longrightarrow> desk_reachable st'"
  by (induction n arbitrary: st') (auto elim!: relpowp_Suc_E intro: desk_reachable.step)


section \<open>The configuration of a scan\<close>

definition first_occurrences :: "'a list \<Rightarrow> 'a list" where
  "first_occurrences xs = rev (remdups (rev xs))"

lemma first_occurrences_snoc: 
  "first_occurrences (xs @ [x]) = (if x \<in> set xs then first_occurrences xs else first_occurrences xs @ [x])"
  by (simp add: first_occurrences_def)

lemma add_fields_snoc:
  "add_fields known (fs @ [f]) = (let g = add_fields known fs in if f \<in> set g then g else g @ [f])"
  by (induction known fs rule: add_fields.induct) (simp_all add: Let_def)

lemma add_fields_eq:
  "add_fields known fs = known @ first_occurrences (filter (\<lambda>f. f \<notin> set known) fs)"
proof (induction fs rule: rev_induct)
  case (snoc f fs)
  have "set (first_occurrences xs) = set xs" for xs :: "string list" by (simp add: first_occurrences_def)
  then show ?case by (simp add: add_fields_snoc snoc.IH Let_def first_occurrences_snoc)
qed (simp add: first_occurrences_def)


end
