(* ===== verification/Tours.thy ===== *)
theory Tours
  imports Desktop_Props
begin

text \<open>
  The tours that drive the application by itself: the descent to the deepest largest directory, the
  screenshot tour of \<open>--autoshot\<close>, and the end of a recording.
\<close>

section \<open>The descent\<close>

definition rank :: "directory_summary list \<Rightarrow> u32 \<Rightarrow> nat" where
  \<comment> \<open>when a directory was summarised\<close>
  "rank ds i = length (takeWhile (\<lambda>d. dir_id d \<noteq> i) ds)"

lemma rank_snoc:
  "rank (ds @ [d]) i = (if i \<in> ids ds then rank ds i else if dir_id d = i then length ds else length ds + 1)"
  by (induction ds) (auto simp: rank_def ids_def)

lemma rank_less: "i \<in> ids ds \<Longrightarrow> rank ds i < length ds"
  by (induction ds) (auto simp: rank_def ids_def)

lemma rank_parent: "parents_first [] ds \<Longrightarrow> parent_of ds j = Some p \<Longrightarrow> rank ds p < rank ds j"
proof (induction ds arbitrary: j p rule: rev_induct)
  case Nil
  then show ?case by (simp add: parent_of_def)
next
  case (snoc d ds)
  then have d: "parents_first [] ds" "dir_id d \<notin> ids ds" by (auto simp: parents_first_snoc)
  show ?case
  proof (cases "j = dir_id d")
    case True
    then have "p \<in> ids ds"
      using snoc.prems by (auto simp: parent_of_snoc [OF d(2)] parents_first_snoc)
    then show ?thesis using True d(2) by (simp add: rank_snoc rank_less)
  next
    case False
    then have p: "parent_of ds j = Some p"
      using snoc.prems(2) by (simp add: parent_of_snoc [OF d(2)])
    then show ?thesis
      using snoc.IH [OF d(1) p] parents_first_known [OF d(1) p] by (simp add: rank_snoc)
  qed
qed

definition largest_child :: "scan_model \<Rightarrow> u32 \<Rightarrow> u32 \<Rightarrow> bool" where
  "largest_child m i c \<longleftrightarrow> children_by_size m i \<noteq> [] \<and> c = hd (children_by_size m i)"

lemma descend_leaf:
  assumes "parents_first [] ds" "parent (tree m) = parent_of ds" "family (tree m)"
  shows "\<exists>leaf. descend m i = Some leaf \<and> (largest_child m)\<^sup>*\<^sup>* i leaf \<and> children_by_size m leaf = []"
proof (induction "length ds - rank ds i" arbitrary: i rule: less_induct)
  case less
  show ?case
  proof (cases "children_by_size m i = []")
    case True
    then show ?thesis by (simp add: descend.simps [of m i])
  next
    case False
    let ?c = "hd (children_by_size m i)"
    have "?c \<in> set (children_by_size m i)" using False by simp
    then have "?c \<in> set (children (tree m) i)" unfolding children_by_size_def by (rule set_takeWhileD [THEN conjunct1])
    then have p: "parent_of ds ?c = Some i" using assms(2,3) by (simp add: family_def)
    have "rank ds i < rank ds ?c" using assms(1) p by (rule rank_parent)
    moreover have "rank ds ?c < length ds" using parents_first_known [OF assms(1) p] rank_less by blast
    ultimately have "length ds - rank ds ?c < length ds - rank ds i" by simp
    from less [OF this] obtain leaf where leaf: "descend m ?c = Some leaf" "(largest_child m)\<^sup>*\<^sup>* ?c leaf" "children_by_size m leaf = []"
      by blast
    have "largest_child m i ?c" using False by (simp add: largest_child_def)
    then show ?thesis using leaf False
      by (auto simp: descend.simps [of m i] intro: converse_rtranclp_into_rtranclp)
  qed
qed

lemma descend_scanned:
  assumes "apply_events es (new_model limit) = Some m" "parents_first [] (concat (map event_dirs es))"
  shows "\<exists>leaf. descend m i = Some leaf \<and> (largest_child m)\<^sup>*\<^sup>* i leaf \<and> children_by_size m leaf = []"
proof -
  have t: "tree_batches (dir_batches es) empty_tree = Some (tree m)"
    using apply_events_tree [OF assms(1)] by (simp add: new_model_def)
  have p: "parents_first [] (concat (dir_batches es))" using assms(2) by (simp add: concat_dir_batches)
  from tree_batches_holds [OF p] t have "holds (concat (dir_batches es)) (tree m)" by simp
  then show ?thesis by (intro descend_leaf [OF p]) (auto simp: holds_def tree_ok_def)
qed

text \<open>
  C32. The loop that looks for the deepest largest directory returns on every model built from summaries with parents
  first: from child to largest child it reaches a directory without sized children.
\<close>
theorem descend_returns:
  assumes "apply_events es (new_model limit) = Some m" and "parents_first [] (concat (map event_dirs es))"
  shows "\<exists>leaf. descend m i = Some leaf \<and> (largest_child m)\<^sup>*\<^sup>* i leaf \<and> children_by_size m leaf = []"
  using assms by (rule descend_scanned)

section \<open>The screenshot tour\<close>

fun run_messages :: "host \<Rightarrow> (string \<Rightarrow> string option) \<Rightarrow> nat \<Rightarrow> 'p app_message list \<Rightarrow> 'p desktop
    \<Rightarrow> ('p desktop \<times> (task \<times> tab \<times> bool) list) option" where
  \<comment> \<open>with the task of each message and the tab and theme it leaves on the screen\<close>
  "run_messages H opener time [] st = Some (st, [])"
| "run_messages H opener time (msg # msgs) st =
     Option.bind (update H opener time msg st) (\<lambda>(st, task).
       map_option (\<lambda>(st', trace). (st', (task, active_tab (d_model st), d_dark st) # trace))
         (run_messages H opener time msgs st))"

lemma run_messages_append:
  "run_messages H opener time (xs @ ys) st =
     Option.bind (run_messages H opener time xs st) (\<lambda>(st, trace).
       map_option (\<lambda>(st', trace'). (st', trace @ trace')) (run_messages H opener time ys st))"
  by (induction xs arbitrary: st) (auto split: bind_splits option.splits simp: map_option_case)

definition touring :: "nat \<Rightarrow> nat \<Rightarrow> 'p desktop \<Rightarrow> bool" where
  \<comment> \<open>about to arrange stop \<open>k\<close>, after \<open>warmup\<close> more ticks\<close>
  "touring warmup k st \<longleftrightarrow> d_recording st = None
     \<and> (\<exists>directory. d_autoshot st = Some \<lparr>as_directory = directory, as_step = k, as_armed = False, as_warmup = warmup\<rparr>)
     \<and> (k < length AUTOSHOT_STEPS \<longrightarrow> descend (d_model st) (focus (d_model st)) \<noteq> None)"

definition stop_messages :: "'p \<Rightarrow> 'p app_message list" where
  \<comment> \<open>the tick that arranges a stop, the one that captures it, and the picture\<close>
  "stop_messages shot = [AutoshotTick, AutoshotTick, ShotTaken shot]"

definition stop_trace :: "nat \<Rightarrow> (task \<times> tab \<times> bool) list" where
  "stop_trace k =
     (case AUTOSHOT_STEPS ! k of (_, tab, dark, _) \<Rightarrow>
        [(NoTask, tab, dark), (Screenshot, tab, dark),
         (if k + 1 = length AUTOSHOT_STEPS then ExitTask else NoTask, tab, dark)])"

lemma descend_tree_Some:
  assumes "descend m i = Some r" "tree m' = tree m"
  shows "descend m' i = Some r"
proof -
  have "\<forall>m'. tree m' = tree m \<longrightarrow> descend m' i = Some r"
  proof (rule descend.raw_induct [OF _ assms(1)], intro allI impI)
    fix f m i r and m' :: scan_model
    assume IH: "\<And>m i r. f m i = Some r \<Longrightarrow> \<forall>m'. tree m' = tree m \<longrightarrow> descend m' i = Some r"
      and body: "(if children_by_size m i = [] then Some i else f m (hd (children_by_size m i))) = Some r"
      and t: "tree m' = tree m"
    have "children_by_size m' i = children_by_size m i" using t by (simp add: children_by_size_def)
    then show "descend m' i = Some r"
      using body t IH [of m "hd (children_by_size m i)" r]
      by (cases "children_by_size m i = []") (simp_all add: descend.simps [of m' i] descend.simps [of m' r])
  qed
  then show ?thesis using assms(2) by simp
qed

lemma descend_tree: "tree m' = tree m \<Longrightarrow> descend m' i = descend m i"
  by (metis descend_tree_Some option.exhaust)

lemma stop_trace_run:
  assumes "touring 0 k st" "k < length AUTOSHOT_STEPS"
  shows "\<exists>st'. run_messages H opener time (stop_messages shot) st = Some (st', stop_trace k) \<and> touring 0 (k + 1) st'"
proof -
  obtain name tab dark deep where stop: "AUTOSHOT_STEPS ! k = (name, tab, dark, deep)" by (metis prod_cases4)
  have last: "deep \<Longrightarrow> k + 1 = length AUTOSHOT_STEPS"
    using stop assms(2) by (auto simp: AUTOSHOT_STEPS_def less_Suc_eq nth_Cons')
  let ?m = "(d_model st)\<lparr>active_tab := tab\<rparr>"
  have d: "descend ?m j = descend (d_model st) j" for j by (rule descend_tree) simp
  obtain leaf where leaf: "descend ?m (focus (d_model st)) = Some leaf"
    using assms by (auto simp: touring_def d)
  obtain directory where plan: "d_recording st = None"
    "d_autoshot st = Some \<lparr>as_directory = directory, as_step = k, as_armed = False, as_warmup = 0\<rparr>"
    using assms(1) by (auto simp: touring_def)
  show ?thesis
  proof (cases deep)
    case True
    then show ?thesis using plan stop leaf last assms(2)
      by (simp add: stop_messages_def stop_trace_def update_def autoshot_tick_def autoshot_store_def touring_def
          focus_directory_def Let_def)
  next
    case False
    then show ?thesis using plan stop leaf assms
      by (simp add: stop_messages_def stop_trace_def update_def autoshot_tick_def autoshot_store_def touring_def
          Let_def d)
  qed
qed

lemma tour_from:
  "\<lbrakk>touring 0 k st; k + length shots = length AUTOSHOT_STEPS\<rbrakk> \<Longrightarrow>
     \<exists>st'. run_messages H opener time (concat (map stop_messages shots)) st
         = Some (st', concat (map stop_trace [k..<length AUTOSHOT_STEPS])) \<and> touring 0 (length AUTOSHOT_STEPS) st'"
proof (induction shots arbitrary: k st)
  case (Cons shot shots)
  then have k: "k < length AUTOSHOT_STEPS" by simp
  obtain st1 where st1: "run_messages H opener time (stop_messages shot) st = Some (st1, stop_trace k)" "touring 0 (k + 1) st1"
    using stop_trace_run [OF Cons.prems(1) k] by blast
  from Cons.IH [OF st1(2)] Cons.prems(2) obtain st2 where
    "run_messages H opener time (concat (map stop_messages shots)) st1
       = Some (st2, concat (map stop_trace [k + 1..<length AUTOSHOT_STEPS]))" "touring 0 (length AUTOSHOT_STEPS) st2" by auto
  then show ?case using st1(1) k by (auto simp: run_messages_append upt_conv_Cons)
qed simp

lemma warmup_run:
  "touring n 0 st \<Longrightarrow>
     \<exists>st'. run_messages H opener time (replicate n AutoshotTick) st
         = Some (st', replicate n (NoTask, active_tab (d_model st), d_dark st)) \<and> touring 0 0 st'"
proof (induction n arbitrary: st)
  case (Suc n)
  obtain directory where plan: "d_recording st = None"
    "d_autoshot st = Some \<lparr>as_directory = directory, as_step = 0, as_armed = False, as_warmup = Suc n\<rparr>"
    using Suc.prems by (auto simp: touring_def)
  let ?st = "st\<lparr>d_autoshot := Some \<lparr>as_directory = directory, as_step = 0, as_armed = False, as_warmup = n\<rparr>\<rparr>"
  have "update H opener time AutoshotTick st = Some (?st, NoTask)"
    using plan by (simp add: update_def autoshot_tick_def)
  moreover have "touring n 0 ?st" using Suc.prems by (auto simp: touring_def)
  ultimately show ?case using Suc.IH [of ?st] by auto
qed simp

definition tour_views :: "(tab \<times> bool) list" where
  "tour_views = map (\<lambda>(name, tab, dark, deep). (tab, dark)) AUTOSHOT_STEPS"

definition captured :: "(task \<times> tab \<times> bool) list \<Rightarrow> (tab \<times> bool) list" where
  \<comment> \<open>what is on the screen whenever a screenshot is asked for\<close>
  "captured trace = map snd (filter (\<lambda>(task, view). task = Screenshot) trace)"

lemma captured_stops:
  "captured (replicate n (NoTask, view) @ concat (map stop_trace [0..<length AUTOSHOT_STEPS])) = tour_views"
  by (simp add: captured_def tour_views_def stop_trace_def AUTOSHOT_STEPS_def upt_rec)


text \<open>
  The tour has no guard against a second request for the same stop: when two ticks pass before the
  picture of an armed stop arrives, the second picture is stored under the name of the next stop, which
  was never arranged.
\<close>
lemma autoshot_overtaken:
  assumes "d_recording st = None" "d_autoshot st = Some plan" "as_warmup plan = 0" "\<not> as_armed plan"
    and "as_step plan + 1 < length AUTOSHOT_STEPS" "AUTOSHOT_STEPS ! as_step plan = (name, tab, dark, False)"
  shows "\<exists>st' trace. run_messages H opener time
      [AutoshotTick, AutoshotTick, AutoshotTick, ShotTaken p, ShotTaken q] st = Some (st', trace)
    \<and> map_option as_step (d_autoshot st') = Some (as_step plan + 2) \<and> active_tab (d_model st') = tab"
  using assms
  by (simp add: update_def autoshot_tick_def autoshot_store_def Let_def)

section \<open>The end of a recording\<close>

lemma join_ends: "join w = (r, w') \<Longrightarrow> thread w' = Ended r"
  by (induction w rule: join.induct) (auto simp: join.simps split: writer_thread.splits)

lemma finish_closes: "finish w = (r, w') \<Longrightarrow> worker_there w \<Longrightarrow> thread w' = Ended r"
  by (auto simp: finish_def Let_def dest: join_ends)

definition TOUR_STOP :: nat where "TOUR_STOP = 4 * 1000000000"

lemma recording_tour_tab_eq:
  "recording_tour_tab elapsed = (let stop = elapsed div TOUR_STOP in if stop < 4 then Some (ALL_TABS ! stop) else None)"
proof -
  let ?s = "elapsed div 1000000000"
  have stop: "elapsed div TOUR_STOP = ?s div 4" by (simp add: TOUR_STOP_def div_mult2_eq [of elapsed 1000000000 4, simplified])
  consider "?s \<le> 3" "?s div 4 = 0" | "3 < ?s" "?s \<le> 7" "?s div 4 = 1" | "7 < ?s" "?s \<le> 11" "?s div 4 = 2"
    | "11 < ?s" "?s \<le> 15" "?s div 4 = 3" | "15 < ?s" "4 \<le> ?s div 4" by linarith
  then show ?thesis
    by cases (simp_all add: recording_tour_tab_def stop Let_def ALL_TABS_def numeral_2_eq_2 numeral_3_eq_3)
qed


end
