(* ===== verification/Desktop_Demo.thy ===== *)
theory Desktop_Demo
  imports Tours Scan_Demo
begin

text \<open>A host and a few states of the application, and the witnesses of its properties on them.\<close>

definition demo_host :: host where
  "demo_host = \<lparr>host_home = Some ''/home/ada'', host_canonicalize = (\<lambda>s. Some (as_bytes ''/srv'')), host_is_dir = (\<lambda>p. True),
     host_is_file = (\<lambda>p. True), host_current_dir = None, host_current_exe = None,
     host_manifest_dir = as_bytes ''/src/desktop'', host_show_path = string_of_bytes\<rparr>"

definition demo_app :: "nat desktop" where
  "demo_app = new_desktop demo_host 0 [] False (default_cli\<lparr>cli_root := Some '' /srv''\<rparr>)"

definition demo_again :: "nat desktop" where
  "demo_again = desktop_start_scan demo_host demo_app"

lemma demo_roots:
  "sanitized_root demo_host '' /srv'' = Inr ''/srv''" "sanitized_root demo_host ''/srv'' = Inr ''/srv''"
  "validate_project demo_host p = Inr ()"
proof -
  show "sanitized_root demo_host '' /srv'' = Inr ''/srv''" "sanitized_root demo_host ''/srv'' = Inr ''/srv''"
    by code_simp+
  show "validate_project demo_host p = Inr ()"
    by (simp add: validate_project_def is_workspace_root_def demo_host_def Let_def)
qed

lemma demo_app_scan:
  "\<exists>c. d_scan demo_app = Some c \<and> sc_root c = ''/srv'' \<and> sc_generation c = 1"
  by (simp add: demo_app_def new_desktop_def desktop_start_scan_def demo_roots Let_def default_cli_def)

lemma demo_app_form: "form_root (d_setup demo_app) = ''/srv''" "d_generation demo_app = 1" "d_recording demo_app = None"
  by (simp_all add: demo_app_def new_desktop_def desktop_start_scan_def demo_roots Let_def default_cli_def)

lemma demo_again_eq: "demo_again = started ''/srv'' demo_app"
  unfolding demo_again_def
  by (rule start_scan_Some) (simp add: can_start_def demo_app_form demo_roots)

lemma demo_restart: "desk_step demo_app demo_again"
  by (rule desk_step.handle [where H = demo_host and opener = "\<lambda>p. None" and time = 0 and msg = StartScan])
    (simp_all add: update_def demo_again_def legal_def)

lemma demo_reachable: "desk_reachable demo_app"
  unfolding demo_app_def by (rule desk_reachable.start)



definition demo_tour :: "nat desktop" where
  "demo_tour = new_desktop demo_host 0 [] False (default_cli\<lparr>cli_autoshot := Some []\<rparr>)"

lemma demo_touring: "touring 3 0 demo_tour"
proof -
  have "children_by_size (new_model RECENT_LIMIT) i = []" for i
    by (simp add: children_by_size_def new_model_def children_def node_def empty_tree_def)
  then have "descend (new_model RECENT_LIMIT) i = Some i" for i by (simp add: descend.simps [of _ i])
  then show ?thesis by (simp add: touring_def demo_tour_def new_desktop_def default_cli_def)
qed


definition demo_recording_state :: "nat desktop" where
  "demo_recording_state = demo_app\<lparr>d_model := (new_model 1)\<lparr>phase := ''complete''\<rparr>,
     d_recording := Some \<lparr>rec_writer = new_writer [], rec_fps = 30, rec_started_at = 0, rec_capturing = True,
       rec_completed_at = Some 1000000000\<rparr>\<rparr>"


lemma descend_returns_witness:
  "\<exists>m. apply_events demo_events (new_model 2) = Some m \<and> (\<exists>leaf. descend m 0 = Some leaf \<and> children_by_size m leaf = [])"
proof -
  obtain m where m: "apply_events demo_events (new_model 2) = Some m" using demo_events_run by blast
  from descend_returns [OF m demo_events_ok(3), of 0] m show ?thesis by blast
qed

end
