(* ===== verification/F32.thy ===== *)
theory F32
  imports F64
begin

text \<open>
  The \<open>f32\<close> arithmetic of the charts, on bit patterns and with the rounding of \<open>F64\<close>: a finite
  magnitude is \<open>significand * 2 ^ (scale - 149)\<close>. The trigonometric functions of the standard library have no exact
  specification; the definitions that use one take it as an argument.
\<close>

type_synonym f32_bits = "32 word"

section \<open>Fields\<close>

definition f32_negative :: "f32_bits \<Rightarrow> bool" where
  "f32_negative x \<longleftrightarrow> unat x \<ge> 2 ^ 31"

definition f32_exponent :: "f32_bits \<Rightarrow> nat" where
  "f32_exponent x = unat x div 2 ^ 23 mod 2 ^ 8"

definition f32_fraction :: "f32_bits \<Rightarrow> nat" where
  "f32_fraction x = unat x mod 2 ^ 23"

definition f32_nan :: "f32_bits \<Rightarrow> bool" where
  "f32_nan x \<longleftrightarrow> f32_exponent x = 255 \<and> f32_fraction x \<noteq> 0"

definition f32_inf :: "f32_bits \<Rightarrow> bool" where
  "f32_inf x \<longleftrightarrow> f32_exponent x = 255 \<and> f32_fraction x = 0"

definition f32_scale :: "f32_bits \<Rightarrow> nat" where
  "f32_scale x = f32_exponent x - 1"

definition f32_significand :: "f32_bits \<Rightarrow> nat" where
  "f32_significand x = (if f32_exponent x = 0 then f32_fraction x else 2 ^ 23 + f32_fraction x)"

definition f32_value :: "nat \<Rightarrow> f32_bits \<Rightarrow> int" where
  \<comment> \<open>the signed value in units of \<open>2 ^ (scale - 149)\<close>, for a scale not above the number's\<close>
  "f32_value scale x =
     (let m = int (f32_significand x * 2 ^ (f32_scale x - scale)) in if f32_negative x then - m else m)"

definition f32_round :: "bool \<Rightarrow> nat \<Rightarrow> nat \<Rightarrow> int \<Rightarrow> f32_bits" where
  \<comment> \<open>the number nearest to \<open>num / den * 2 ^ (scale - 149)\<close>, as \<open>f64_round\<close>\<close>
  "f32_round negative num den scale =
     (let k = max (scale + int (bit_length (num div den)) - 24) 0;
          m = (if scale \<le> k then round_half_even num (den * 2 ^ nat (k - scale))
               else round_half_even (num * 2 ^ nat (scale - k)) den);
          m = (if num = 0 then 0 else min (nat k * 2 ^ 23 + m) (255 * 2 ^ 23))
      in word_of_nat (if negative then 2 ^ 31 + m else m))"

section \<open>Arithmetic\<close>

definition F32_NAN :: f32_bits where "F32_NAN = 0x7FC00000"

definition f32_infinity :: "bool \<Rightarrow> f32_bits" where
  "f32_infinity negative = (if negative then 0xFF800000 else 0x7F800000)"

definition f32_of_nat :: "nat \<Rightarrow> f32_bits" where
  \<comment> \<open>\<open>x as f32\<close> of an unsigned integer\<close>
  "f32_of_nat n = f32_round False n 1 149"

definition f32_neg :: "f32_bits \<Rightarrow> f32_bits" where
  "f32_neg x = x XOR push_bit 31 1"

definition f32_add :: "f32_bits \<Rightarrow> f32_bits \<Rightarrow> f32_bits" where
  "f32_add x y =
     (if f32_nan x \<or> f32_nan y then F32_NAN
      else if f32_inf x \<and> f32_inf y \<and> x \<noteq> y then F32_NAN
      else if f32_inf x then x
      else if f32_inf y then y
      else let scale = min (f32_scale x) (f32_scale y); v = f32_value scale x + f32_value scale y in
        if v = 0 then f32_round (f32_negative x \<and> f32_negative y) 0 1 0
        else f32_round (v < 0) (nat \<bar>v\<bar>) 1 (int scale))"

definition f32_sub :: "f32_bits \<Rightarrow> f32_bits \<Rightarrow> f32_bits" where
  "f32_sub x y = (if f32_nan y then F32_NAN else f32_add x (f32_neg y))"

definition f32_mul :: "f32_bits \<Rightarrow> f32_bits \<Rightarrow> f32_bits" where
  "f32_mul x y =
     (let negative = (f32_negative x \<noteq> f32_negative y) in
      if f32_nan x \<or> f32_nan y then F32_NAN
      else if f32_inf x \<or> f32_inf y
        then (if f32_significand x = 0 \<or> f32_significand y = 0 then F32_NAN else f32_infinity negative)
      else f32_round negative (f32_significand x * f32_significand y) 1 (int (f32_scale x + f32_scale y) - 149))"

definition f32_div :: "f32_bits \<Rightarrow> f32_bits \<Rightarrow> f32_bits" where
  \<comment> \<open>the dividend is scaled up so that the quotient of non-zero significands is not 0\<close>
  "f32_div x y =
     (let negative = (f32_negative x \<noteq> f32_negative y) in
      if f32_nan x \<or> f32_nan y \<or> (f32_inf x \<and> f32_inf y) then F32_NAN
      else if f32_inf x then f32_infinity negative
      else if f32_inf y then f32_round negative 0 1 0
      else if f32_significand y = 0 then (if f32_significand x = 0 then F32_NAN else f32_infinity negative)
      else f32_round negative (f32_significand x * 2 ^ 32) (f32_significand y)
             (int (f32_scale x) - int (f32_scale y) + 149 - 32))"

definition next_digit :: "nat \<Rightarrow> nat \<Rightarrow> nat" where
  "next_digit n r = (if (r + 1) ^ 2 \<le> n then r + 1 else r)"

fun floor_sqrt :: "nat \<Rightarrow> nat" where
  "floor_sqrt n = (if n = 0 then 0 else next_digit n (2 * floor_sqrt (n div 4)))"

declare floor_sqrt.simps [simp del]

definition f32_rounded_root :: "nat \<Rightarrow> nat \<Rightarrow> int \<Rightarrow> f32_bits" where
  \<comment> \<open>the root of \<open>n * 2 ^ e\<close> (\<open>e\<close> even) from the integer root of \<open>n\<close>, with one further bit that tells whether it is exact\<close>
  "f32_rounded_root n r e = f32_round False (2 * r + (if r ^ 2 = n then 0 else 1)) 1 (e div 2 + 149 - 1)"

definition f32_root :: "nat \<Rightarrow> int \<Rightarrow> f32_bits" where
  "f32_root n e = f32_rounded_root n (floor_sqrt n) e"

definition f32_sqrt :: "f32_bits \<Rightarrow> f32_bits" where
  \<comment> \<open>the significand is scaled up so that its root has more digits than the result\<close>
  "f32_sqrt x =
     (if f32_nan x \<or> (f32_negative x \<and> f32_significand x \<noteq> 0) then F32_NAN
      else if f32_inf x \<or> f32_significand x = 0 then x
      else if odd (f32_scale x) then f32_root (f32_significand x * 2 ^ 64) (int (f32_scale x) - 149 - 64)
      else f32_root (f32_significand x * 2 ^ 65) (int (f32_scale x) - 149 - 65))"

definition f32_less :: "f32_bits \<Rightarrow> f32_bits \<Rightarrow> bool" where
  "f32_less x y \<longleftrightarrow> \<not> f32_nan x \<and> \<not> f32_nan y
     \<and> (let scale = min (f32_scale x) (f32_scale y) in f32_value scale x < f32_value scale y)"

definition f32_le :: "f32_bits \<Rightarrow> f32_bits \<Rightarrow> bool" where
  "f32_le x y \<longleftrightarrow> \<not> f32_nan x \<and> \<not> f32_nan y \<and> \<not> f32_less y x"

definition f32_max :: "f32_bits \<Rightarrow> f32_bits \<Rightarrow> f32_bits" where
  "f32_max x y = (if f32_nan x \<or> f32_less x y then y else x)"

definition f32_min :: "f32_bits \<Rightarrow> f32_bits \<Rightarrow> f32_bits" where
  "f32_min x y = (if f32_nan x \<or> f32_less y x then y else x)"

definition f32_clamp :: "f32_bits \<Rightarrow> f32_bits \<Rightarrow> f32_bits \<Rightarrow> f32_bits" where
  \<comment> \<open>\<open>x.clamp(low, high)\<close>\<close>
  "f32_clamp x low high = (if f32_less x low then low else if f32_less high x then high else x)"

section \<open>Conversions\<close>

definition f32_to_nat :: "f32_bits \<Rightarrow> nat" where
  \<comment> \<open>\<open>x as usize\<close>: truncating, saturating, NaN to 0\<close>
  "f32_to_nat x =
     (if f32_nan x \<or> f32_negative x then 0
      else if f32_exponent x \<ge> 127 + 64 then 2 ^ 64 - 1
      else if f32_scale x \<ge> 149 then f32_significand x * 2 ^ (f32_scale x - 149)
      else f32_significand x div 2 ^ (149 - f32_scale x))"

definition f32_floor :: "f32_bits \<Rightarrow> int" where
  \<comment> \<open>\<open>x.floor() as i64\<close>: saturating, NaN to 0\<close>
  "f32_floor x =
     (if f32_nan x then 0
      else if f32_exponent x \<ge> 127 + 63 then (if f32_negative x then - (2 ^ 63) else 2 ^ 63 - 1)
      else if f32_scale x \<ge> 149 then f32_value 149 x
      else f32_value (f32_scale x) x div 2 ^ (149 - f32_scale x))"

definition f64_of_f32 :: "f32_bits \<Rightarrow> f64_bits" where
  "f64_of_f32 x =
     (if f32_nan x then F64_NAN
      else if f32_inf x then f64_infinity (f32_negative x)
      else f64_round (f32_negative x) (f32_significand x) 1 (int (f32_scale x) + (1074 - 149)))"

definition f32_of_f64 :: "f64_bits \<Rightarrow> f32_bits" where
  \<comment> \<open>\<open>x as f32\<close>\<close>
  "f32_of_f64 x =
     (if f64_nan x then F32_NAN
      else if f64_inf x then f32_infinity (f64_negative x)
      else f32_round (f64_negative x) (f64_significand x) 1 (int (f64_scale x) - (1074 - 149)))"

section \<open>Evaluation\<close>

named_theorems f32_eval \<open>evaluation of an operation on bit patterns\<close>

lemmas f32_operations [f32_eval] = f32_of_nat_def f32_neg_def f32_add_def f32_sub_def f32_mul_def f32_div_def
  f32_sqrt_def floor_sqrt.simps next_digit_def f32_root_def f32_rounded_root_def f32_less_def f32_le_def f32_max_def f32_min_def f32_clamp_def f32_to_nat_def f32_floor_def
  f64_of_f32_def f32_of_f64_def f32_round_def round_half_even_def bit_length.simps short_length.simps f32_value_def
  f32_negative_def f32_nan_def f32_inf_def f32_significand_def f32_scale_def f32_exponent_def f32_fraction_def
  F32_NAN_def Let_def

lemma f32_integer_examples:
  "f32_of_nat 1 = 0x3F800000" "f32_of_nat 0 = 0" "f32_of_nat 32 = 0x42000000" "f32_of_nat 16777217 = 0x4B800000"
  "f32_to_nat 0x42000000 = 32" "f32_to_nat 0x3F7FFFFF = 0" "f32_floor 0xBF000000 = - 1" "f32_floor 0x40200000 = 2"
  by (simp_all add: f32_eval)

lemma f32_arithmetic_examples:
  "f32_add 0x3DCCCCCD 0x3E4CCCCD = 0x3E99999A" "f32_div 0x3F800000 0x40400000 = 0x3EAAAAAB"
  "f32_mul 0x40400000 0x40A00000 = 0x41700000" "f32_sub 0x40400000 0x40A00000 = 0xC0000000"
  "f32_clamp 0x40400000 0 0x3F800000 = 0x3F800000" "f32_less 0xC0000000 0" "\<not> f32_less 0 0x80000000"
  by (simp_all add: f32_eval)

lemma f32_sqrt_examples:
  "f32_sqrt 0x40000000 = 0x3FB504F3" "f32_sqrt 0x40800000 = 0x40000000" "f32_sqrt 0x40400000 = 0x3FDDB3D7"
  by (simp_all add: f32_eval)

lemma f32_conversion_examples:
  "f64_of_f32 0x3F800000 = 0x3FF0000000000000" "f64_of_f32 1 = 0x36A0000000000000"
  "f32_of_f64 0x3FF0000000000000 = 0x3F800000" "f32_of_f64 0x3FB999999999999A = 0x3DCCCCCD"
  "f32_of_f64 0x36A0000000000000 = 1" "f32_of_f64 0x47F0000000000000 = 0x7F800000"
  by (simp_all add: f32_eval f64_eval f32_infinity_def f64_infinity_def)

end
