(* ===== verification/Theme.thy ===== *)
theory Theme
  imports F32
begin

text \<open>
  The palette of the desktop application (\<open>desktop/src/theme.rs\<close>). The mode, a global flag in the code, is an argument.
\<close>

record color =
  red :: f32_bits
  green :: f32_bits
  blue :: f32_bits
  alpha :: f32_bits

definition F32_1 :: f32_bits where "F32_1 = 0x3F800000"

definition rgb8 :: "u8 \<Rightarrow> u8 \<Rightarrow> u8 \<Rightarrow> color" where
  "rgb8 r g b = \<lparr>red = f32_div (f32_of_nat (unat r)) (f32_of_nat 255), green = f32_div (f32_of_nat (unat g)) (f32_of_nat 255),
     blue = f32_div (f32_of_nat (unat b)) (f32_of_nat 255), alpha = F32_1\<rparr>"

definition SKY_BLUE :: color where "SKY_BLUE = rgb8 0x03 0xAD 0xF0"
definition DEEP_BLUE :: color where "DEEP_BLUE = rgb8 0x01 0x6F 0xAD"
definition SIGNAL_RED :: color where "SIGNAL_RED = rgb8 0xE6 0x17 0x37"
definition AMBER :: color where "AMBER = rgb8 0xFE 0xD0 0x37"
definition BLOSSOM_PINK :: color where "BLOSSOM_PINK = rgb8 0xF8 0xAA 0xC0"
definition TEAL_GREEN :: color where "TEAL_GREEN = rgb8 0x09 0x84 0x76"
definition INK :: color where "INK = rgb8 0x1C 0x2B 0x36"

definition BLACK :: color where
  \<comment> \<open>\<open>Color::BLACK\<close> and \<open>Color::WHITE\<close> of iced\<close>
  "BLACK = \<lparr>red = 0, green = 0, blue = 0, alpha = F32_1\<rparr>"

definition WHITE :: color where
  "WHITE = \<lparr>red = F32_1, green = F32_1, blue = F32_1, alpha = F32_1\<rparr>"

record ui_colors =
  background :: color
  panel :: color
  panel_highlight :: color
  border :: color
  text_color :: color
  label_color :: color
  link_color :: color
  gold_text :: color
  green_text :: color

definition LIGHT :: ui_colors where
  "LIGHT = \<lparr>background = rgb8 0xF0 0xF7 0xFC, panel = rgb8 0xFF 0xFF 0xFF, panel_highlight = rgb8 0xDD 0xEF 0xFA,
     border = rgb8 0xD4 0xE5 0xF0, text_color = INK, label_color = rgb8 0x5E 0x78 0x89, link_color = DEEP_BLUE,
     gold_text = rgb8 0xA8 0x7D 0x00, green_text = TEAL_GREEN\<rparr>"

definition DARK :: ui_colors where
  "DARK = \<lparr>background = rgb8 0x0B 0x14 0x1E, panel = rgb8 0x12 0x1E 0x2B, panel_highlight = rgb8 0x1C 0x2E 0x40,
     border = rgb8 0x21 0x34 0x4A, text_color = rgb8 0xE8 0xF2 0xFA, label_color = rgb8 0x8A 0xA2 0xB5,
     link_color = SKY_BLUE, gold_text = rgb8 0xFF 0xD7 0x5E, green_text = rgb8 0x2F 0xB5 0xA0\<rparr>"

definition ui :: "bool \<Rightarrow> ui_colors" where
  "ui dark = (if dark then DARK else LIGHT)"

definition on_color :: "color \<Rightarrow> color" where
  \<comment> \<open>the constants are the bits of 0.299, 0.587, 0.114 and 0.62\<close>
  "on_color fill =
     (let luminance = f32_add (f32_add (f32_mul 0x3E991687 (red fill)) (f32_mul 0x3F1645A2 (green fill)))
                        (f32_mul 0x3DE978D5 (blue fill))
      in if f32_less 0x3F1EB852 luminance then INK else WHITE)"

definition phase_color :: "string \<Rightarrow> color" where
  "phase_color phase =
     (if phase = ''complete'' then TEAL_GREEN
      else if phase = ''incomplete'' then AMBER
      else if phase = ''fatal'' \<or> phase = ''disconnected'' then SIGNAL_RED
      else SKY_BLUE)"

definition state_color :: "bool \<Rightarrow> string \<Rightarrow> color" where
  "state_color dark st =
     (if st = ''published'' then green_text (ui dark)
      else if st = ''failed'' then SIGNAL_RED
      else gold_text (ui dark))"

definition blend :: "f32_bits \<Rightarrow> f32_bits \<Rightarrow> f32_bits \<Rightarrow> f32_bits" where
  "blend t a b = f32_add a (f32_mul (f32_sub b a) t)"

definition mix :: "color \<Rightarrow> color \<Rightarrow> f32_bits \<Rightarrow> color" where
  \<comment> \<open>\<open>mix\<close> of \<open>desktop/src/charts.rs\<close>\<close>
  "mix from into amount =
     (let t = f32_clamp amount 0 F32_1
      in \<lparr>red = blend t (red from) (red into), green = blend t (green from) (green into),
          blue = blend t (blue from) (blue into), alpha = F32_1\<rparr>)"

lemma sky_blue_bits: "SKY_BLUE = \<lparr>red = 0x3C40C0C1, green = 0x3F2DADAE, blue = 0x3F70F0F1, alpha = F32_1\<rparr>"
  by (simp add: SKY_BLUE_def rgb8_def f32_eval)

lemma text_on_fills: "on_color SKY_BLUE = WHITE" "on_color WHITE = INK"
  by (simp_all add: on_color_def sky_blue_bits WHITE_def F32_1_def f32_eval)

end
