(* ===== verification/Format.thy ===== *)
theory Format
  imports F64 Cli
begin

text \<open>
  The rendering of counters, sizes and durations (\<open>desktop/src/format.rs\<close>) over the \<open>f64\<close> arithmetic of \<open>F64\<close>.
\<close>

section \<open>Fixed point and padding\<close>

definition f64_tenths :: "f64_bits \<Rightarrow> nat" where
  \<comment> \<open>ten times a finite magnitude, rounded to the nearest integer with ties to even\<close>
  "f64_tenths x =
     (if f64_scale x \<ge> 1074 then f64_significand x * 2 ^ (f64_scale x - 1074) * 10
      else round_half_even (f64_significand x * 10) (2 ^ (1074 - f64_scale x)))"

definition show_f64_1 :: "f64_bits \<Rightarrow> string" where
  \<comment> \<open>\<open>{:.1}\<close>\<close>
  "show_f64_1 x =
     (if f64_nan x then ''NaN''
      else (if f64_negative x then ''-'' else [])
        @ (if f64_inf x then ''inf''
           else show_nat (f64_tenths x div 10) @ ''.'' @ show_nat (f64_tenths x mod 10)))"

definition pad2 :: "nat \<Rightarrow> string" where
  \<comment> \<open>\<open>{:02}\<close>\<close>
  "pad2 n = (let s = show_nat n in replicate (2 - length s) CHR ''0'' @ s)"

definition f64_ge :: "f64_bits \<Rightarrow> f64_bits \<Rightarrow> bool" where
  "f64_ge x y \<longleftrightarrow> \<not> f64_nan x \<and> \<not> f64_nan y \<and> \<not> f64_less x y"

section \<open>Units\<close>

fun scale_down :: "f64_bits \<Rightarrow> nat \<Rightarrow> f64_bits \<Rightarrow> nat \<Rightarrow> f64_bits \<times> nat" where
  \<comment> \<open>the \<open>while\<close> loop of both functions, with the units that are left\<close>
  "scale_down base 0 scaled unit = (scaled, unit)"
| "scale_down base (Suc left) scaled unit =
     (if f64_ge scaled base then scale_down base left (f64_div scaled base) (unit + 1) else (scaled, unit))"

definition COUNT_UNITS :: "string list" where "COUNT_UNITS = ['''', ''K'', ''M'', ''B'', ''T'']"
definition BYTE_UNITS :: "string list" where "BYTE_UNITS = [''B'', ''KiB'', ''MiB'', ''GiB'', ''TiB'']"

definition human_count :: "u64 \<Rightarrow> string" where
  "human_count v =
     (case scale_down (f64_of_u64 1000) (length COUNT_UNITS - 1) (f64_of_u64 v) 0 of (scaled, unit) \<Rightarrow>
        if unit = 0 then show_nat (unat v) else show_f64_1 scaled @ COUNT_UNITS ! unit)"

definition human_bytes :: "u64 \<Rightarrow> string" where
  "human_bytes v =
     (case scale_down (f64_of_u64 1024) (length BYTE_UNITS - 1) (f64_of_u64 v) 0 of (scaled, unit) \<Rightarrow>
        show_f64_1 scaled @ '' '' @ BYTE_UNITS ! unit)"

section \<open>Durations\<close>

definition total_seconds :: "f64_bits \<Rightarrow> u64" where
  "total_seconds ms = f64_to_u64 (f64_div (f64_max ms F64_0) F64_1000)"

definition format_duration :: "f64_bits \<Rightarrow> string" where
  "format_duration ms =
     (let total = unat (total_seconds ms); hours = total div 3600; minutes = total mod 3600 div 60; seconds = total mod 60 in
      if hours > 0 then pad2 hours @ '':'' @ pad2 minutes @ '':'' @ pad2 seconds
      else pad2 minutes @ '':'' @ pad2 seconds)"

lemma format_examples:
  "human_count 950 = ''950''" "human_count 1500 = ''1.5K''" "human_bytes 2048 = ''2.0 KiB''"
  "format_duration (f64_of_u64 65000) = ''01:05''" "format_duration (f64_of_u64 3700000) = ''01:01:40''"
  by (simp_all add: f64_eval f64_ge_def human_count_def human_bytes_def COUNT_UNITS_def BYTE_UNITS_def
      show_f64_1_def f64_tenths_def show_nat.simps format_duration_def total_seconds_def pad2_def char_of_def bit_Suc_0_iff)

section \<open>Reading a duration back\<close>

fun split_colons :: "string \<Rightarrow> string list" where
  "split_colons [] = [[]]"
| "split_colons (c # s) =
     (if c = CHR '':'' then [] # split_colons s
      else case split_colons s of p # ps \<Rightarrow> (c # p) # ps | [] \<Rightarrow> [[c]])"

definition read_clock :: "string \<Rightarrow> nat" where
  "read_clock s = foldl (\<lambda>n p. n * 60 + decimal p) 0 (split_colons s)"

lemma pad2_digits: "list_all is_digit (pad2 n) \<and> decimal (pad2 n) = n"
proof -
  have "decimal (replicate k CHR ''0'' @ s) = decimal s" for k s
    by (induction k) (simp_all add: decimal_def)
  then show ?thesis using show_nat_digits [of n] by (auto simp: pad2_def Let_def list_all_iff is_digit_def)
qed

lemma length_pad2: "n < 100 \<Longrightarrow> length (pad2 n) = 2"
  using less_mult_imp_div_less [of n 10 10]
  by (cases "n < 10") (simp_all add: pad2_def show_nat.simps [of n] show_nat.simps [of "n div 10"] Let_def)

lemma split_digits: "list_all is_digit p \<Longrightarrow> split_colons p = [p]"
  by (induction p) (auto simp: is_digit_def)

lemma split_digits_colon: "list_all is_digit p \<Longrightarrow> split_colons (p @ CHR '':'' # s) = p # split_colons s"
  by (induction p) (auto simp: is_digit_def)

text \<open>
  A rendered duration reads back, as minutes and seconds or hours, minutes and seconds in base 60, to the whole seconds
  of the duration; both low parts have exactly two digits.
\<close>
lemma duration_reads_back:
  "read_clock (format_duration ms) = unat (total_seconds ms)
   \<and> list_all (\<lambda>p. length p = 2) (tl (split_colons (format_duration ms)))"
proof -
  define total where "total = unat (total_seconds ms)"
  let ?h = "total div 3600" and ?m = "total mod 3600 div 60" and ?s = "total mod 60"
  have parts: "(?h * 60 + ?m) * 60 + ?s = total" "?h = 0 \<Longrightarrow> ?m * 60 + ?s = total"
  proof -
    have "?s = total mod 3600 mod 60" by (simp add: mod_mod_cancel)
    then show "(?h * 60 + ?m) * 60 + ?s = total" "?h = 0 \<Longrightarrow> ?m * 60 + ?s = total"
      using div_mult_mod_eq [of total 3600] div_mult_mod_eq [of "total mod 3600" 60] by simp_all
  qed
  have small: "?m < 100" "?s < 100" by (simp_all add: less_mult_imp_div_less)
  have digits: "list_all is_digit (pad2 n)" "decimal (pad2 n) = n" for n using pad2_digits [of n] by simp_all
  show ?thesis
    using parts small unfolding format_duration_def Let_def total_def [symmetric]
    by (simp add: read_clock_def split_digits split_digits_colon digits length_pad2)
qed

end
