(* ===== verification/Anonymize.thy ===== *)
theory Anonymize
  imports Prelude "HOL-Library.Sublist"
begin

text \<open>
  The redaction of names for screenshots (\<open>desktop/src/anonymize.rs\<close>). Strings are their UTF-8 bytes; the
  loop of \<open>replace_ignore_ascii_case\<close> is a recursion on the position. The two environment variables are arguments.
\<close>

definition PLACEHOLDER :: string where "PLACEHOLDER = ''user''"

section \<open>The standard library\<close>

definition ascii_lower :: "u8 \<Rightarrow> u8" where
  \<comment> \<open>\<open>u8::to_ascii_lowercase\<close>\<close>
  "ascii_lower b = (if 0x41 \<le> b \<and> b \<le> 0x5A then b + 0x20 else b)"

definition same_ignoring_case :: "u8 list \<Rightarrow> u8 list \<Rightarrow> bool" where
  \<comment> \<open>\<open>eq_ignore_ascii_case\<close>\<close>
  "same_ignoring_case a b \<longleftrightarrow> map ascii_lower a = map ascii_lower b"

definition char_boundary :: "u8 list \<Rightarrow> nat \<Rightarrow> bool" where
  \<comment> \<open>\<open>str::is_char_boundary\<close>\<close>
  "char_boundary bs i \<longleftrightarrow> i = 0 \<or> i = length bs \<or> (i < length bs \<and> \<not> utf8_cont (bs ! i))"

definition char_length :: "u8 \<Rightarrow> nat" where
  \<comment> \<open>the length of the character that starts with this byte\<close>
  "char_length b = (if b < 0x80 then 1 else if b < 0xE0 then 2 else if b < 0xF0 then 3 else 4)"

section \<open>The terms to hide\<close>

definition last_segment :: "string \<Rightarrow> string" where
  \<comment> \<open>\<open>rsplit('/').next()\<close>\<close>
  "last_segment s = rev (takeWhile (\<lambda>c. c \<noteq> CHR ''/'') (rev s))"

fun add_terms :: "string list \<Rightarrow> string list \<Rightarrow> string list" where
  "add_terms terms [] = terms"
| "add_terms terms (candidate # rest) =
     add_terms
       (if 3 \<le> length candidate
           \<and> \<not> same_ignoring_case (as_bytes candidate) (as_bytes PLACEHOLDER)
           \<and> \<not> list_ex (\<lambda>needle. same_ignoring_case (as_bytes needle) (as_bytes candidate)) terms
        then terms @ [candidate] else terms) rest"

definition option_list :: "'a option \<Rightarrow> 'a list" where
  "option_list x = (case x of None \<Rightarrow> [] | Some a \<Rightarrow> [a])"

definition redactions :: "string option \<Rightarrow> string option \<Rightarrow> string list" where
  \<comment> \<open>from \<open>USER\<close> and \<open>HOME\<close>\<close>
  "redactions user home =
     sort_key (\<lambda>needle. - int (length needle))
       (add_terms [] (option_list user @ option_list (map_option last_segment home)))"

section \<open>Replacing\<close>

definition matches_at :: "u8 list \<Rightarrow> u8 list \<Rightarrow> nat \<Rightarrow> bool" where
  \<comment> \<open>the condition of the loop\<close>
  "matches_at hay needle position \<longleftrightarrow>
     position + length needle \<le> length hay
     \<and> char_boundary hay position \<and> char_boundary hay (position + length needle)
     \<and> same_ignoring_case (take (length needle) (drop position hay)) needle"

function replace_from :: "u8 list \<Rightarrow> u8 list \<Rightarrow> nat \<Rightarrow> u8 list" where
  \<comment> \<open>the loop from \<open>position\<close> on: what it still puts out\<close>
  "replace_from hay needle position =
     (if position \<ge> length hay then []
      else if needle \<noteq> [] \<and> matches_at hay needle position
      then as_bytes PLACEHOLDER @ replace_from hay needle (position + length needle)
      else
        take (char_length (hay ! position)) (drop position hay)
          @ replace_from hay needle (position + char_length (hay ! position)))"
  by pat_completeness auto
termination
  by (relation "measure (\<lambda>(hay, needle, position). length hay - position)")
    (auto simp: char_length_def simp flip: length_greater_0_conv)

declare replace_from.simps [simp del]

definition replace_ignore_ascii_case :: "string \<Rightarrow> string \<Rightarrow> string" where
  "replace_ignore_ascii_case hay needle =
     (if needle = [] \<or> length hay < length needle then hay
      else string_of_bytes (replace_from (as_bytes hay) (as_bytes needle) 0))"

fun redact :: "string \<Rightarrow> string list \<Rightarrow> string" where
  "redact hay [] = hay"
| "redact hay (needle # terms) = redact (replace_ignore_ascii_case hay needle) terms"

definition anonymized_name :: "bool \<Rightarrow> string list \<Rightarrow> string \<Rightarrow> string" where
  \<comment> \<open>\<open>name\<close> with the global flag and the terms\<close>
  "anonymized_name anonymized terms real = (if anonymized then redact real terms else real)"

lemma redact_examples:
  "redact ''/Users/Soham/SOHAMs-backup'' [''soham''] = ''/Users/user/users-backup''"
  "redactions (Some ''soham'') (Some ''/Users/soham'') = [''soham'']"
  by code_simp+

section \<open>Characters\<close>

declare utf8_valid.simps(2) [simp del]

lemma utf8_lead:
  "a < 0x80 \<Longrightarrow> utf8_valid (a # bs) = utf8_valid bs"
  "\<not> a < 0x80 \<Longrightarrow> 0xC2 \<le> a \<and> a \<le> 0xDF \<Longrightarrow>
     utf8_valid (a # bs) = (case bs of b # r \<Rightarrow> utf8_cont b \<and> utf8_valid r | _ \<Rightarrow> False)"
  "\<not> a < 0x80 \<Longrightarrow> \<not> (0xC2 \<le> a \<and> a \<le> 0xDF) \<Longrightarrow> 0xE0 \<le> a \<and> a \<le> 0xEF \<Longrightarrow>
     utf8_valid (a # bs) = (case bs of b # c # r \<Rightarrow>
           utf8_cont b \<and> utf8_cont c \<and> (a = 0xE0 \<longrightarrow> 0xA0 \<le> b) \<and> (a = 0xED \<longrightarrow> b \<le> 0x9F) \<and> utf8_valid r
         | _ \<Rightarrow> False)"
  "\<not> a < 0x80 \<Longrightarrow> \<not> (0xC2 \<le> a \<and> a \<le> 0xDF) \<Longrightarrow> \<not> (0xE0 \<le> a \<and> a \<le> 0xEF) \<Longrightarrow> 0xF0 \<le> a \<and> a \<le> 0xF4 \<Longrightarrow>
     utf8_valid (a # bs) = (case bs of b # c # d # r \<Rightarrow>
           utf8_cont b \<and> utf8_cont c \<and> utf8_cont d \<and> (a = 0xF0 \<longrightarrow> 0x90 \<le> b) \<and> (a = 0xF4 \<longrightarrow> b \<le> 0x8F)
           \<and> utf8_valid r
         | _ \<Rightarrow> False)"
  by (simp_all only: utf8_valid.simps if_True if_False simp_thms)

lemma utf8_first:
  \<comment> \<open>a character, and what follows it\<close>
  assumes "utf8_valid (a # bs)"
  obtains k r where "bs = k @ r" "length k + 1 = char_length a" "\<not> utf8_cont a" "list_all utf8_cont k" "utf8_valid r"
    "\<forall>s. utf8_valid (a # k @ s) = utf8_valid s"
proof -
  consider (1) "a < 0x80" | (2) "\<not> a < 0x80" "0xC2 \<le> a \<and> a \<le> 0xDF"
    | (3) "\<not> a < 0x80" "\<not> (0xC2 \<le> a \<and> a \<le> 0xDF)" "0xE0 \<le> a \<and> a \<le> 0xEF"
    | (4) "\<not> a < 0x80" "\<not> (0xC2 \<le> a \<and> a \<le> 0xDF)" "\<not> (0xE0 \<le> a \<and> a \<le> 0xEF)" "0xF0 \<le> a \<and> a \<le> 0xF4"
    using assms by (auto simp: utf8_valid.simps split: if_splits)
  then show thesis
  proof cases
    case 1
    then show thesis using assms
      by (intro that [of "[]" bs]) (simp_all add: utf8_lead char_length_def utf8_cont_def word_less_nat_alt word_le_nat_alt)
  next
    case 2
    then have a: "char_length a = 2" "\<not> utf8_cont a"
      by (simp_all add: char_length_def utf8_cont_def word_less_nat_alt word_le_nat_alt)
    from assms obtain b r where "bs = b # r" "utf8_cont b" "utf8_valid r"
      by (cases bs) (simp_all add: utf8_lead(2) [OF 2])
    then show thesis using a by (intro that [of "[b]" r]) (simp_all add: utf8_lead(2) [OF 2])
  next
    case 3
    then have a: "char_length a = 3" "\<not> utf8_cont a"
      by (simp_all add: char_length_def utf8_cont_def word_less_nat_alt word_le_nat_alt)
    from assms obtain b c r where "bs = b # c # r" "utf8_cont b" "utf8_cont c" "utf8_valid r"
      "a = 0xE0 \<longrightarrow> 0xA0 \<le> b" "a = 0xED \<longrightarrow> b \<le> 0x9F"
      unfolding utf8_lead(3) [OF 3] by (auto split: list.splits)
    then show thesis using a by (intro that [of "[b, c]" r]) (simp_all add: utf8_lead(3) [OF 3])
  next
    case 4
    then have a: "char_length a = 4" "\<not> utf8_cont a"
      by (simp_all add: char_length_def utf8_cont_def word_less_nat_alt word_le_nat_alt)
    from assms obtain b c d r where "bs = b # c # d # r" "utf8_cont b" "utf8_cont c" "utf8_cont d" "utf8_valid r"
      "a = 0xF0 \<longrightarrow> 0x90 \<le> b" "a = 0xF4 \<longrightarrow> b \<le> 0x8F"
      unfolding utf8_lead(4) [OF 4] by (auto split: list.splits)
    then show thesis using a by (intro that [of "[b, c, d]" r]) (simp_all add: utf8_lead(4) [OF 4])
  qed
qed

lemma utf8_split:
  assumes "utf8_valid (a # bs)"
  shows "\<not> utf8_cont a" "char_length a \<le> length (a # bs)"
    "utf8_valid (take (char_length a) (a # bs))" "utf8_valid (drop (char_length a) (a # bs))"
    "list_all utf8_cont (take (char_length a - 1) bs)"
proof -
  from assms obtain k r where k: "bs = k @ r" "length k + 1 = char_length a" "\<not> utf8_cont a" "list_all utf8_cont k"
    "utf8_valid r" "\<forall>s. utf8_valid (a # k @ s) = utf8_valid s" by (rule utf8_first)
  have n: "char_length a = Suc (length k)" using k(2) by simp
  show "\<not> utf8_cont a" "char_length a \<le> length (a # bs)"
    "utf8_valid (take (char_length a) (a # bs))" "utf8_valid (drop (char_length a) (a # bs))"
    "list_all utf8_cont (take (char_length a - 1) bs)"
    using k k(6) [rule_format, of "[]"] by (simp_all add: n)
qed

lemma char_length_pos [simp]: "0 < char_length b"
  by (simp add: char_length_def)

lemma utf8_append: "utf8_valid a \<Longrightarrow> utf8_valid b \<Longrightarrow> utf8_valid (a @ b)"
proof (induction a rule: length_induct)
  case (1 a)
  show ?case
  proof (cases a)
    case (Cons x bs)
    from 1(2) [unfolded Cons] obtain k r where k: "bs = k @ r" "utf8_valid r"
      "\<forall>s. utf8_valid (x # k @ s) = utf8_valid s" by (rule utf8_first)
    have "utf8_valid (r @ b)" using 1(1) [rule_format, of r] k 1(3) Cons by simp
    then show ?thesis using k(3) [rule_format, of "r @ b"] Cons k(1) by simp
  qed (use 1 in simp)
qed

lemma utf8_drop:
  "utf8_valid bs \<Longrightarrow> char_boundary bs i \<Longrightarrow> utf8_valid (drop i bs)"
proof (induction bs arbitrary: i rule: length_induct)
  case (1 bs)
  show ?case
  proof (cases "bs = [] \<or> i = 0")
    case False
    then obtain a r where bs: "bs = a # r" and i: "0 < i" by (cases bs) auto
    note sp = utf8_split [OF 1(2) [unfolded bs]]
    show ?thesis
    proof (cases "i < char_length a")
      case True
      then have "i - 1 < length (take (char_length a - 1) r)" using i sp(2) bs by simp
      then have "utf8_cont (take (char_length a - 1) r ! (i - 1))" using sp(5) by (simp add: list_all_length)
      then have "utf8_cont (bs ! i)" using i True bs by (simp add: nth_Cons')
      then show ?thesis using 1(3) i True sp(2) bs by (auto simp: char_boundary_def)
    next
      case False
      let ?k = "char_length a"
      have "char_boundary (drop ?k bs) (i - ?k)"
        using 1(3) False sp(2) bs by (auto simp: char_boundary_def)
      moreover have "length (drop ?k bs) < length bs" using bs by simp
      ultimately have "utf8_valid (drop (i - ?k) (drop ?k bs))" using 1(1) sp(4) bs by blast
      then show ?thesis using False by simp
    qed
  qed (use 1 in auto)
qed

section \<open>What a replacement does\<close>

datatype segment = Kept "u8 list" | Hidden "u8 list"

fun source_bytes :: "segment \<Rightarrow> u8 list" where
  "source_bytes (Kept bs) = bs"
| "source_bytes (Hidden bs) = bs"

fun shown_bytes :: "segment \<Rightarrow> u8 list" where
  "shown_bytes (Kept bs) = bs"
| "shown_bytes (Hidden bs) = as_bytes PLACEHOLDER"

fun covered :: "segment list \<Rightarrow> nat \<Rightarrow> bool" where
  \<comment> \<open>the byte \<open>i\<close> of the source is hidden\<close>
  "covered [] i = False"
| "covered (s # ss) i =
     (if i < length (source_bytes s) then (case s of Hidden _ \<Rightarrow> True | Kept _ \<Rightarrow> False)
      else covered ss (i - length (source_bytes s)))"

definition hides_term :: "u8 list \<Rightarrow> segment \<Rightarrow> bool" where
  "hides_term needle s \<longleftrightarrow> (case s of Hidden w \<Rightarrow> same_ignoring_case w needle | Kept w \<Rightarrow> True)"

definition explains :: "u8 list \<Rightarrow> u8 list \<Rightarrow> nat \<Rightarrow> u8 list \<Rightarrow> segment list \<Rightarrow> bool" where
  "explains hay needle position result segs \<longleftrightarrow>
     concat (map source_bytes segs) = drop position hay \<and> concat (map shown_bytes segs) = result
   \<and> list_all (hides_term needle) segs
   \<and> (\<forall>i \<ge> position. matches_at hay needle i \<longrightarrow> covered segs (i - position))"

lemma explains_Cons:
  assumes "explains hay needle (position + n) result segs" "source_bytes s = take n (drop position hay)"
    and "position + n \<le> length hay" "hides_term needle s"
    and "\<And>i. \<lbrakk>position \<le> i; i < position + n; matches_at hay needle i\<rbrakk> \<Longrightarrow> \<exists>w. s = Hidden w"
  shows "explains hay needle position (shown_bytes s @ result) (s # segs)"
proof -
  have "take n (drop position hay) @ drop (position + n) hay = drop position hay"
    by (metis append_take_drop_id drop_drop add.commute)
  moreover have "length (source_bytes s) = n" using assms(2,3) by simp
  ultimately show ?thesis
    using assms unfolding explains_def by (force simp: not_less)
qed

lemma inside_character:
  assumes "utf8_valid (drop position hay)" "position < length hay"
    and "position < i" "i < position + char_length (hay ! position)"
  shows "\<not> char_boundary hay i"
proof -
  obtain bs where d: "drop position hay = hay ! position # bs" "bs = drop (Suc position) hay"
    using assms(2) by (simp add: Cons_nth_drop_Suc)
  note sp = utf8_split [OF assms(1) [unfolded d(1)]]
  have n: "i - Suc position < length (take (char_length (hay ! position) - 1) bs)"
    using sp(2) assms(3,4) by simp
  then have "utf8_cont (take (char_length (hay ! position) - 1) bs ! (i - Suc position))"
    using sp(5) by (simp add: list_all_length)
  moreover have "i < length hay" using n d(2) assms(2,3) by auto
  ultimately have "utf8_cont (hay ! i) \<and> i < length hay" using n assms(3) d(2) by simp
  then show ?thesis using assms(3) by (simp add: char_boundary_def)
qed

lemma replace_explained:
  assumes "needle \<noteq> []"
  shows "\<lbrakk>utf8_valid (drop position hay); position \<le> length hay\<rbrakk> \<Longrightarrow>
    utf8_valid (replace_from hay needle position)
    \<and> (\<exists>segs. explains hay needle position (replace_from hay needle position) segs)"
proof (induction "length hay - position" arbitrary: position rule: less_induct)
  case less
  have placeholder: "utf8_valid (as_bytes PLACEHOLDER)" by code_simp
  show ?case
  proof (cases "position < length hay")
    case False
    then have "replace_from hay needle position = []" by (simp add: replace_from.simps [of hay needle position])
    moreover have "\<not> matches_at hay needle i" if "position \<le> i" for i
      using that False assms by (cases needle) (auto simp: matches_at_def)
    ultimately show ?thesis using False by (auto simp: explains_def intro!: exI [of _ "[]"])
  next
    case True note inside = True
    show ?thesis
    proof (cases "matches_at hay needle position")
      case True
      let ?next = "position + length needle"
      have r: "replace_from hay needle position = as_bytes PLACEHOLDER @ replace_from hay needle ?next"
        using inside True assms by (simp add: replace_from.simps [of hay needle position])
      have bound: "?next \<le> length hay" "char_boundary hay ?next" using True by (simp_all add: matches_at_def)
      have "char_boundary (drop position hay) (length needle)"
        using bound inside assms by (auto simp: char_boundary_def)
      from utf8_drop [OF less(2) this] have "utf8_valid (drop ?next hay)" by (simp add: add.commute)
      moreover have "length hay - ?next < length hay - position"
        by (rule diff_less_mono2) (use inside assms in simp_all)
      ultimately obtain segs
        where IH: "utf8_valid (replace_from hay needle ?next)" "explains hay needle ?next (replace_from hay needle ?next) segs"
        using less(1) bound(1) by blast
      let ?w = "take (length needle) (drop position hay)"
      have len: "length ?w = length needle" using bound(1) by simp
      have "hides_term needle (Hidden ?w)" using True by (simp add: hides_term_def matches_at_def)
      from explains_Cons [OF IH(2) _ bound(1) this]
      have "explains hay needle position (as_bytes PLACEHOLDER @ replace_from hay needle ?next) (Hidden ?w # segs)" by simp
      then show ?thesis using r utf8_append [OF placeholder IH(1)] by auto
    next
      case False
      let ?k = "char_length (hay ! position)" let ?next = "position + ?k"
      let ?c = "take ?k (drop position hay)"
      obtain bs where d: "drop position hay = hay ! position # bs" using Cons_nth_drop_Suc [OF inside, symmetric] by blast
      note sp = utf8_split [OF less(2) [unfolded d], folded d]
      have r: "replace_from hay needle position = ?c @ replace_from hay needle ?next"
        using inside False by (simp add: replace_from.simps [of hay needle position])
      have after: "?next \<le> length hay" using sp(2) inside by simp
      have "utf8_valid (drop ?next hay)" using sp(4) by (simp add: add.commute)
      moreover have "length hay - ?next < length hay - position"
        by (rule diff_less_mono2) (use inside in simp_all)
      ultimately obtain segs
        where IH: "utf8_valid (replace_from hay needle ?next)" "explains hay needle ?next (replace_from hay needle ?next) segs"
        using less(1) after by blast
      have len: "length ?c = ?k" using after by simp
      have none: "\<not> matches_at hay needle i" if "position \<le> i" "i < ?next" for i
        using that False inside_character [OF less(2) inside, of i] by (cases "i = position") (auto simp: matches_at_def)
      have "hides_term needle (Kept ?c)" by (simp add: hides_term_def)
      from explains_Cons [OF IH(2) _ after this] none
      have "explains hay needle position (?c @ replace_from hay needle ?next) (Kept ?c # segs)" by simp
      then show ?thesis using r utf8_append [OF sp(3) IH(1)] by auto
    qed
  qed
qed

text \<open>
  C35. Hiding a term in a string gives a well-formed string, which differs from the original only in that some of
  its pieces, each equal to the term up to ASCII case, are replaced by the placeholder; and every occurrence of the term in the
  original has its first byte in such a piece, so none is shown whole.
\<close>
theorem replacement_hides:
  assumes "rust_str hay" "needle \<noteq> []"
  shows "rust_str (replace_ignore_ascii_case hay needle)
    \<and> (\<exists>segs. explains (as_bytes hay) (as_bytes needle) 0 (as_bytes (replace_ignore_ascii_case hay needle)) segs)"
proof (cases "length hay < length needle")
  case True
  then have "explains (as_bytes hay) (as_bytes needle) 0 (as_bytes hay) [Kept (as_bytes hay)]"
    by (auto simp: explains_def hides_term_def matches_at_def)
  then show ?thesis using assms True by (auto simp: replace_ignore_ascii_case_def)
next
  case False
  have "as_bytes needle \<noteq> []" using assms(2) by (simp add: as_bytes_def)
  from replace_explained [OF this, of 0 "as_bytes hay"] show ?thesis
    using assms False by (simp add: replace_ignore_ascii_case_def rust_str_def)
qed

lemma replacement_hides_witness:
  "rust_str (replace_ignore_ascii_case ''/home/Ada/ada.txt'' ''ada'')
   \<and> (\<exists>segs. explains (as_bytes ''/home/Ada/ada.txt'') (as_bytes ''ada'') 0 (as_bytes ''/home/user/user.txt'') segs)"
proof -
  have "rust_str ''/home/Ada/ada.txt''" "''ada'' \<noteq> []" by code_simp simp
  moreover have "replace_ignore_ascii_case ''/home/Ada/ada.txt'' ''ada'' = ''/home/user/user.txt''" by code_simp
  ultimately show ?thesis using replacement_hides [of "''/home/Ada/ada.txt''" "''ada''"] by simp
qed

text \<open>
  The result can still contain the term: the end of a placeholder and what follows it may form it anew.
\<close>
lemma replacement_may_recreate:
  "replace_ignore_ascii_case ''rabab'' ''rab'' = ''userab''"
  "matches_at (as_bytes ''userab'') (as_bytes ''rab'') 3"
  by code_simp+

end
