(* ===== verification/Charts.thy ===== *)
theory Charts
  imports Theme Format Anonymize Desktop
begin

text \<open>
  The charts of the desktop application (\<open>desktop/src/charts.rs\<close>): layout, hit testing, the handling of mouse
  events and what the treemap and the histogram draw. The canvas library is not part of the repository: the cursor's position in a
  canvas and the containment of a point in a rectangle are arguments, an action and a drawing are values.
\<close>

section \<open>Geometry, text and events\<close>

record point =
  px :: f32_bits
  py :: f32_bits

record rectangle =
  rect_x :: f32_bits
  rect_y :: f32_bits
  rect_width :: f32_bits
  rect_height :: f32_bits

function characters :: "string \<Rightarrow> string list" where
  \<comment> \<open>\<open>str::chars\<close>, each as its UTF-8 bytes\<close>
  "characters [] = []"
| "characters (c # cs) =
     (let rest = char_length (byte_of_char c) - 1 in (c # take rest cs) # characters (drop rest cs))"
  by pat_completeness auto
termination by (relation "measure length") auto

definition ellipsis :: string where
  \<comment> \<open>U+2026\<close>
  "ellipsis = string_of_bytes [0xE2, 0x80, 0xA6]"

definition find_index :: "('a \<Rightarrow> bool) \<Rightarrow> 'a list \<Rightarrow> nat option" where
  \<comment> \<open>\<open>Iterator::position\<close>\<close>
  "find_index P xs = (let n = length (takeWhile (\<lambda>x. \<not> P x) xs) in if n < length xs then Some n else None)"

lemma find_index_Some: "find_index P xs = Some i \<Longrightarrow> i < length xs \<and> P (xs ! i) \<and> (\<forall>j < i. \<not> P (xs ! j))"
proof -
  assume f: "find_index P xs = Some i"
  then have i: "i = length (takeWhile (\<lambda>x. \<not> P x) xs)" "i < length xs" by (auto simp: find_index_def Let_def split: if_splits)
  have "P (xs ! i)" using nth_length_takeWhile [of "\<lambda>x. \<not> P x" xs] i by simp
  moreover have "\<not> P (xs ! j)" if "j < i" for j
    using that i nth_mem [of j "takeWhile (\<lambda>x. \<not> P x) xs"] by (auto simp: takeWhile_nth dest: set_takeWhileD)
  ultimately show ?thesis using i by simp
qed

definition slot :: "'a list \<Rightarrow> nat \<Rightarrow> 'a option" where
  \<comment> \<open>\<open>slice::get\<close>\<close>
  "slot xs i = (if i < length xs then Some (xs ! i) else None)"

datatype scroll = Lines f32_bits | Pixels f32_bits
  \<comment> \<open>the vertical component\<close>

datatype mouse_event = CursorMoved | LeftPressed | LeftReleased | WheelScrolled scroll | OtherEvent

datatype 'p action = RequestRedraw | RedrawCaptured | Publish "'p app_message"
  \<comment> \<open>\<open>Publish\<close> captures the event as well\<close>

datatype interaction = DefaultCursor | Pointer | Grabbing

record click_tracker =
  last_click :: "(nat \<times> nat) option"

definition click :: "nat \<Rightarrow> nat \<Rightarrow> click_tracker \<Rightarrow> bool \<times> click_tracker" where
  \<comment> \<open>at an instant in nanoseconds\<close>
  "click instant index t =
     (let double = (case last_click t of None \<Rightarrow> False
                    | Some (earlier, previous) \<Rightarrow> previous = index \<and> (instant - earlier) div 1000000 < 400)
      in (double, \<lparr>last_click = if double then None else Some (instant, index)\<rparr>))"

section \<open>The treemap\<close>

record treemap_cell =
  cell_id :: u32
  cell_label :: string
  cell_bytes :: u64
  cell_drill :: bool
  cell_muted :: bool

definition areas :: "treemap_cell list \<Rightarrow> f64_bits list" where
  "areas cells = map (\<lambda>c. f64_of_u64 (max (cell_bytes c) 1)) cells"

definition f64_le :: "f64_bits \<Rightarrow> f64_bits \<Rightarrow> bool" where
  "f64_le x y = f64_ge y x"

definition aspect :: "f64_bits \<Rightarrow> f64_bits \<Rightarrow> f64_bits \<Rightarrow> f64_bits \<Rightarrow> f64_bits" where
  \<comment> \<open>one turn of the fold of \<open>worst_aspect\<close>\<close>
  "aspect side_squared sum_squared worst area =
     (if f64_le area F64_0 then worst
      else f64_max worst (f64_max (f64_div (f64_mul side_squared area) sum_squared)
                                  (f64_div sum_squared (f64_mul side_squared area))))"

definition worst_aspect :: "f64_bits list \<Rightarrow> f64_bits \<Rightarrow> f64_bits \<Rightarrow> f64_bits" where
  "worst_aspect row row_sum side = foldl (aspect (f64_mul side side) (f64_mul row_sum row_sum)) F64_0 row"

fun grow_row :: "f64_bits \<Rightarrow> f64_bits list \<Rightarrow> f64_bits \<Rightarrow> f64_bits \<Rightarrow> f64_bits list \<Rightarrow> f64_bits list \<times> f64_bits \<times> f64_bits list" where
  \<comment> \<open>the inner \<open>while\<close> loop of \<open>squarify\<close>: the row, its sum, and the areas after it\<close>
  "grow_row side row row_sum worst [] = (row, row_sum, [])"
| "grow_row side row row_sum worst (area # rest) =
     (let candidate_sum = f64_add row_sum area;
          candidate_worst = worst_aspect (row @ [area]) candidate_sum side
      in if f64_less worst candidate_worst then (row, row_sum, area # rest)
         else grow_row side (row @ [area]) candidate_sum candidate_worst rest)"

fun lay_row :: "rectangle \<Rightarrow> bool \<Rightarrow> f64_bits \<Rightarrow> f32_bits \<Rightarrow> f64_bits \<Rightarrow> f32_bits \<Rightarrow> f64_bits list \<Rightarrow> rectangle list" where
  \<comment> \<open>the \<open>for\<close> loop of \<open>squarify\<close>\<close>
  "lay_row free vertical side thickness row_sum offset [] = []"
| "lay_row free vertical side thickness row_sum offset (area # row) =
     (let len = f32_min (f32_of_f64 (f64_mul (f64_div area row_sum) side)) (f32_sub (f32_of_f64 side) offset)
      in (if vertical
          then \<lparr>rect_x = rect_x free, rect_y = f32_add (rect_y free) offset, rect_width = thickness, rect_height = len\<rparr>
          else \<lparr>rect_x = f32_add (rect_x free) offset, rect_y = rect_y free, rect_width = len, rect_height = thickness\<rparr>)
         # lay_row free vertical side thickness row_sum (f32_add offset len) row)"

definition F32_EPSILON :: f32_bits where "F32_EPSILON = 0x34000000"

definition shrink :: "bool \<Rightarrow> f32_bits \<Rightarrow> rectangle \<Rightarrow> rectangle" where
  \<comment> \<open>what a finished row leaves free\<close>
  "shrink vertical thickness free =
     (if vertical
      then free\<lparr>rect_x := f32_add (rect_x free) thickness, rect_width := f32_max (f32_sub (rect_width free) thickness) 0\<rparr>
      else free\<lparr>rect_y := f32_add (rect_y free) thickness, rect_height := f32_max (f32_sub (rect_height free) thickness) 0\<rparr>)"

lemma grow_row_rest: "grow_row side row row_sum worst ys = (r, s, rest) \<Longrightarrow> r @ rest = row @ ys \<and> length row \<le> length r"
proof (induction side row row_sum worst ys rule: grow_row.induct)
  case (2 side row row_sum worst area rest')
  then show ?case by (fastforce simp: Let_def split: if_splits)
qed simp

function lay_rows :: "rectangle \<Rightarrow> f64_bits list \<Rightarrow> rectangle list" where
  \<comment> \<open>the outer \<open>while\<close> loop of \<open>squarify\<close>, with the areas from \<open>start\<close> on\<close>
  "lay_rows free [] = []"
| "lay_rows free (first # others) =
     (let side = f64_max (f64_of_f32 (f32_min (rect_width free) (rect_height free))) (f64_of_u64 1);
          (row, row_sum, rest) = grow_row side [first] first (worst_aspect [first] first side) others;
          vertical = f32_le (rect_height free) (rect_width free);
          thickness = f32_min (f32_of_f64 (f64_div row_sum side)) (if vertical then rect_width free else rect_height free)
      in lay_row free vertical side thickness row_sum 0 row
         @ lay_rows (shrink vertical thickness free)
             (if f32_le thickness F32_EPSILON then map (\<lambda>_. F64_0) rest else rest))"
  by pat_completeness auto
termination
  by (relation "measure (\<lambda>(free, ys). length ys)")
    (auto dest!: grow_row_rest [OF sym] dest: arg_cong [where f = length])

declare lay_rows.simps [simp del]

definition squarify :: "f64_bits list \<Rightarrow> f32_bits \<Rightarrow> f32_bits \<Rightarrow> rectangle list" where
  \<comment> \<open>the values and the size\<close>
  "squarify values width height =
     (let total_area = foldl f64_add F64_0 values in
      if f64_le total_area F64_0 \<or> values = [] \<or> f32_le width 0 \<or> f32_le height 0 then []
      else let scale = f64_div (f64_mul (f64_of_f32 width) (f64_of_f32 height)) total_area
        in lay_rows \<lparr>rect_x = 0, rect_y = 0, rect_width = width, rect_height = height\<rparr> (map (\<lambda>v. f64_mul v scale) values))"

record treemap =
  tm_cells :: "treemap_cell list"
  tm_palette :: "color list"

record treemap_state =
  tm_hovered :: "nat option"
  tm_clicks :: click_tracker

definition tile_at :: "(rectangle \<Rightarrow> point \<Rightarrow> bool) \<Rightarrow> treemap \<Rightarrow> f32_bits \<Rightarrow> f32_bits \<Rightarrow> point \<Rightarrow> nat option" where
  "tile_at within tm width height p = find_index (\<lambda>r. within r p) (squarify (areas (tm_cells tm)) width height)"

definition treemap_update ::
    "(rectangle \<Rightarrow> point \<Rightarrow> bool) \<Rightarrow> nat \<Rightarrow> treemap \<Rightarrow> f32_bits \<Rightarrow> f32_bits \<Rightarrow> point option \<Rightarrow> mouse_event \<Rightarrow> treemap_state
     \<Rightarrow> treemap_state \<times> 'p action option" where
  \<comment> \<open>\<open>within\<close> is \<open>Rectangle::contains\<close>; then the instant, the size of the canvas and the cursor's position in it\<close>
  "treemap_update within instant tm width height cursor event st =
     (case event of
        CursorMoved \<Rightarrow>
          let hovered = Option.bind cursor (tile_at within tm width height) in
          if hovered \<noteq> tm_hovered st then (st\<lparr>tm_hovered := hovered\<rparr>, Some RequestRedraw) else (st, None)
      | LeftPressed \<Rightarrow>
          (case tm_hovered st of
             None \<Rightarrow> (st, None)
           | Some index \<Rightarrow>
               (case slot (tm_cells tm) index of
                  None \<Rightarrow> (st, None)
                | Some cell \<Rightarrow>
                    let (double, clicks) = click instant index (tm_clicks st);
                        msg = (if double \<and> cell_drill cell then FocusDirectory (cell_id cell) else NodeSelected (cell_id cell))
                    in (st\<lparr>tm_clicks := clicks\<rparr>, Some (Publish msg))))
      | _ \<Rightarrow> (st, None))"

datatype drawing =
    FillRect f32_bits f32_bits f32_bits f32_bits color
  | FillText string f32_bits f32_bits color
  | RotatedText string f32_bits f32_bits f32_bits color
  | FillPath "point list" color
  | StrokePath "point list" color f32_bits
  | FillCircle point f32_bits color
  | StrokeCircle point f32_bits color f32_bits
  \<comment> \<open>position and size, content and position (and rotation), points (and width), centre and radius (and width); the size and
    the alignment of the font are not kept\<close>

definition scale_color :: "f32_bits \<Rightarrow> color \<Rightarrow> color" where
  \<comment> \<open>\<open>Color::from_rgb\<close> of the scaled channels\<close>
  "scale_color factor c =
     \<lparr>red = f32_mul (red c) factor, green = f32_mul (green c) factor, blue = f32_mul (blue c) factor, alpha = F32_1\<rparr>"

definition tile_label :: "string \<Rightarrow> nat \<Rightarrow> string" where
  \<comment> \<open>the label that fits into a number of characters\<close>
  "tile_label label budget =
     (if budget < length (characters label) then concat (take (budget - 1) (characters label)) @ ellipsis else label)"

definition draw_tile :: "bool \<Rightarrow> treemap \<Rightarrow> nat option \<Rightarrow> nat \<times> rectangle \<Rightarrow> drawing list option" where
  \<comment> \<open>one turn of the loop of \<open>draw\<close>; the constants are 0.45, 0.78, 0.94, 0.5, 7.5 and 0.8\<close>
  "draw_tile dark tm hovered ir =
     (case ir of (index, r) \<Rightarrow>
        Option.bind (slot (tm_cells tm) index) (\<lambda>cell.
        map_option (\<lambda>base.
          let fill = scale_color (if hovered = Some index then 0x3F47AE14 else 0x3F70A3D7) base;
              text_fill = on_color fill;
              two = f32_of_nat 2
          in FillRect (f32_add (rect_x r) F32_1) (f32_add (rect_y r) F32_1)
               (f32_max (f32_sub (rect_width r) two) 0x3F000000) (f32_max (f32_sub (rect_height r) two) 0x3F000000) fill
             # (if f32_less (f32_of_nat 70) (rect_width r) \<and> f32_less (f32_of_nat 30) (rect_height r)
                then [FillText (tile_label (cell_label cell) (f32_to_nat (f32_div (rect_width r) 0x40F00000)))
                        (f32_add (rect_x r) (f32_of_nat 6)) (f32_add (rect_y r) (f32_of_nat 5)) text_fill,
                      FillText (human_bytes (cell_bytes cell))
                        (f32_add (rect_x r) (f32_of_nat 6)) (f32_add (rect_y r) (f32_of_nat 18)) (text_fill\<lparr>alpha := 0x3F4CCCCD\<rparr>)]
                else []))
        (if cell_muted cell then Some (mix (label_color (ui dark)) (panel (ui dark)) 0x3EE66666)
         else if tm_palette tm = [] then None else Some (tm_palette tm ! (index mod length (tm_palette tm))))))"

fun gather :: "'a list option list \<Rightarrow> 'a list option" where
  "gather [] = Some []"
| "gather (x # xs) = Option.bind x (\<lambda>a. map_option ((@) a) (gather xs))"

definition draw_treemap :: "bool \<Rightarrow> treemap \<Rightarrow> f32_bits \<Rightarrow> f32_bits \<Rightarrow> treemap_state \<Rightarrow> drawing list option" where
  \<comment> \<open>an index out of range, or the remainder by an empty palette, panics\<close>
  "draw_treemap dark tm width height st =
     map_option (\<lambda>tiles. tiles @
       (case Option.bind (tm_hovered st) (slot (tm_cells tm)) of
          None \<Rightarrow> []
        | Some cell \<Rightarrow> [FillText (cell_label cell @ '' '' @ string_of_bytes [0xC2, 0xB7] @ '' '' @ human_bytes (cell_bytes cell))
            (f32_of_nat 8) (f32_sub height (f32_of_nat 18)) (text_color (ui dark))]))
     (gather (map (draw_tile dark tm (tm_hovered st)) (enumerate 0 (squarify (areas (tm_cells tm)) width height))))"

definition treemap_interaction :: "treemap_state \<Rightarrow> interaction" where
  "treemap_interaction st = (if tm_hovered st \<noteq> None then Pointer else DefaultCursor)"

section \<open>The sunburst\<close>

record sunburst_slice =
  slice_id :: "u32 option"
  slice_ring :: u8
  slice_start :: f32_bits
  slice_sweep :: f32_bits
  slice_color :: color
  slice_drill :: bool
  slice_label :: string
  slice_bytes :: u64

record sunburst =
  sb_slices :: "sunburst_slice list"
  sb_rings :: u8
  sb_center_label :: string
  sb_center_bytes :: u64
  sb_up :: "u32 option"

datatype sunburst_hit = Center | Slice nat

record sunburst_state =
  sb_hovered :: "sunburst_hit option"
  sb_clicks :: click_tracker

definition FRAC_PI_2 :: f32_bits where "FRAC_PI_2 = 0x3FC90FDB"
definition PI32 :: f32_bits where "PI32 = 0x40490FDB"
definition TAU :: f32_bits where "TAU = 0x40C90FDB"

definition sunburst_geometry :: "sunburst \<Rightarrow> rectangle \<Rightarrow> point \<times> f32_bits \<times> f32_bits" where
  \<comment> \<open>the constant is 0.28\<close>
  "sunburst_geometry sb bounds =
     (let two = f32_of_nat 2;
          center = \<lparr>px = f32_div (rect_width bounds) two, py = f32_div (rect_height bounds) two\<rparr>;
          radius = f32_max (f32_sub (f32_div (f32_min (rect_width bounds) (rect_height bounds)) two) (f32_of_nat 8)) (f32_of_nat 40);
          hole = f32_mul radius 0x3E8F5C29;
          thickness = f32_div (f32_sub radius hole) (f32_of_nat (unat (max (sb_rings sb) 1)))
      in (center, hole, thickness))"

definition sunburst_hit_at :: "(f32_bits \<Rightarrow> f32_bits \<Rightarrow> f32_bits) \<Rightarrow> sunburst \<Rightarrow> rectangle \<Rightarrow> point \<Rightarrow> sunburst_hit option" where
  \<comment> \<open>with \<open>f32::atan2\<close>\<close>
  "sunburst_hit_at atan2 sb bounds p =
     (let (center, hole, thickness) = sunburst_geometry sb bounds;
          dx = f32_sub (f32_sub (px p) (rect_x bounds)) (px center);
          dy = f32_sub (f32_sub (py p) (rect_y bounds)) (py center);
          distance = f32_sqrt (f32_add (f32_mul dx dx) (f32_mul dy dy))
      in if f32_less distance hole then Some Center
         else
           let ring = f32_floor (f32_div (f32_sub distance hole) thickness) + 1 in
           if ring < 1 \<or> int (unat (sb_rings sb)) < ring then None
           else
             let raw = atan2 dy dx;
                 angle = (if f32_less raw (f32_neg FRAC_PI_2) then f32_add raw TAU else raw)
             in map_option Slice
                  (find_index (\<lambda>s. int (unat (slice_ring s)) = ring \<and> f32_le (slice_start s) angle
                                 \<and> f32_less angle (f32_add (slice_start s) (slice_sweep s))) (sb_slices sb)))"

definition sunburst_update ::
    "(f32_bits \<Rightarrow> f32_bits \<Rightarrow> f32_bits) \<Rightarrow> nat \<Rightarrow> sunburst \<Rightarrow> rectangle \<Rightarrow> point option \<Rightarrow> mouse_event \<Rightarrow> sunburst_state
     \<Rightarrow> sunburst_state \<times> 'p action option" where
  "sunburst_update atan2 instant sb bounds cursor event st =
     (case event of
        CursorMoved \<Rightarrow>
          let hovered = Option.bind cursor (\<lambda>p. sunburst_hit_at atan2 sb bounds
                \<lparr>px = f32_add (px p) (rect_x bounds), py = f32_add (py p) (rect_y bounds)\<rparr>) in
          if hovered \<noteq> sb_hovered st then (st\<lparr>sb_hovered := hovered\<rparr>, Some RequestRedraw) else (st, None)
      | LeftPressed \<Rightarrow>
          (case sb_hovered st of
             None \<Rightarrow> (st, None)
           | Some Center \<Rightarrow> (st, map_option (\<lambda>up. Publish (FocusDirectory up)) (sb_up sb))
           | Some (Slice index) \<Rightarrow>
               (case Option.bind (slot (sb_slices sb) index) (\<lambda>s. map_option (Pair s) (slice_id s)) of
                  None \<Rightarrow> (st, None)
                | Some (s, i) \<Rightarrow>
                    let (double, clicks) = click instant index (sb_clicks st);
                        msg = (if double \<and> slice_drill s then FocusDirectory i else NodeSelected i)
                    in (st\<lparr>sb_clicks := clicks\<rparr>, Some (Publish msg))))
      | _ \<Rightarrow> (st, None))"

definition sunburst_interaction :: "sunburst \<Rightarrow> sunburst_state \<Rightarrow> interaction" where
  "sunburst_interaction sb st =
     (case sb_hovered st of
        Some (Slice _) \<Rightarrow> Pointer
      | Some Center \<Rightarrow> if sb_up sb \<noteq> None then Pointer else DefaultCursor
      | None \<Rightarrow> DefaultCursor)"

definition fit_label :: "string \<Rightarrow> nat \<Rightarrow> string" where
  "fit_label label budget =
     (if length (characters label) \<le> max budget 1 then label
      else concat (take (max budget 2 - 1) (characters label)) @ ellipsis)"

section \<open>The node graph\<close>

datatype label_side = LeftSide | RightSide

record graph_label =
  gl_name :: string
  gl_detail :: string
  gl_side :: label_side

record graph_node =
  gn_id :: u32
  gn_x :: f32_bits
  gn_y :: f32_bits
  gn_radius :: f32_bits
  gn_color :: color
  gn_alpha :: f32_bits
  gn_label :: "graph_label option"
  gn_bytes :: u64
  gn_navigates :: bool

record graph_edge =
  edge_points :: "(f32_bits \<times> f32_bits) list"

record node_graph =
  ng_nodes :: "graph_node list"
  ng_edges :: "graph_edge list"
  ng_hidden_children :: nat
  ng_focus :: u32

record node_graph_state =
  ng_hovered :: "nat option"
  ng_offset :: "f32_bits \<times> f32_bits"
  ng_zoom :: f32_bits
  ng_panning :: "point option"
  ng_last_focus :: "u32 option"

definition default_graph_state :: node_graph_state where
  "default_graph_state = \<lparr>ng_hovered = None, ng_offset = (0, 0), ng_zoom = F32_1, ng_panning = None, ng_last_focus = None\<rparr>"

definition point_position :: "node_graph_state \<Rightarrow> f32_bits \<Rightarrow> f32_bits \<Rightarrow> f32_bits \<times> f32_bits \<Rightarrow> point" where
  "point_position st width height p =
     \<lparr>px = f32_add (f32_add (f32_div width (f32_of_nat 2)) (f32_mul (fst p) (ng_zoom st))) (fst (ng_offset st)),
      py = f32_add (f32_add (f32_div height (f32_of_nat 2)) (f32_mul (snd p) (ng_zoom st))) (snd (ng_offset st))\<rparr>"

definition node_position :: "node_graph_state \<Rightarrow> f32_bits \<Rightarrow> f32_bits \<Rightarrow> graph_node \<Rightarrow> point" where
  "node_position st width height n =
     \<lparr>px = f32_add (f32_add (f32_div width (f32_of_nat 2)) (f32_mul (gn_x n) (ng_zoom st))) (fst (ng_offset st)),
      py = f32_add (f32_add (f32_div height (f32_of_nat 2)) (f32_mul (gn_y n) (ng_zoom st))) (snd (ng_offset st))\<rparr>"

definition node_hit :: "node_graph \<Rightarrow> node_graph_state \<Rightarrow> f32_bits \<Rightarrow> f32_bits \<Rightarrow> point \<Rightarrow> nat option" where
  "node_hit g st width height p =
     find_index (\<lambda>n.
       let here = node_position st width height n; dx = f32_sub (px p) (px here); dy = f32_sub (py p) (py here)
       in f32_le (f32_sqrt (f32_add (f32_mul dx dx) (f32_mul dy dy)))
            (f32_add (f32_max (f32_mul (gn_radius n) (ng_zoom st)) (f32_of_nat 9)) (f32_of_nat 3)))
     (ng_nodes g)"

definition recentre :: "node_graph \<Rightarrow> node_graph_state \<Rightarrow> node_graph_state" where
  \<comment> \<open>the reset at the start of \<open>update\<close>\<close>
  "recentre g st =
     (if ng_last_focus st \<noteq> Some (ng_focus g)
      then st\<lparr>ng_last_focus := Some (ng_focus g), ng_offset := (0, 0), ng_zoom := F32_1, ng_panning := None\<rparr> else st)"

definition zoom_by :: "scroll \<Rightarrow> f32_bits \<Rightarrow> f32_bits" where
  \<comment> \<open>the constants are 0.12, 0.4 and 3\<close>
  "zoom_by delta zoom =
     (let lines = (case delta of Lines y \<Rightarrow> y | Pixels y \<Rightarrow> f32_div y (f32_of_nat 40))
      in f32_clamp (f32_mul zoom (f32_add F32_1 (f32_mul lines 0x3DF5C28F))) 0x3ECCCCCD 0x40400000)"

definition graph_update ::
    "node_graph \<Rightarrow> f32_bits \<Rightarrow> f32_bits \<Rightarrow> point option \<Rightarrow> mouse_event \<Rightarrow> node_graph_state \<Rightarrow> node_graph_state \<times> 'p action option" where
  "graph_update g width height cursor event st0 =
     (let st = recentre g st0 in
      case event of
        CursorMoved \<Rightarrow>
          (case cursor of
             None \<Rightarrow> (st, None)
           | Some p \<Rightarrow>
               (case ng_panning st of
                  Some previous \<Rightarrow>
                    (st\<lparr>ng_offset := (f32_add (fst (ng_offset st)) (f32_sub (px p) (px previous)),
                                     f32_add (snd (ng_offset st)) (f32_sub (py p) (py previous))),
                        ng_panning := Some p\<rparr>, Some RedrawCaptured)
                | None \<Rightarrow>
                    let hovered = node_hit g st width height p in
                    if hovered \<noteq> ng_hovered st then (st\<lparr>ng_hovered := hovered\<rparr>, Some RequestRedraw) else (st, None)))
      | WheelScrolled delta \<Rightarrow>
          (case cursor of
             None \<Rightarrow> (st, None)
           | Some _ \<Rightarrow> (st\<lparr>ng_zoom := zoom_by delta (ng_zoom st)\<rparr>, Some RedrawCaptured))
      | LeftPressed \<Rightarrow>
          (case cursor of
             None \<Rightarrow> (st, None)
           | Some p \<Rightarrow>
               (case node_hit g st width height p of
                  Some index \<Rightarrow>
                    (st, map_option (\<lambda>n. Publish (if gn_navigates n \<and> gn_id n \<noteq> ng_focus g
                           then FocusDirectory (gn_id n) else NodeSelected (gn_id n))) (slot (ng_nodes g) index))
                | None \<Rightarrow> (st\<lparr>ng_panning := Some p\<rparr>, Some RedrawCaptured)))
      | LeftReleased \<Rightarrow> (st\<lparr>ng_panning := None\<rparr>, None)
      | OtherEvent \<Rightarrow> (st, None))"

definition graph_interaction :: "node_graph_state \<Rightarrow> interaction" where
  "graph_interaction st =
     (if ng_panning st \<noteq> None then Grabbing else if ng_hovered st \<noteq> None then Pointer else DefaultCursor)"

end
