(* ===== verification/View.thy ===== *)
theory View
  imports Charts "HOL-Library.List_Lexorder"
begin

text \<open>
  What the screen of a running scan shows (\<open>desktop/src/view.rs\<close>): the charts built from the view model, the
  breadcrumbs, the inspector, the diagnostics and the messages that the elements send. Layout and style of the
  widgets belong to the user interface library. The global mode and redaction settings are a record.
\<close>

record display =
  dark_mode :: bool
  hide_names :: bool
  hidden_terms :: "string list"

definition shown_name :: "display \<Rightarrow> string \<Rightarrow> string" where
  \<comment> \<open>\<open>anonymize::name\<close> and \<open>anonymize::path\<close>\<close>
  "shown_name D = anonymized_name (hide_names D) (hidden_terms D)"

definition LIST_LIMIT :: nat where "LIST_LIMIT = 100"

definition BRANCH_PALETTE :: "color list" where
  "BRANCH_PALETTE = [SKY_BLUE, TEAL_GREEN, AMBER, BLOSSOM_PINK, DEEP_BLUE]"

definition branch_color :: "nat \<Rightarrow> color" where
  "branch_color index = BRANCH_PALETTE ! (index mod length BRANCH_PALETTE)"

definition middle_dot :: string where
  \<comment> \<open>U+00B7 between spaces\<close>
  "middle_dot = '' '' @ string_of_bytes [0xC2, 0xB7] @ '' ''"

definition em_dash :: string where
  \<comment> \<open>U+2014 between spaces\<close>
  "em_dash = '' '' @ string_of_bytes [0xE2, 0x80, 0x94] @ '' ''"

definition show_u64 :: "u64 \<Rightarrow> string" where
  "show_u64 n = show_nat (unat n)"

definition fit_name :: "string \<Rightarrow> nat \<Rightarrow> string" where
  "fit_name name budget =
     (if length (characters name) \<le> budget then name
      else concat (take (budget - 1) (characters name)) @ ellipsis)"

definition partition_point :: "('a \<Rightarrow> bool) \<Rightarrow> 'a list \<Rightarrow> nat" where
  \<comment> \<open>of a partitioned slice\<close>
  "partition_point P xs = length (takeWhile P xs)"

definition insert_at :: "nat \<Rightarrow> 'a \<Rightarrow> 'a list \<Rightarrow> 'a list" where
  \<comment> \<open>\<open>Vec::insert\<close>\<close>
  "insert_at i x xs = take i xs @ x # drop i xs"

definition own_files_label :: "scan_model \<Rightarrow> string" where
  "own_files_label m = ''('' @ show_u64 (own_entries (tree m) (focus m)) @ '' files)''"

section \<open>The breadcrumbs\<close>

datatype crumb = Hidden u32 | Crumb u32 string bool | Slash
  \<comment> \<open>a button for the deepest hidden directory, for a directory (its name, and whether it is the current one), a separator\<close>

definition TAIL :: nat where "TAIL = 3"
definition NAME_BUDGET :: nat where "NAME_BUDGET = 24"

definition crumb_at :: "display \<Rightarrow> scan_model \<Rightarrow> (u32 \<times> string) list \<Rightarrow> nat \<Rightarrow> crumb list" where
  \<comment> \<open>one turn of the loop of \<open>viz_toolbar\<close>\<close>
  "crumb_at D m chain place =
     (let segments = length chain; collapsed = segments > TAIL + 2; i = fst (chain ! place); current = (place + 1 = segments) in
      if collapsed \<and> place > 0 \<and> place < segments - TAIL then []
      else (if collapsed \<and> place = segments - TAIL then [Hidden (fst (chain ! (place - 1))), Slash] else [])
        @ Crumb i (fit_name (shown_name D (display_name m i)) NAME_BUDGET) current
        # (if current then [] else [Slash]))"

definition breadcrumbs :: "display \<Rightarrow> scan_model \<Rightarrow> crumb list" where
  "breadcrumbs D m =
     (let chain = ancestors m (focus m) in concat (map (crumb_at D m chain) [0..<length chain]))"

definition viz_hint :: "tab \<Rightarrow> string" where
  "viz_hint t =
     (if t = GraphTab then ''Click a node to descend'' @ middle_dot @ ''drag to pan'' @ middle_dot @ ''scroll to zoom''
      else ''Click to select'' @ middle_dot @ ''double-click to drill in'')"

definition viz_toolbar :: "display \<Rightarrow> scan_model \<Rightarrow> crumb list \<times> string \<times> string" where
  "viz_toolbar D m = (breadcrumbs D m, human_bytes (subtree_bytes (tree m) (focus m)), viz_hint (active_tab m))"

fun crumb_message :: "crumb \<Rightarrow> 'p app_message option" where
  "crumb_message (Hidden i) = Some (FocusDirectory i)"
| "crumb_message (Crumb i _ _) = Some (FocusDirectory i)"
| "crumb_message Slash = None"

section \<open>The treemap\<close>

definition treemap_tiles :: "display \<Rightarrow> scan_model \<Rightarrow> treemap_cell list" where
  \<comment> \<open>the cells of \<open>treemap_canvas\<close>\<close>
  "treemap_tiles D m =
     (let t = tree m; f = focus m;
          cells = map (\<lambda>child. \<lparr>cell_id = child, cell_label = shown_name D (display_name m child),
                                cell_bytes = subtree_bytes t child, cell_drill = (children t child \<noteq> []), cell_muted = False\<rparr>)
                    (take LIST_LIMIT (children_by_size m f));
          own = own_bytes t f
      in if 0 < own
         then insert_at (partition_point (\<lambda>c. own \<le> cell_bytes c) cells)
                \<lparr>cell_id = f, cell_label = own_files_label m, cell_bytes = own, cell_drill = False, cell_muted = True\<rparr> cells
         else cells)"

definition viz_empty :: "scan_model \<Rightarrow> string \<times> string" where
  \<comment> \<open>the text, and the path that the button reveals\<close>
  "viz_empty m =
     (let own = own_bytes (tree m) (focus m) in
      (if 0 < own
       then ''No subdirectories'' @ em_dash @ human_bytes own @ '' across '' @ show_u64 (own_entries (tree m) (focus m))
              @ '' files stored directly here.''
       else ''No sized contents in this directory yet.'',
       full_path m (focus m)))"

datatype canvas = TreemapCanvas treemap | SunburstCanvas sunburst | GraphCanvas node_graph | EmptyCanvas string string

definition treemap_canvas :: "display \<Rightarrow> scan_model \<Rightarrow> canvas" where
  "treemap_canvas D m =
     (let cells = treemap_tiles D m in
      if cells = [] then case_prod EmptyCanvas (viz_empty m)
      else TreemapCanvas \<lparr>tm_cells = cells, tm_palette = BRANCH_PALETTE\<rparr>)"

section \<open>The sunburst\<close>

definition RINGS :: nat where "RINGS = 3"

definition MINIMUM_SWEEP :: f32_bits where
  \<comment> \<open>0.016\<close>
  "MINIMUM_SWEEP = 0x3C83126F"

definition filler :: "display \<Rightarrow> nat \<Rightarrow> f32_bits \<Rightarrow> f32_bits \<Rightarrow> sunburst_slice" where
  \<comment> \<open>the constant is 0.45\<close>
  "filler D ring from remainder =
     \<lparr>slice_id = None, slice_ring = word_of_nat ring, slice_start = from, slice_sweep = remainder,
      slice_color = mix (label_color (ui (dark_mode D))) (panel (ui (dark_mode D))) 0x3EE66666, slice_drill = False,
      slice_label = [], slice_bytes = 0\<rparr>"

definition child_slice :: "display \<Rightarrow> scan_model \<Rightarrow> u32 \<Rightarrow> nat \<Rightarrow> f32_bits \<Rightarrow> f32_bits \<Rightarrow> color \<Rightarrow> sunburst_slice" where
  \<comment> \<open>the constant is 0.18\<close>
  "child_slice D m child ring from share branch =
     \<lparr>slice_id = Some child, slice_ring = word_of_nat ring, slice_start = from, slice_sweep = share,
      slice_color = mix branch (panel (ui (dark_mode D))) (f32_mul 0x3E3851EC (f32_of_nat (ring - 1))),
      slice_drill = (children (tree m) child \<noteq> []), slice_label = shown_name D (directory_name m child),
      slice_bytes = subtree_bytes (tree m) child\<rparr>"

definition share_of :: "f32_bits \<Rightarrow> u64 \<Rightarrow> u64 \<Rightarrow> f32_bits" where
  "share_of sweep bytes of_bytes = f32_mul sweep (f32_div (f32_of_nat (unat bytes)) (f32_of_nat (unat of_bytes)))"

function subdivide :: "display \<Rightarrow> scan_model \<Rightarrow> sunburst_slice list \<Rightarrow> u32 \<Rightarrow> nat \<Rightarrow> f32_bits \<Rightarrow> f32_bits \<Rightarrow> color option \<Rightarrow> nat
    \<Rightarrow> sunburst_slice list"
  and subdivide_children :: "display \<Rightarrow> scan_model \<Rightarrow> u64 \<Rightarrow> nat \<Rightarrow> f32_bits \<Rightarrow> color option \<Rightarrow> nat
    \<Rightarrow> nat \<Rightarrow> u32 list \<Rightarrow> sunburst_slice list \<Rightarrow> f32_bits \<Rightarrow> sunburst_slice list \<times> f32_bits" where
  \<comment> \<open>\<open>subdivide_children\<close> is its loop, with the index and the cursor\<close>
  "subdivide D m slices i ring from sweep branch rings =
     (if rings < ring \<or> f32_less sweep MINIMUM_SWEEP \<or> 2000 < length slices then slices
      else
        let (slices, cursor) = subdivide_children D m (max (subtree_bytes (tree m) i) 1) ring sweep branch rings
              0 (children_by_size m i) slices from;
            remainder = f32_sub (f32_add from sweep) cursor
        in if f32_less 0x3B449BA6 remainder then slices @ [filler D ring cursor remainder] else slices)"
| "subdivide_children D m whole ring sweep branch rings index [] slices cursor = (slices, cursor)"
| "subdivide_children D m whole ring sweep branch rings index (child # rest) slices cursor =
     (let share = share_of sweep (subtree_bytes (tree m) child) whole in
      if f32_less share MINIMUM_SWEEP
      then subdivide_children D m whole ring sweep branch rings (index + 1) rest slices cursor
      else
        let color = (case branch of Some c \<Rightarrow> c | None \<Rightarrow> branch_color index);
            slices = slices @ [child_slice D m child ring cursor share color]
        in subdivide_children D m whole ring sweep branch rings (index + 1) rest
             (subdivide D m slices child (ring + 1) cursor share (Some color) rings) (f32_add cursor share))"
  by pat_completeness auto
termination
  by (relation "measures [case_sum (\<lambda>(D, m, slices, i, ring, from, sweep, branch, rings). if rings < ring then 0 else 2 * (rings + 1 - ring) + 2)
                            (\<lambda>(D, m, whole, ring, sweep, branch, rings, index, cs, slices, cursor). 2 * (rings + 1 - ring) + 1),
                          case_sum (\<lambda>_. 0) (\<lambda>(D, m, whole, ring, sweep, branch, rings, index, cs, slices, cursor). length cs)]")
    auto

declare subdivide.simps [simp del] subdivide_children.simps [simp del]

definition sunburst_slices :: "display \<Rightarrow> scan_model \<Rightarrow> sunburst_slice list" where
  "sunburst_slices D m = subdivide D m [] (focus m) 1 (f32_neg FRAC_PI_2) TAU None RINGS"

definition sunburst_canvas :: "display \<Rightarrow> scan_model \<Rightarrow> canvas" where
  "sunburst_canvas D m =
     (let slices = sunburst_slices D m in
      if slices = [] then case_prod EmptyCanvas (viz_empty m)
      else SunburstCanvas \<lparr>sb_slices = slices, sb_rings = word_of_nat RINGS, sb_center_label = shown_name D (display_name m (focus m)),
             sb_center_bytes = subtree_bytes (tree m) (focus m), sb_up = parent (tree m) (focus m)\<rparr>)"

end
