(* ===== verification/Outline.thy ===== *)
theory Outline
  imports View
begin

text \<open>
  The outline graph of \<open>desktop/src/view.rs\<close> (\<open>graph_canvas\<close>): the focus, two ancestors above it, a row for
  each child and below the first four children a row for each of their largest children.
\<close>

definition CHILD_LIMIT :: nat where "CHILD_LIMIT = 12"
definition PREVIEWED :: nat where "PREVIEWED = 4"
definition GRANDCHILDREN_EACH :: nat where "GRANDCHILDREN_EACH = 3"
definition CHILD_ROW :: f32_bits where "CHILD_ROW = f32_of_nat 32"
definition GRAND_ROW :: f32_bits where "GRAND_ROW = f32_of_nat 24"
definition CHILD_X :: f32_bits where "CHILD_X = f32_neg (f32_of_nat 60)"
definition GRAND_X :: f32_bits where "GRAND_X = f32_of_nat 150"
definition FOCUS_X :: f32_bits where "FOCUS_X = f32_neg (f32_of_nat 260)"
definition TRUNK_X :: f32_bits where "TRUNK_X = f32_neg (f32_of_nat 150)"

definition half :: "f32_bits \<Rightarrow> f32_bits" where
  "half x = f32_div x (f32_of_nat 2)"

section \<open>Rows\<close>

definition hidden_children :: "scan_model \<Rightarrow> nat" where
  "hidden_children m =
     length (children_by_size m (focus m)) + (if 0 < own_bytes (tree m) (focus m) then 1 else 0) - CHILD_LIMIT"

definition shown_rows :: "scan_model \<Rightarrow> (u64 \<times> u32 option) list" where
  \<comment> \<open>\<open>None\<close> is the row of the focus's own files\<close>
  "shown_rows m =
     (let own = own_bytes (tree m) (focus m);
          rows = map (\<lambda>child. (subtree_bytes (tree m) child, Some child)) (take CHILD_LIMIT (children_by_size m (focus m)))
      in if 0 < own then take CHILD_LIMIT (insert_at (partition_point (\<lambda>r. own \<le> fst r) rows) (own, None) rows) else rows)"

record band =
  band_child :: "u32 option"
  band_bytes :: u64
  band_y :: f32_bits
  band_grandchildren :: "(u32 \<times> f32_bits) list"

fun grand_rows :: "f32_bits \<Rightarrow> u32 list \<Rightarrow> (u32 \<times> f32_bits) list \<times> f32_bits" where
  "grand_rows cursor [] = ([], cursor)"
| "grand_rows cursor (g # gs) =
     (let (rows, end_cursor) = grand_rows (f32_add cursor GRAND_ROW) gs
      in ((g, f32_add cursor (half GRAND_ROW)) # rows, end_cursor))"

definition previewed :: "scan_model \<Rightarrow> nat \<Rightarrow> u32 option \<Rightarrow> u32 list" where
  \<comment> \<open>the grandchildren that the loop lists\<close>
  "previewed m place row =
     (case row of Some child \<Rightarrow> if place < PREVIEWED then take GRANDCHILDREN_EACH (children_by_size m child) else [] | None \<Rightarrow> [])"

fun bands_from :: "scan_model \<Rightarrow> nat \<Rightarrow> f32_bits \<Rightarrow> (u64 \<times> u32 option) list \<Rightarrow> band list \<times> f32_bits" where
  \<comment> \<open>the first pass\<close>
  "bands_from m place cursor [] = ([], cursor)"
| "bands_from m place cursor ((bytes, row) # rest) =
     (let child_y = f32_add cursor (half CHILD_ROW);
          (grandchildren, cursor) = grand_rows (f32_add cursor CHILD_ROW) (previewed m place row);
          (bands, end_cursor) = bands_from m (place + 1) cursor rest
      in (\<lparr>band_child = row, band_bytes = bytes, band_y = child_y, band_grandchildren = grandchildren\<rparr> # bands, end_cursor))"

section \<open>Nodes and edges\<close>

definition nearest_ancestors :: "scan_model \<Rightarrow> u32 list" where
  "nearest_ancestors m = (let chain = ancestors m (focus m) in map fst (take 2 (rev (take (length chain - 1) chain))))"

definition ancestor_y :: "nat \<Rightarrow> f32_bits" where
  "ancestor_y step = f32_mul (f32_neg (f32_of_nat 46)) (f32_of_nat (step + 1))"

definition ancestor_node :: "display \<Rightarrow> scan_model \<Rightarrow> nat \<Rightarrow> u32 \<Rightarrow> graph_node" where
  \<comment> \<open>the alphas are 0.5 and 0.32\<close>
  "ancestor_node D m step i =
     \<lparr>gn_id = i, gn_x = FOCUS_X, gn_y = ancestor_y step, gn_radius = f32_of_nat 8, gn_color = DEEP_BLUE,
      gn_alpha = (if step = 0 then 0x3F000000 else 0x3EA3D70A),
      gn_label = Some \<lparr>gl_name = fit_name (shown_name D (display_name m i)) 22, gl_detail = [], gl_side = LeftSide\<rparr>,
      gn_bytes = subtree_bytes (tree m) i, gn_navigates = True\<rparr>"

definition ancestor_edge :: "nat \<Rightarrow> graph_edge" where
  "ancestor_edge step =
     \<lparr>edge_points = [(FOCUS_X, f32_add (ancestor_y step) (f32_of_nat 8)), (FOCUS_X, f32_neg (f32_of_nat 18))]\<rparr>"

definition focus_node :: "display \<Rightarrow> scan_model \<Rightarrow> graph_node" where
  "focus_node D m =
     \<lparr>gn_id = focus m, gn_x = FOCUS_X, gn_y = 0, gn_radius = f32_of_nat 15, gn_color = SKY_BLUE, gn_alpha = F32_1,
      gn_label = Some \<lparr>gl_name = fit_name (shown_name D (display_name m (focus m))) 24,
        gl_detail = human_bytes (subtree_bytes (tree m) (focus m)), gl_side = LeftSide\<rparr>,
      gn_bytes = subtree_bytes (tree m) (focus m), gn_navigates = False\<rparr>"

definition trunk_edges :: "band list \<Rightarrow> f32_bits \<Rightarrow> graph_edge list" where
  "trunk_edges bands offset =
     (let first_y = f32_min (f32_sub (case bands of [] \<Rightarrow> 0 | b # _ \<Rightarrow> band_y b) offset) 0;
          last_y = f32_max (f32_sub (if bands = [] then 0 else band_y (last bands)) offset) 0
      in [\<lparr>edge_points = [(f32_add FOCUS_X (f32_of_nat 17), 0), (TRUNK_X, 0)]\<rparr>,
          \<lparr>edge_points = [(TRUNK_X, first_y), (TRUNK_X, last_y)]\<rparr>])"

definition row_radius :: "u64 \<Rightarrow> u64 \<Rightarrow> f32_bits" where
  \<comment> \<open>from the bytes and the largest; the bounds of the weight are 0.25 and 1\<close>
  "row_radius bytes largest =
     (let weight = f32_clamp (f32_sqrt (f32_div (f32_of_nat (unat bytes)) (f32_of_nat (unat largest)))) 0x3E800000 F32_1
      in f32_add (f32_of_nat 4) (f32_mul weight (f32_of_nat 9)))"

definition row_detail :: "scan_model \<Rightarrow> u32 \<Rightarrow> u64 \<Rightarrow> string" where
  "row_detail m child bytes =
     (let n = length (children (tree m) child) in
      if n = 0 then human_bytes bytes
      else if n = 1 then human_bytes bytes @ middle_dot @ ''1 dir''
      else human_bytes bytes @ middle_dot @ show_nat n @ '' dirs'')"

definition row_color :: "display \<Rightarrow> nat \<Rightarrow> u32 option \<Rightarrow> color" where
  \<comment> \<open>the constant is 0.35\<close>
  "row_color D place row =
     (case row of Some _ \<Rightarrow> branch_color place
      | None \<Rightarrow> mix (label_color (ui (dark_mode D))) (panel (ui (dark_mode D))) 0x3EB33333)"

definition row_node :: "display \<Rightarrow> scan_model \<Rightarrow> u64 \<Rightarrow> f32_bits \<Rightarrow> nat \<Rightarrow> band \<Rightarrow> graph_node" where
  "row_node D m largest offset place b =
     (let bytes = band_bytes b;
          (i, name, detail, navigates) = (case band_child b of
             Some child \<Rightarrow> (child, fit_name (shown_name D (display_name m child)) 26, row_detail m child bytes, True)
           | None \<Rightarrow> (focus m, own_files_label m, human_bytes bytes, False))
      in \<lparr>gn_id = i, gn_x = CHILD_X, gn_y = f32_sub (band_y b) offset, gn_radius = row_radius bytes largest,
          gn_color = row_color D place (band_child b), gn_alpha = F32_1,
          gn_label = Some \<lparr>gl_name = name, gl_detail = detail, gl_side = RightSide\<rparr>, gn_bytes = bytes, gn_navigates = navigates\<rparr>)"

definition grandchild_node :: "display \<Rightarrow> scan_model \<Rightarrow> f32_bits \<Rightarrow> color \<Rightarrow> u32 \<times> f32_bits \<Rightarrow> graph_node" where
  \<comment> \<open>the constants are 0.25 and 0.9\<close>
  "grandchild_node D m offset branch g =
     \<lparr>gn_id = fst g, gn_x = GRAND_X, gn_y = f32_sub (snd g) offset, gn_radius = f32_of_nat 4,
      gn_color = mix branch (panel (ui (dark_mode D))) 0x3E800000, gn_alpha = 0x3F666666,
      gn_label = Some \<lparr>gl_name = fit_name (shown_name D (display_name m (fst g))) 22,
        gl_detail = human_bytes (subtree_bytes (tree m) (fst g)), gl_side = RightSide\<rparr>,
      gn_bytes = subtree_bytes (tree m) (fst g), gn_navigates = True\<rparr>"

definition band_nodes :: "display \<Rightarrow> scan_model \<Rightarrow> u64 \<Rightarrow> f32_bits \<Rightarrow> nat \<times> band \<Rightarrow> graph_node list" where
  "band_nodes D m largest offset pb =
     (case pb of (place, b) \<Rightarrow>
        row_node D m largest offset place b
        # map (grandchild_node D m offset (row_color D place (band_child b))) (band_grandchildren b))"

definition band_edges :: "u64 \<Rightarrow> f32_bits \<Rightarrow> band \<Rightarrow> graph_edge list" where
  "band_edges largest offset b =
     (let child_y = f32_sub (band_y b) offset; radius = row_radius (band_bytes b) largest;
          indent_x = f32_add CHILD_X (f32_of_nat 24);
          last_grand_y = f32_sub (if band_grandchildren b = [] then child_y else snd (last (band_grandchildren b))) offset
      in \<lparr>edge_points = [(TRUNK_X, child_y), (f32_sub (f32_sub CHILD_X radius) (f32_of_nat 2), child_y)]\<rparr>
         # (if band_grandchildren b = [] then []
            else \<lparr>edge_points = [(indent_x, f32_add (f32_add child_y radius) (f32_of_nat 3)), (indent_x, last_grand_y)]\<rparr>
              # map (\<lambda>g. let grand_y = f32_sub (snd g) offset
                         in \<lparr>edge_points = [(indent_x, grand_y), (f32_sub GRAND_X (f32_of_nat 6), grand_y)]\<rparr>)
                  (band_grandchildren b)))"

definition outline :: "display \<Rightarrow> scan_model \<Rightarrow> (u64 \<times> u32 option) list \<Rightarrow> node_graph" where
  "outline D m rows =
     (let largest = max (fst (hd rows)) 1;
          (bands, end_cursor) = bands_from m 0 0 rows;
          offset = half end_cursor;
          spine = enumerate 0 (nearest_ancestors m)
      in \<lparr>ng_nodes = map (case_prod (ancestor_node D m)) spine @ [focus_node D m]
            @ concat (map (band_nodes D m largest offset) (enumerate 0 bands)),
          ng_edges = map (ancestor_edge \<circ> fst) spine @ trunk_edges bands offset @ concat (map (band_edges largest offset) bands),
          ng_hidden_children = hidden_children m, ng_focus = focus m\<rparr>)"

definition graph_canvas :: "display \<Rightarrow> scan_model \<Rightarrow> canvas" where
  "graph_canvas D m =
     (let rows = shown_rows m in
      if rows = [] then case_prod EmptyCanvas (viz_empty m) else GraphCanvas (outline D m rows))"

end
