(* ===== verification/F32_Exact.thy ===== *)
theory F32_Exact
  imports F32
begin

text \<open>
  Small integers are exact in \<open>f32\<close>: their sums, differences and halves are those of the integers.
\<close>

definition f32_of_int :: "int \<Rightarrow> f32_bits" where
  "f32_of_int n = (if n < 0 then f32_neg (f32_of_nat (nat (- n))) else f32_of_nat (nat n))"

section \<open>Digits\<close>

lemma short_length_bounds: "0 < n \<Longrightarrow> 2 ^ (short_length n - 1) \<le> n \<and> n < 2 ^ short_length n \<and> 0 < short_length n"
proof (induction n rule: less_induct)
  case (less n)
  show ?case
  proof (cases "n = 1")
    case True
    then show ?thesis by (simp add: short_length.simps)
  next
    case False
    then have "0 < n div 2" "n div 2 < n" using less.prems by auto
    from less.IH [OF this(2) this(1)] obtain k where k: "short_length (n div 2) = Suc k" "2 ^ k \<le> n div 2" "n div 2 < 2 ^ Suc k"
      by (metis Suc_pred' diff_Suc_1)
    then show ?thesis using less.prems by (simp add: short_length.simps [of n]) arith
  qed
qed

lemma bit_length_bounds: "0 < n \<Longrightarrow> 2 ^ (bit_length n - 1) \<le> n \<and> n < 2 ^ bit_length n \<and> 0 < bit_length n"
proof (induction n rule: less_induct)
  case (less n)
  show ?case
  proof (cases "n < 2 ^ 64")
    case True
    then show ?thesis using less.prems short_length_bounds [of n] by (simp add: bit_length.simps [of n])
  next
    case False
    then have "0 < n div 2 ^ 64" "n div 2 ^ 64 < n" by (auto simp: div_greater_zero_iff)
    from less.IH [OF this(2) this(1)] obtain k where k: "bit_length (n div 2 ^ 64) = Suc k"
      "2 ^ k \<le> n div 2 ^ 64" "n div 2 ^ 64 < 2 ^ Suc k"
      by (metis Suc_pred' diff_Suc_1)
    from k(2) have "2 ^ k * 2 ^ 64 \<le> n" by (metis div_times_less_eq_dividend le_trans mult_le_mono1)
    moreover from k(3) have "n < 2 ^ Suc k * 2 ^ 64" using div_less_iff_less_mult by (metis zero_less_numeral zero_less_power)
    moreover have "bit_length n = 64 + Suc k" using False k(1) by (simp add: bit_length.simps [of n])
    ultimately show ?thesis by (simp add: power_add mult.commute)
  qed
qed

lemma bit_length_unique:
  assumes "2 ^ l \<le> n" "n < 2 ^ Suc l"
  shows "bit_length n = Suc l"
proof -
  have "0 < n" using assms(1) by (metis less_le_trans zero_less_numeral zero_less_power)
  note b = bit_length_bounds [OF this]
  then obtain k where k: "bit_length n = Suc k" by (metis Suc_pred')
  have "(2::nat) ^ k < 2 ^ Suc l" "(2::nat) ^ l < 2 ^ Suc k" using b assms unfolding k by (auto intro: le_less_trans)
  then have "k < Suc l" "l < Suc k" by (simp_all only: power_strict_increasing_iff one_less_numeral_iff numeral_2_eq_2)
  then show ?thesis by (simp add: k)
qed

lemma bit_length_shift: "0 < n \<Longrightarrow> bit_length (n * 2 ^ j) = bit_length n + j"
proof -
  assume "0 < n"
  note b = bit_length_bounds [OF this]
  then obtain k where k: "bit_length n = Suc k" by (metis Suc_pred')
  have "2 ^ (k + j) \<le> n * 2 ^ j" "n * 2 ^ j < 2 ^ Suc (k + j)" using b by (simp_all add: k power_add)
  then show ?thesis using bit_length_unique [of "k + j" "n * 2 ^ j"] by (simp add: k)
qed

lemma bit_length_0 [simp]: "bit_length 0 = 0"
  by (simp add: bit_length.simps short_length.simps)

lemma bit_length_small: "n < 2 ^ l \<Longrightarrow> bit_length n \<le> l"
proof (cases "n = 0")
  case False
  assume n: "n < 2 ^ l"
  from False have "2 ^ (bit_length n - 1) \<le> n" "0 < bit_length n" using bit_length_bounds [of n] by simp_all
  then have "(2::nat) ^ (bit_length n - 1) < 2 ^ l" using n by (metis le_less_trans)
  then have "bit_length n - 1 < l" by simp
  then show ?thesis using \<open>0 < bit_length n\<close> by simp
qed simp

lemma round_half_even_exact [simp]: "0 < d \<Longrightarrow> round_half_even (x * d) d = x"
  by (simp add: round_half_even_def Let_def)

section \<open>Rounding an exact number\<close>

lemma f32_round_exact:
  assumes "0 < n" "n < 2 ^ 24" "0 < d" "j \<le> 149"
  shows "f32_round negative (n * 2 ^ j * d) d (149 - int j)
    = word_of_nat ((if negative then 2 ^ 31 else 0) + ((125 + bit_length n) * 2 ^ 23 + n * 2 ^ (24 - bit_length n)))"
proof -
  have l: "0 < bit_length n" "bit_length n \<le> 24" using bit_length_bounds [OF assms(1)] bit_length_small [OF assms(2)] by simp_all
  have q: "n * 2 ^ j * d div d = n * 2 ^ j" using assms(3) by simp
  have k: "max (149 - int j + int (bit_length (n * 2 ^ j)) - 24) 0 = int (125 + bit_length n)"
    by (simp add: bit_length_shift [OF assms(1)])
  have m: "(if 149 - int j \<le> int (125 + bit_length n)
      then round_half_even (n * 2 ^ j * d) (d * 2 ^ nat (int (125 + bit_length n) - (149 - int j)))
      else round_half_even (n * 2 ^ j * d * 2 ^ nat (149 - int j - int (125 + bit_length n))) d)
    = n * 2 ^ (24 - bit_length n)"
  proof (cases "149 - int j \<le> int (125 + bit_length n)")
    case True
    define e where "e = nat (int (125 + bit_length n) - (149 - int j))"
    have "j = 24 - bit_length n + e" using True l by (simp add: e_def)
    then have num: "n * 2 ^ j * d = n * 2 ^ (24 - bit_length n) * (d * 2 ^ e)" by (simp add: power_add)
    show ?thesis unfolding if_P [OF True] e_def [symmetric] num using assms(3) by (intro round_half_even_exact) simp
  next
    case False
    define e where "e = nat (149 - int j - int (125 + bit_length n))"
    have "j + e = 24 - bit_length n" using False l by (simp add: e_def)
    then have num: "n * 2 ^ j * d * 2 ^ e = n * 2 ^ (24 - bit_length n) * d" by (simp add: power_add mult.left_commute flip: \<open>j + e = 24 - bit_length n\<close>)
    show ?thesis unfolding if_not_P [OF False] e_def [symmetric] num using assms(3) by (intro round_half_even_exact)
  qed
  have "n * 2 ^ (24 - bit_length n) < 2 ^ bit_length n * 2 ^ (24 - bit_length n)" using bit_length_bounds [OF assms(1)] by simp
  also have "\<dots> = 2 ^ 24" using l by (metis le_add_diff_inverse power_add)
  finally have "nat (int (125 + bit_length n)) * 2 ^ 23 + n * 2 ^ (24 - bit_length n) \<le> 255 * 2 ^ 23" using l by simp
  moreover have "n * 2 ^ j * d \<noteq> 0" using assms by simp
  ultimately show ?thesis unfolding f32_round_def Let_def q k m by (simp add: min_absorb1)
qed

lemma f32_of_nat_bits:
  assumes "0 < n" "n < 2 ^ 24"
  shows "f32_of_nat n = word_of_nat ((125 + bit_length n) * 2 ^ 23 + n * 2 ^ (24 - bit_length n))"
  using f32_round_exact [OF assms, of 1 0 False] by (simp add: f32_of_nat_def)

lemma f32_of_nat_0: "f32_of_nat 0 = 0"
  by (simp add: f32_of_nat_def f32_round_def)

section \<open>The sign\<close>

lemma bit_31: "bit (x :: 32 word) 31 \<longleftrightarrow> 2 ^ 31 \<le> unat x"
proof -
  have "unat x < 2 ^ 32" using unsigned_less [of x] by simp
  then have "unat x div 2 ^ 31 = (if 2 ^ 31 \<le> unat x then 1 else 0)" by (auto intro!: div_nat_eqI)
  moreover have "bit x 31 \<longleftrightarrow> bit (unat x) 31" by (simp add: bit_unsigned_iff)
  ultimately show ?thesis by (simp only: bit_iff_odd [of "unat x"]) simp
qed

lemma unat_f32_neg: "unat (f32_neg x) = (if unat x < 2 ^ 31 then unat x + 2 ^ 31 else unat x - 2 ^ 31)"
proof -
  have "f32_neg x = flip_bit 31 x" by (simp add: f32_neg_def flip_bit_def)
  also have "\<dots> = (if unat x < 2 ^ 31 then x + 2 ^ 31 else x - 2 ^ 31)"
    by (simp add: flip_bit_eq_if bit_31 set_bit_eq unset_bit_eq)
  finally show ?thesis by (auto simp: unat_add_lem [THEN iffD1] unat_sub word_le_nat_alt)
qed

lemma f32_neg_parts [simp]:
  "f32_exponent (f32_neg x) = f32_exponent x" "f32_fraction (f32_neg x) = f32_fraction x"
  "f32_negative (f32_neg x) \<longleftrightarrow> \<not> f32_negative x"
proof -
  have "unat x < 2 ^ 32" using unsigned_less [of x] by simp
  have plus: "(v + 2 ^ 31) div 2 ^ 23 mod 2 ^ 8 = v div 2 ^ 23 mod (2 ^ 8 :: nat)" "(v + 2 ^ 31) mod 2 ^ 23 = v mod (2 ^ 23 :: nat)" for v
  proof -
    have "(v + 2 ^ 8 * 2 ^ 23) div 2 ^ 23 = 2 ^ 8 + v div (2 ^ 23 :: nat)" by (rule div_mult_self1) simp
    then have "(v + 2 ^ 31) div 2 ^ 23 = 2 ^ 8 + v div (2 ^ 23 :: nat)" by simp
    then show "(v + 2 ^ 31) div 2 ^ 23 mod 2 ^ 8 = v div 2 ^ 23 mod (2 ^ 8 :: nat)" by (simp only: mod_add_self1)
    have "(v + 2 ^ 8 * 2 ^ 23) mod 2 ^ 23 = v mod (2 ^ 23 :: nat)" by (rule mod_mult_self1)
    then show "(v + 2 ^ 31) mod 2 ^ 23 = v mod (2 ^ 23 :: nat)" by simp
  qed
  have less: "(v - 2 ^ 31) div 2 ^ 23 mod 2 ^ 8 = v div 2 ^ 23 mod (2 ^ 8 :: nat)" "(v - 2 ^ 31) mod 2 ^ 23 = v mod (2 ^ 23 :: nat)"
    if "2 ^ 31 \<le> v" for v using plus [of "v - 2 ^ 31"] that by simp_all
  have sign: "v < 2 ^ 32 \<Longrightarrow> (2 ^ 31 \<le> (if v < 2 ^ 31 then v + 2 ^ 31 else v - 2 ^ 31)) = (\<not> 2 ^ 31 \<le> v)" for v :: nat
    by auto
  show "f32_exponent (f32_neg x) = f32_exponent x" 
  proof (cases "unat x < 2 ^ 31")
    case True
    show ?thesis unfolding f32_exponent_def unat_f32_neg if_P [OF True] by (rule plus)
  next
    case False
    show ?thesis unfolding f32_exponent_def unat_f32_neg if_not_P [OF False] using False by (intro less) (simp only: not_less)
  qed
  show "f32_fraction (f32_neg x) = f32_fraction x" 
  proof (cases "unat x < 2 ^ 31")
    case True
    show ?thesis unfolding f32_fraction_def unat_f32_neg if_P [OF True] by (rule plus)
  next
    case False
    show ?thesis unfolding f32_fraction_def unat_f32_neg if_not_P [OF False] using False by (intro less) (simp only: not_less)
  qed
  show "f32_negative (f32_neg x) \<longleftrightarrow> \<not> f32_negative x"
    unfolding f32_negative_def unat_f32_neg using \<open>unat x < 2 ^ 32\<close> by (rule sign)
qed

lemma f32_neg_more [simp]:
  "f32_scale (f32_neg x) = f32_scale x" "f32_significand (f32_neg x) = f32_significand x"
  "f32_nan (f32_neg x) = f32_nan x" "f32_inf (f32_neg x) = f32_inf x"
  "f32_value s (f32_neg x) = - f32_value s x"
  by (simp_all add: f32_scale_def f32_significand_def f32_nan_def f32_inf_def f32_value_def Let_def)

lemma f32_neg_neg [simp]: "f32_neg (f32_neg x) = x"
  by (simp add: f32_neg_def xor.assoc)

section \<open>Exact numbers\<close>

definition exact :: "f32_bits \<Rightarrow> int \<Rightarrow> bool" where
  "exact x n \<longleftrightarrow> \<not> f32_nan x \<and> \<not> f32_inf x \<and> f32_scale x \<le> 149 \<and> (n \<noteq> 0 \<longrightarrow> f32_negative x = (n < 0))
     \<and> (\<forall>s \<le> f32_scale x. f32_value s x = n * 2 ^ (149 - s))"

lemma exact_neg: "exact x n \<Longrightarrow> exact (f32_neg x) (- n)"
  by (auto simp: exact_def)

lemma unat_word_of_nat: "v < 2 ^ 32 \<Longrightarrow> unat (word_of_nat v :: 32 word) = v"
  by (simp add: unsigned_of_nat take_bit_nat_eq_self)

lemma exact_of_nat:
  assumes "n < 2 ^ 24"
  shows "exact (f32_of_nat n) (int n)" "\<not> f32_negative (f32_of_nat n)"
proof -
  have "exact (f32_of_nat n) (int n) \<and> \<not> f32_negative (f32_of_nat n)"
  proof (cases "n = 0")
    case True
    then show ?thesis
      by (simp add: f32_of_nat_0 exact_def f32_nan_def f32_inf_def f32_exponent_def f32_fraction_def f32_scale_def
          f32_value_def f32_significand_def f32_negative_def)
  next
    case False
    then have n: "0 < n" by simp
    define l where "l = bit_length n"
    define m where "m = n * 2 ^ (24 - l)"
    have l: "0 < l" "l \<le> 24" using bit_length_bounds [OF n] bit_length_small [OF assms] by (simp_all add: l_def)
    have "2 ^ (l - 1) * 2 ^ (24 - l) \<le> m" "m < 2 ^ l * 2 ^ (24 - l)" using bit_length_bounds [OF n] by (simp_all add: l_def m_def)
    moreover have "(2::nat) ^ (l - 1) * 2 ^ (24 - l) = 2 ^ 23" "(2::nat) ^ l * 2 ^ (24 - l) = 2 ^ 24"
      using l by (simp_all flip: power_add)
    ultimately have m: "2 ^ 23 \<le> m" "m < 2 ^ 24" by simp_all
    have u: "unat (f32_of_nat n) = (125 + l) * 2 ^ 23 + m"
      unfolding f32_of_nat_bits [OF n assms] l_def [symmetric] m_def [symmetric] using m l by (intro unat_word_of_nat) simp
    define k where "k = m - 2 ^ 23"
    have k: "m = 2 ^ 23 + k" "k < 2 ^ 23" using m by (simp_all add: k_def)
    have "unat (f32_of_nat n) = k + (126 + l) * 2 ^ 23" by (simp add: u k(1))
    then have parts: "unat (f32_of_nat n) div 2 ^ 23 = 126 + l" "f32_fraction (f32_of_nat n) = k"
      using k(2) by (simp_all only: f32_fraction_def mod_mult_self1 mod_less) simp
    then have e: "f32_exponent (f32_of_nat n) = 126 + l" using l by (simp add: f32_exponent_def)
    have "unat (f32_of_nat n) < 2 ^ 31" using l m by (simp add: u)
    then have sgn: "\<not> f32_negative (f32_of_nat n)" by (simp add: f32_negative_def)
    have scale: "f32_scale (f32_of_nat n) = 125 + l" by (simp add: f32_scale_def e)
    have "f32_value s (f32_of_nat n) = int n * 2 ^ (149 - s)" if "s \<le> 125 + l" for s
    proof -
      have "m * 2 ^ (125 + l - s) = n * 2 ^ (149 - s)"
        using that l by (simp add: m_def flip: power_add)
      from arg_cong [OF this, of int] have "int m * 2 ^ (125 + l - s) = int n * 2 ^ (149 - s)" by simp
      then show ?thesis by (simp add: f32_value_def f32_significand_def scale e parts sgn k(1))
    qed
    then show ?thesis using l by (simp add: exact_def scale sgn e f32_nan_def f32_inf_def)
  qed
  then show "exact (f32_of_nat n) (int n)" "\<not> f32_negative (f32_of_nat n)" by simp_all
qed

lemma exact_of_int: "\<bar>n\<bar> < 2 ^ 24 \<Longrightarrow> exact (f32_of_int n) n"
  using exact_of_nat(1) [of "nat \<bar>n\<bar>"] exact_neg [of "f32_of_nat (nat (- n))" "- n"] by (auto simp: f32_of_int_def)

section \<open>Sums, differences and halves\<close>

lemma f32_neg_bits:
  assumes "0 < n" "n < 2 ^ 24"
  shows "f32_neg (f32_of_nat n) = word_of_nat (2 ^ 31 + ((125 + bit_length n) * 2 ^ 23 + n * 2 ^ (24 - bit_length n)))"
proof -
  have l: "bit_length n \<le> 24" using bit_length_small [OF assms(2)] .
  have "n * 2 ^ (24 - bit_length n) < 2 ^ bit_length n * 2 ^ (24 - bit_length n)" using bit_length_bounds [OF assms(1)] by simp
  also have "\<dots> = 2 ^ 24" using l by (metis le_add_diff_inverse power_add)
  finally have v: "(125 + bit_length n) * 2 ^ 23 + n * 2 ^ (24 - bit_length n) < 2 ^ 31" using l by simp
  then have "unat (f32_of_nat n) = (125 + bit_length n) * 2 ^ 23 + n * 2 ^ (24 - bit_length n)"
    unfolding f32_of_nat_bits [OF assms] by (intro unat_word_of_nat) simp
  then have "unat (f32_neg (f32_of_nat n)) = 2 ^ 31 + ((125 + bit_length n) * 2 ^ 23 + n * 2 ^ (24 - bit_length n))"
    using v by (simp add: unat_f32_neg)
  moreover have "unat (word_of_nat (2 ^ 31 + ((125 + bit_length n) * 2 ^ 23 + n * 2 ^ (24 - bit_length n))) :: 32 word)
      = 2 ^ 31 + ((125 + bit_length n) * 2 ^ 23 + n * 2 ^ (24 - bit_length n))"
    using v by (intro unat_word_of_nat) simp
  ultimately show ?thesis by (simp only: word_unat_eq_iff)
qed

lemma f32_round_int:
  assumes "v \<noteq> 0" "\<bar>v\<bar> < 2 ^ 24" "0 < d" "j \<le> 149"
  shows "f32_round (v < 0) (nat \<bar>v\<bar> * 2 ^ j * d) d (149 - int j) = f32_of_int v"
proof -
  have n: "0 < nat \<bar>v\<bar>" "nat \<bar>v\<bar> < 2 ^ 24" using assms by simp_all
  show ?thesis
    using f32_of_nat_bits [OF n] f32_neg_bits [OF n] assms(1)
    by (auto simp: f32_round_exact [OF n assms(3,4)] f32_of_int_def)
qed

lemma exact_f32_add:
  assumes "exact x a" "exact y b" "\<bar>a + b\<bar> < 2 ^ 24" "\<not> (f32_negative x \<and> f32_negative y \<and> a + b = 0)"
  shows "f32_add x y = f32_of_int (a + b)"
proof -
  define s where "s = min (f32_scale x) (f32_scale y)"
  have s: "s \<le> f32_scale x" "s \<le> f32_scale y" "s \<le> 149" using assms(1,2) by (auto simp: s_def exact_def)
  have v: "f32_value s x + f32_value s y = (a + b) * 2 ^ (149 - s)"
    using assms(1,2) s by (simp add: exact_def algebra_simps)
  have finite: "\<not> f32_nan x" "\<not> f32_nan y" "\<not> f32_inf x" "\<not> f32_inf y" using assms(1,2) by (simp_all add: exact_def)
  show ?thesis
  proof (cases "a + b = 0")
    case True
    then have "f32_add x y = f32_round False 0 1 0" using assms(4) finite v
      by (auto simp: f32_add_def Let_def s_def [symmetric])
    also have "\<dots> = f32_of_int 0" by (simp add: f32_of_int_def f32_of_nat_0 f32_round_def)
    finally show ?thesis using True by simp
  next
    case False
    have "f32_add x y = f32_round ((a + b) * 2 ^ (149 - s) < 0) (nat \<bar>(a + b) * 2 ^ (149 - s)\<bar>) 1 (int s)"
      using finite False unfolding f32_add_def Let_def s_def [symmetric] v by simp
    also have "\<dots> = f32_round (a + b < 0) (nat \<bar>a + b\<bar> * 2 ^ (149 - s) * 1) 1 (149 - int (149 - s))"
      using s(3) by (simp add: abs_mult nat_mult_distrib nat_power_eq mult_less_0_iff)
    also have "\<dots> = f32_of_int (a + b)" using False assms(3) by (intro f32_round_int) simp_all
    finally show ?thesis .
  qed
qed

lemma f32_of_int_negative: "\<bar>n\<bar> < 2 ^ 24 \<Longrightarrow> f32_negative (f32_of_int n) \<longleftrightarrow> n < 0"
  using exact_of_nat(2) [of "nat n"] exact_of_nat(2) [of "nat (- n)"] by (auto simp: f32_of_int_def)

lemma f32_add_int: "\<lbrakk>\<bar>a\<bar> < 2 ^ 24; \<bar>b\<bar> < 2 ^ 24; \<bar>a + b\<bar> < 2 ^ 24\<rbrakk> \<Longrightarrow> f32_add (f32_of_int a) (f32_of_int b) = f32_of_int (a + b)"
  by (intro exact_f32_add exact_of_int) (auto simp: f32_of_int_negative)

lemma f32_sub_int: "\<lbrakk>\<bar>a\<bar> < 2 ^ 24; \<bar>b\<bar> < 2 ^ 24; \<bar>a - b\<bar> < 2 ^ 24\<rbrakk> \<Longrightarrow> f32_sub (f32_of_int a) (f32_of_int b) = f32_of_int (a - b)"
proof -
  assume b: "\<bar>a\<bar> < 2 ^ 24" "\<bar>b\<bar> < 2 ^ 24" "\<bar>a - b\<bar> < 2 ^ 24"
  have "f32_add (f32_of_int a) (f32_neg (f32_of_int b)) = f32_of_int (a + - b)"
    using b by (intro exact_f32_add exact_of_int exact_neg) (auto simp: f32_of_int_negative)
  moreover have "\<not> f32_nan (f32_of_int b)" using exact_of_int [OF b(2)] by (simp add: exact_def)
  ultimately show ?thesis by (simp add: f32_sub_def)
qed

lemma f32_significand_less: "f32_significand x < 2 ^ 24"
proof -
  have "unat x mod 2 ^ 23 < 2 ^ 23" by (rule mod_less_divisor) simp
  then show ?thesis unfolding f32_significand_def f32_fraction_def by auto
qed

lemma f32_half_nat:
  assumes "2 * n < 2 ^ 24"
  shows "f32_div (f32_of_nat (2 * n)) (f32_of_nat 2) = f32_of_nat n"
proof -
  let ?x = "f32_of_nat (2 * n)"
  have two: "f32_of_nat 2 = 0x40000000" by (simp add: f32_eval)
  have y: "f32_significand 0x40000000 = 2 ^ 23" "f32_scale 0x40000000 = 127" "\<not> f32_nan 0x40000000" "\<not> f32_inf 0x40000000"
    "\<not> f32_negative 0x40000000"
    by (simp_all add: f32_significand_def f32_scale_def f32_nan_def f32_inf_def f32_negative_def f32_exponent_def f32_fraction_def)
  note e = exact_of_nat [OF assms]
  define t where "t = f32_scale ?x"
  have x: "\<not> f32_nan ?x" "\<not> f32_inf ?x" "t \<le> 149" using e by (auto simp: exact_def t_def)
  have "int (f32_significand ?x) = int (2 * n) * 2 ^ (149 - t)"
    using e by (auto simp: exact_def t_def f32_value_def Let_def)
  also have "int (2 * n) * 2 ^ (149 - t) = int (2 * n * 2 ^ (149 - t))" by simp
  finally have sig: "f32_significand ?x = 2 * n * 2 ^ (149 - t)"
    by (simp only: of_nat_eq_iff)
  have d: "f32_div ?x (f32_of_nat 2) = f32_round False (f32_significand ?x * 2 ^ 32) (2 ^ 23) (int t - 10)"
    unfolding two using x y e(2) by (simp add: f32_div_def Let_def t_def)
  show ?thesis
  proof (cases "n = 0")
    case True
    then have "f32_div ?x (f32_of_nat 2) = f32_round False 0 (2 ^ 23) (int t - 10)" unfolding d sig by simp
    then show ?thesis using True by (simp add: f32_of_nat_0 f32_round_def)
  next
    case False
    have "2 ^ (149 - t) \<le> f32_significand ?x" using False unfolding sig by simp
    then have "(2::nat) ^ (149 - t) < 2 ^ 24" using f32_significand_less [of ?x] by linarith
    then have t: "149 - t < 24" by (rule power_less_imp_less_exp [rotated]) simp
    have p: "2 * n * 2 ^ (149 - t) * 2 ^ 32 = n * 2 ^ (159 - t) * 2 ^ (23::nat)"
    proof -
      have "159 - t = (149 - t) + 10" using x by simp
      then show ?thesis by (simp only: power_add) simp
    qed
    have "f32_div ?x (f32_of_nat 2) = f32_round False (n * 2 ^ (159 - t) * 2 ^ 23) (2 ^ 23) (149 - int (159 - t))"
      unfolding d sig p using x t by simp
    also have "\<dots> = f32_of_nat n"
      using f32_round_int [of "int n" "2 ^ 23" "159 - t"] False assms t by (simp add: f32_of_int_def)
    finally show ?thesis .
  qed
qed

end
