(* ===== verification/Outline_Props.thy ===== *)
theory Outline_Props
  imports Outline F32_Exact
begin

text \<open>
  The rows of the outline graph do not overlap: the layout, computed in \<open>f32\<close>, is that of the integers, and
  there every row has its own height.
\<close>

section \<open>The layout in integers\<close>

fun layout :: "nat \<Rightarrow> nat list \<Rightarrow> nat list" where
  \<comment> \<open>the centres of the rows from a cursor on, for the number of grandchildren of each child\<close>
  "layout c [] = []"
| "layout c (k # ks) = (c + 16) # map (\<lambda>j. c + 44 + 24 * j) [0..<k] @ layout (c + 32 + 24 * k) ks"

fun layout_end :: "nat \<Rightarrow> nat list \<Rightarrow> nat" where
  "layout_end c [] = c"
| "layout_end c (k # ks) = layout_end (c + 32 + 24 * k) ks"

definition apart :: "nat \<Rightarrow> nat \<Rightarrow> bool" where
  "apart a b \<longleftrightarrow> a + 24 \<le> b"

lemma layout_above: "y \<in> set (layout c ks) \<Longrightarrow> c + 16 \<le> y"
  by (induction c ks rule: layout.induct) fastforce+

lemma layout_apart: "sorted_wrt apart (layout c ks)"
proof (induction c ks rule: layout.induct)
  case (2 c k ks)
  have "sorted_wrt apart (map (\<lambda>j. c + 44 + 24 * j) [0..<k])"
    by (induction k) (auto simp: sorted_wrt_append apart_def)
  then show ?case using 2 by (auto simp: sorted_wrt_append apart_def [abs_def] dest!: layout_above)
qed simp

lemma layout_end_even: "even c \<Longrightarrow> even (layout_end c ks)"
  by (induction c ks rule: layout_end.induct) simp_all

lemma layout_end_bound: "\<forall>k \<in> set ks. k \<le> 3 \<Longrightarrow> layout_end c ks \<le> c + 104 * length ks"
proof (induction c ks rule: layout_end.induct)
  case (2 c k ks)
  then show ?case by simp
qed simp

lemma layout_below: "y \<in> set (layout c ks) \<Longrightarrow> y \<le> layout_end c ks"
proof (induction c ks rule: layout.induct)
  case (2 c k ks)
  have "c \<le> layout_end c ks" for c ks by (induction c ks rule: layout_end.induct) simp_all
  from this [of "c + 32 + 24 * k" ks] show ?case using 2 by auto
qed simp

section \<open>The layout in \<open>f32\<close>\<close>

lemma f32_add_nat: "a + b < 2 ^ 24 \<Longrightarrow> f32_add (f32_of_nat a) (f32_of_nat b) = f32_of_nat (a + b)"
  using f32_add_int [of "int a" "int b"] by (simp add: f32_of_int_def nat_add_distrib)

lemma half_row [simp]: "half CHILD_ROW = f32_of_nat 16" "half GRAND_ROW = f32_of_nat 12"
  using f32_half_nat [of 16] f32_half_nat [of 12] by (simp_all add: half_def CHILD_ROW_def GRAND_ROW_def)

lemma grand_rows_exact:
  "c + 24 * length gs < 2 ^ 24 - 24 \<Longrightarrow>
     grand_rows (f32_of_nat c) gs
       = (zip gs (map (\<lambda>j. f32_of_nat (c + 12 + 24 * j)) [0..<length gs]), f32_of_nat (c + 24 * length gs))"
proof (induction gs arbitrary: c)
  case (Cons g gs)
  have "map (\<lambda>j. f32_of_nat (c + 12 + 24 * j)) [0..<length (g # gs)]
      = f32_of_nat (c + 12) # map (\<lambda>j. f32_of_nat (c + 24 + 12 + 24 * j)) [0..<length gs]"
    by (simp add: upt_conv_Cons map_Suc_upt [symmetric] o_def add.assoc del: upt_Suc)
  moreover have "f32_add (f32_of_nat c) GRAND_ROW = f32_of_nat (c + 24)" "f32_add (f32_of_nat c) (half GRAND_ROW) = f32_of_nat (c + 12)"
    using Cons.prems by (simp_all add: f32_add_nat) (simp add: GRAND_ROW_def f32_add_nat)
  ultimately show ?case using Cons.IH [of "c + 24"] Cons.prems by (simp add: ac_simps del: upt_Suc)
qed simp

definition row_counts :: "scan_model \<Rightarrow> nat \<Rightarrow> (u64 \<times> u32 option) list \<Rightarrow> nat list" where
  "row_counts m place rows = map (\<lambda>(p, b, row). length (previewed m p row)) (enumerate place rows)"

definition band_ys :: "band \<Rightarrow> f32_bits list" where
  "band_ys b = band_y b # map snd (band_grandchildren b)"

lemma length_previewed: "length (previewed m p row) \<le> 3"
  by (simp add: previewed_def GRANDCHILDREN_EACH_def split: option.split)

lemma bands_exact:
  "c + 104 * length rows < 2 ^ 20 \<Longrightarrow> bands_from m place (f32_of_nat c) rows = (bands, e) \<Longrightarrow>
     concat (map band_ys bands) = map f32_of_nat (layout c (row_counts m place rows))
     \<and> e = f32_of_nat (layout_end c (row_counts m place rows)) \<and> length bands = length rows"
proof (induction rows arbitrary: c place bands e)
  case (Cons r rows)
  obtain bytes row where r: "r = (bytes, row)" by (cases r)
  let ?gs = "previewed m place row"
  have k: "length ?gs \<le> 3" by (rule length_previewed)
  let ?c = "c + 32 + 24 * length ?gs"
  have g: "grand_rows (f32_add (f32_of_nat c) CHILD_ROW) ?gs
      = (zip ?gs (map (\<lambda>j. f32_of_nat (c + 44 + 24 * j)) [0..<length ?gs]), f32_of_nat ?c)"
    using Cons.prems(1) k by (simp add: CHILD_ROW_def f32_add_nat grand_rows_exact) (simp add: ac_simps)
  obtain bs e' where b: "bands_from m (place + 1) (f32_of_nat ?c) rows = (bs, e')"
    by (cases "bands_from m (place + 1) (f32_of_nat ?c) rows")
  have "?c + 104 * length rows < 2 ^ 20" using Cons.prems(1) k by simp
  note IH = Cons.IH [OF this b]
  have y: "f32_add (f32_of_nat c) (half CHILD_ROW) = f32_of_nat (c + 16)" using Cons.prems(1) by (simp add: f32_add_nat)
  have "bands = \<lparr>band_child = row, band_bytes = bytes, band_y = f32_of_nat (c + 16),
      band_grandchildren = zip ?gs (map (\<lambda>j. f32_of_nat (c + 44 + 24 * j)) [0..<length ?gs])\<rparr> # bs" "e = e'"
    using Cons.prems(2) b by (auto simp: r g y [simplified])
  then show ?case using IH by (simp add: r row_counts_def band_ys_def)
qed (simp add: row_counts_def)

section \<open>The nodes\<close>

lemma rows_of_nodes:
  "map gn_y (concat (map (band_nodes D m largest offset) (enumerate p bands)))
     = map (\<lambda>y. f32_sub y offset) (concat (map band_ys bands))"
  "n \<in> set (concat (map (band_nodes D m largest offset) (enumerate p bands))) \<Longrightarrow> map_option gl_side (gn_label n) = Some RightSide"
proof (induction bands arbitrary: p)
  case (Cons b bands)
  {
    case 1
    then show ?case using Cons.IH(1) [of "Suc p"]
      by (simp add: band_nodes_def row_node_def band_ys_def grandchild_node_def Let_def o_def split_beta)
  next
    case 2
    then show ?case using Cons.IH(2) [of "Suc p"]
      by (auto simp: band_nodes_def row_node_def grandchild_node_def Let_def split_beta)
  }
qed simp_all

lemma length_shown_rows: "length (shown_rows m) \<le> 12"
  by (simp add: shown_rows_def CHILD_LIMIT_def Let_def)

lemma ancestor_y_exact: "ancestor_y 0 = f32_of_int (- 46)" "ancestor_y 1 = f32_of_int (- 92)"
  by (simp_all add: ancestor_y_def f32_of_int_def f32_eval)

lemma length_nearest_ancestors: "length (nearest_ancestors m) \<le> 2"
  by (simp add: nearest_ancestors_def Let_def)

lemma spine_ys:
  "map gn_y (map (case_prod (ancestor_node D m)) (enumerate 0 (nearest_ancestors m)))
     = map f32_of_int (take (length (nearest_ancestors m)) [- 46, - 92])"
proof -
  consider "nearest_ancestors m = []" | i where "nearest_ancestors m = [i]" | i j where "nearest_ancestors m = [i, j]"
    using length_nearest_ancestors [of m] by (cases "nearest_ancestors m" rule: list.exhaust; cases "tl (nearest_ancestors m)") auto
  then show ?thesis
    by cases (simp_all add: ancestor_node_def ancestor_y_exact ancestor_y_exact(2) [simplified])
qed

lemma rows_exact:
  assumes "bands_from m 0 0 rows = (bands, e)" "length rows \<le> 12"
  shows "\<exists>ys :: int list. map gn_y (concat (map (band_nodes D m largest (half e)) (enumerate 0 bands))) = map f32_of_int ys
    \<and> sorted_wrt (\<lambda>a b. a + 24 \<le> b) ys"
proof -
  let ?ks = "row_counts m 0 rows"
  have n: "length ?ks \<le> 12" "\<forall>k \<in> set ?ks. k \<le> 3"
    using assms(2) length_previewed by (auto simp: row_counts_def)
  have "bands_from m 0 (f32_of_nat 0) rows = (bands, e)" using assms(1) by (simp add: f32_of_nat_0)
  from bands_exact [OF _ this] assms(2) have
    ys: "concat (map band_ys bands) = map f32_of_nat (layout 0 ?ks)" and e: "e = f32_of_nat (layout_end 0 ?ks)" by simp_all
  obtain h where h: "layout_end 0 ?ks = 2 * h" using layout_end_even [of 0 ?ks] by (auto elim: evenE)
  have bound: "2 * h \<le> 1248" using layout_end_bound [OF n(2), of 0] n(1) h by simp
  have off: "half e = f32_of_int (int h)" using f32_half_nat [of h] bound by (simp add: half_def e h f32_of_int_def)
  let ?ys = "map (\<lambda>y. int y - int h) (layout 0 ?ks)"
  have "f32_sub (f32_of_nat y) (half e) = f32_of_int (int y - int h)" if "y \<in> set (layout 0 ?ks)" for y
    using f32_sub_int [of "int y" "int h"] layout_below [OF that] bound h unfolding off by (simp add: f32_of_int_def)
  then have "map gn_y (concat (map (band_nodes D m largest (half e)) (enumerate 0 bands))) = map f32_of_int ?ys"
    by (simp add: rows_of_nodes ys)
  moreover have "sorted_wrt (\<lambda>a b. a + 24 \<le> b) ?ys"
    using layout_apart [of 0 ?ks] by (auto simp: sorted_wrt_map apart_def elim: sorted_wrt_mono_rel [rotated])
  ultimately show ?thesis by blast
qed

definition side_of :: "graph_node \<Rightarrow> label_side option" where
  "side_of n = map_option gl_side (gn_label n)"

lemma sorted_gap:
  "\<lbrakk>sorted_wrt (\<lambda>a b. a + 24 \<le> b) ys; i < length ys; j < length ys; i \<noteq> j\<rbrakk> \<Longrightarrow> 24 \<le> \<bar>ys ! i - ys ! (j :: nat) :: int\<bar>"
  using sorted_wrt_nth_less [of "\<lambda>a b. a + 24 \<le> b" ys i j] sorted_wrt_nth_less [of "\<lambda>a b. a + 24 \<le> b" ys j i]
  by (cases "i < j") simp_all

definition orthogonal :: "graph_edge \<Rightarrow> bool" where
  "orthogonal e \<longleftrightarrow> (case edge_points e of [p, q] \<Rightarrow> fst p = fst q \<or> snd p = snd q | _ \<Rightarrow> False)"

lemma orthogonal_line: "a = c \<or> b = d \<Longrightarrow> orthogonal \<lparr>edge_points = [(a, b), (c, d)]\<rparr>"
  by (auto simp: orthogonal_def)

lemma orthogonal_ancestor: "orthogonal (ancestor_edge step)"
  unfolding ancestor_edge_def by (rule orthogonal_line) simp

lemma orthogonal_trunk: "list_all orthogonal (trunk_edges bands offset)"
  unfolding trunk_edges_def Let_def by (simp only: list.pred_inject simp_thms) (intro conjI orthogonal_line; simp)

lemma orthogonal_band: "list_all orthogonal (band_edges largest offset b)"
  unfolding band_edges_def Let_def list_all_iff
  by (intro ballI) (auto simp only: list.set set_map insert_iff empty_iff image_iff simp_thms intro!: orthogonal_line split: if_splits)

lemma edges_orthogonal: "e \<in> set (ng_edges (outline D m rows)) \<Longrightarrow> orthogonal e"
  using orthogonal_ancestor orthogonal_trunk orthogonal_band
  by (auto simp: outline_def Let_def split_beta list_all_iff)

lemma spine_gap:
  "zs = take n [- 46, - 92 :: int] @ [0] \<Longrightarrow> n \<le> 2 \<Longrightarrow> i < length zs \<Longrightarrow> j < length zs \<Longrightarrow> i \<noteq> j \<Longrightarrow> 24 \<le> \<bar>zs ! i - zs ! j\<bar>"
proof -
  assume a: "zs = take n [- 46, - 92 :: int] @ [0]" "n \<le> 2" "i < length zs" "j < length zs" "i \<noteq> j"
  then consider "zs = [0]" | "zs = [- 46, 0]" | "zs = [- 46, - 92, 0]" by (cases n; cases "n - 1") auto
  then show ?thesis by cases (use a(3-5) in \<open>auto simp: less_Suc_eq nth_Cons'\<close>)
qed


end
