(* ===== verification/View_Props.thy ===== *)
theory View_Props
  imports Outline_Props
begin

text \<open>
  The treemap and the breadcrumbs of every view model that keeps its invariant: what the tiles show, that the layout
  has a rectangle for each of them, which messages a click publishes, and where the breadcrumbs lead.
\<close>

section \<open>Positive areas\<close>

definition positive :: "f64_bits \<Rightarrow> bool" where
  "positive x \<longleftrightarrow> \<not> f64_nan x \<and> \<not> f64_negative x \<and> 0 < f64_significand x"

lemma positive_not_le_0: "positive x \<Longrightarrow> \<not> f64_le x F64_0"
  by (simp add: f64_le_def f64_ge_def positive_def f64_less_def f64_value_def F64_0_def f64_negative_def f64_nan_def
      f64_exponent_def f64_fraction_def f64_scale_def f64_significand_def Let_def split: if_splits)

lemma round_half_even_lower: "n \<le> num div den \<Longrightarrow> n \<le> round_half_even num den"
  by (auto simp: round_half_even_def Let_def)

lemma unat_word_of_nat64: "v < 2 ^ 64 \<Longrightarrow> unat (word_of_nat v :: 64 word) = v"
  by (simp add: unsigned_of_nat take_bit_nat_eq_self)

lemma positive_bits:
  assumes "0 < v" "v \<le> 2047 * 2 ^ 52"
  shows "positive (word_of_nat v)"
proof -
  have u: "unat (word_of_nat v :: 64 word) = v" using assms(2) by (intro unat_word_of_nat64) simp
  have "v div 2 ^ 52 \<le> 2047" using assms(2) by (metis div_le_mono div_mult_self_is_m zero_less_numeral zero_less_power)
  then have e: "f64_exponent (word_of_nat v) = v div 2 ^ 52" by (simp add: f64_exponent_def u)
  have f: "f64_fraction (word_of_nat v) = v mod 2 ^ 52" by (simp add: f64_fraction_def u)
  have v: "v = v div 2 ^ 52 * 2 ^ 52 + v mod 2 ^ 52" by (simp only: div_mult_mod_eq)
  have "\<not> f64_nan (word_of_nat v)"
  proof
    assume "f64_nan (word_of_nat v)"
    then have "v div 2 ^ 52 = 2047" and "0 < v mod 2 ^ 52" by (simp_all add: f64_nan_def e f)
    then have "v = 2047 * 2 ^ 52 + v mod 2 ^ 52" using v by simp
    then show False using \<open>0 < v mod 2 ^ 52\<close> assms(2) by linarith
  qed
  moreover have "0 < f64_significand (word_of_nat v)" using assms(1) v by (auto simp: f64_significand_def e f)
  moreover have "\<not> f64_negative (word_of_nat v)" using assms(2) by (simp add: f64_negative_def u)
  ultimately show ?thesis by (simp add: positive_def)
qed

lemma positive_round: "0 < n \<Longrightarrow> 0 \<le> scale \<Longrightarrow> positive (f64_round False n 1 scale)"
proof -
  assume n: "0 < n" and scale: "0 \<le> scale"
  note l = bit_length_bounds [OF n]
  define k where "k = max (scale + int (bit_length n) - 53) 0"
  define m where "m = (if scale \<le> k then round_half_even n (2 ^ nat (k - scale)) else round_half_even (n * 2 ^ nat (scale - k)) 1)"
  have "0 < m"
  proof (cases "scale \<le> k")
    case True
    have "nat (k - scale) \<le> bit_length n - 1" using scale l by (auto simp: k_def)
    then have "(2::nat) ^ nat (k - scale) \<le> n" using l by (meson le_trans one_le_numeral power_increasing)
    then have "1 \<le> n div 2 ^ nat (k - scale)" by (simp add: Suc_leI div_greater_zero_iff)
    from round_half_even_lower [OF this] show ?thesis using True by (simp add: m_def)
  next
    case False
    then show ?thesis using n round_half_even_exact [of 1 "n * 2 ^ nat (scale - k)"] by (simp add: m_def)
  qed
  then have "0 < min (nat k * 2 ^ 52 + m) (2047 * 2 ^ 52)" by simp
  then have "positive (word_of_nat (min (nat k * 2 ^ 52 + m) (2047 * 2 ^ 52)))" by (rule positive_bits) simp
  moreover have "f64_round False n 1 scale = word_of_nat (min (nat k * 2 ^ 52 + m) (2047 * 2 ^ 52))"
    using n unfolding f64_round_def Let_def k_def m_def by (simp only: div_by_1 mult_1 if_False less_not_refl3 neq0_conv if_not_P)
  ultimately show ?thesis by simp
qed

lemma positive_infinity: "positive x \<Longrightarrow> f64_inf x \<Longrightarrow> unat x = 2047 * 2 ^ 52"
proof -
  assume "positive x" "f64_inf x"
  then have "unat x < 2 ^ 63" and e: "unat x div 2 ^ 52 mod 2 ^ 11 = 2047" and f: "unat x mod 2 ^ 52 = 0"
    by (simp_all add: positive_def f64_inf_def f64_negative_def f64_exponent_def f64_fraction_def)
  then have "unat x div 2 ^ 52 < 2 ^ 11" by (simp add: less_mult_imp_div_less)
  then have "unat x div 2 ^ 52 = 2047" using e by simp
  then show ?thesis using f div_mult_mod_eq [of "unat x" "2 ^ 52"] by simp
qed

lemma positive_add:
  assumes "positive x" "positive y"
  shows "positive (f64_add x y)"
proof (cases "f64_inf x \<or> f64_inf y")
  case True
  have "x = y" if "f64_inf x" "f64_inf y"
    using positive_infinity [OF assms(1) that(1)] positive_infinity [OF assms(2) that(2)] by (simp add: word_unat_eq_iff)
  then show ?thesis using True assms by (auto simp: f64_add_def positive_def)
next
  case False
  define s where "s = min (f64_scale x) (f64_scale y)"
  define v where "v = f64_value s x + f64_value s y"
  have "0 < v" using assms by (auto simp: v_def f64_value_def positive_def Let_def intro!: add_pos_pos)
  then have "f64_add x y = f64_round False (nat v) 1 (int s)"
    using False assms by (simp add: f64_add_def Let_def positive_def s_def [symmetric] v_def [symmetric])
  then show ?thesis using positive_round [of "nat v" "int s"] \<open>0 < v\<close> by simp
qed

lemma positive_of_u64: "0 < n \<Longrightarrow> positive (f64_of_u64 n)"
  unfolding f64_of_u64_def by (rule positive_round) (simp_all add: word_less_nat_alt)

lemma areas_positive: "list_all positive (areas cells)"
proof -
  have "0 < max b 1" for b :: u64 by (simp add: less_max_iff_disj)
  then show ?thesis by (simp add: areas_def list_all_iff positive_of_u64)
qed

lemma positive_sum: "\<lbrakk>list_all positive xs; positive a\<rbrakk> \<Longrightarrow> positive (foldl f64_add a xs)"
  by (induction xs arbitrary: a) (simp_all add: positive_add)

lemma f64_zero_parts: "\<not> f64_nan F64_0" "\<not> f64_inf F64_0" "f64_scale F64_0 = 0" "f64_value s F64_0 = 0"
  by (simp_all add: F64_0_def f64_nan_def f64_inf_def f64_exponent_def f64_fraction_def f64_scale_def f64_value_def f64_significand_def)

lemma f64_add_0: "positive x \<Longrightarrow> positive (f64_add F64_0 x)"
proof -
  assume x: "positive x"
  show ?thesis
  proof (cases "f64_inf x")
    case True
    then show ?thesis using x by (simp add: f64_add_def f64_zero_parts positive_def)
  next
    case False
    have v: "0 < f64_value 0 x" using x by (simp add: positive_def f64_value_def Let_def)
    then have "f64_add F64_0 x = f64_round False (nat (f64_value 0 x)) 1 0"
      using False x by (simp add: f64_add_def f64_zero_parts positive_def Let_def)
    then show ?thesis using positive_round [of "nat (f64_value 0 x)" 0] v by simp
  qed
qed

section \<open>One rectangle for each tile\<close>

lemma length_lay_row [simp]: "length (lay_row free vertical side thickness row_sum offset row) = length row"
  by (induction free vertical side thickness row_sum offset row rule: lay_row.induct) (simp_all add: Let_def)

lemma length_lay_rows [simp]: "length (lay_rows free ys) = length ys"
proof (induction free ys rule: lay_rows.induct)
  case (2 free first others)
  obtain row row_sum rest where g: "grow_row (f64_max (f64_of_f32 (f32_min (rect_width free) (rect_height free))) (f64_of_u64 1)) [first] first
      (worst_aspect [first] first (f64_max (f64_of_f32 (f32_min (rect_width free) (rect_height free))) (f64_of_u64 1))) others = (row, row_sum, rest)"
    by (metis prod_cases3)
  from grow_row_rest [OF this] have "length row + length rest = length (first # others)" by (metis append_Cons append_Nil length_append)
  then show ?case using 2 [OF refl g [symmetric] refl refl refl]
    by (subst lay_rows.simps) (simp add: g Let_def)
qed (simp add: lay_rows.simps)

lemma squarify_tiles:
  assumes "\<not> f32_le width 0" "\<not> f32_le height 0"
  shows "length (squarify (areas cells) width height) = length cells"
proof (cases cells)
  case Nil
  then show ?thesis by (simp add: squarify_def areas_def)
next
  case (Cons c cs)
  have "positive (foldl f64_add F64_0 (areas cells))"
    using areas_positive [of cells] by (simp add: Cons areas_def positive_sum f64_add_0)
  then show ?thesis using assms positive_not_le_0 by (simp add: squarify_def Let_def) (simp add: areas_def)
qed

section \<open>The tiles\<close>

lemma insert_ranked: "insert_at (partition_point (\<lambda>x. key e \<le> key x) xs) e xs = ranked_insert key e xs"
  by (simp add: insert_at_def partition_point_def ranked_insert_def flip: takeWhile_eq_take dropWhile_eq_drop)

lemma model_children:
  assumes "model_ok m"
  shows "children_by_size m i = filter (\<lambda>c. 0 < subtree_bytes (tree m) c) (children (tree m) i)"
    "descends (subtree_bytes (tree m)) (children_by_size m i)"
proof -
  have d: "descends (subtree_bytes (tree m)) (children (tree m) i)"
    using assms by (simp add: model_ok_def descending_def descends_def)
  show c: "children_by_size m i = filter (\<lambda>c. 0 < subtree_bytes (tree m) c) (children (tree m) i)"
    unfolding children_by_size_def by (rule takeWhile_filter_descends [OF d])
  show "descends (subtree_bytes (tree m)) (children_by_size m i)"
    using d unfolding c by (simp add: descends_def sorted_wrt_filter)
qed

definition child_tile :: "display \<Rightarrow> scan_model \<Rightarrow> u32 \<Rightarrow> treemap_cell" where
  "child_tile D m child = \<lparr>cell_id = child, cell_label = shown_name D (display_name m child),
     cell_bytes = subtree_bytes (tree m) child, cell_drill = (children (tree m) child \<noteq> []), cell_muted = False\<rparr>"

definition files_tile :: "scan_model \<Rightarrow> treemap_cell" where
  "files_tile m = \<lparr>cell_id = focus m, cell_label = own_files_label m, cell_bytes = own_bytes (tree m) (focus m),
     cell_drill = False, cell_muted = True\<rparr>"

lemma treemap_tiles_eq:
  "treemap_tiles D m =
     (let cells = map (child_tile D m) (take LIST_LIMIT (children_by_size m (focus m)))
      in if 0 < own_bytes (tree m) (focus m) then ranked_insert cell_bytes (files_tile m) cells else cells)"
  using insert_ranked [of cell_bytes "files_tile m"]
  by (simp add: treemap_tiles_def child_tile_def [abs_def] Let_def) (simp add: files_tile_def)

lemma tiles_split:
  "filter (\<lambda>c. \<not> cell_muted c) (treemap_tiles D m) = map (child_tile D m) (take LIST_LIMIT (children_by_size m (focus m)))"
  "filter cell_muted (treemap_tiles D m) = (if 0 < own_bytes (tree m) (focus m) then [files_tile m] else [])"
proof -
  have c: "filter cell_muted (map (child_tile D m) xs) = []" "filter (\<lambda>c. \<not> cell_muted c) (map (child_tile D m) xs) = map (child_tile D m) xs" for xs
    by (induction xs) (simp_all add: child_tile_def)
  have w: "filter cell_muted (takeWhile Q (map (child_tile D m) xs)) = []" "filter cell_muted (dropWhile Q (map (child_tile D m) xs)) = []" for Q xs
    by (auto simp: filter_empty_conv child_tile_def dest!: set_takeWhileD set_dropWhileD)
  have r: "filter P (ranked_insert key e xs) = filter P (takeWhile (\<lambda>x. key e \<le> key x) xs) @ filter P [e] @ filter P (dropWhile (\<lambda>x. key e \<le> key x) xs)"
    for P :: "treemap_cell \<Rightarrow> bool" and key e xs by (simp add: ranked_insert_def)
  have j: "filter P (takeWhile Q xs) @ filter P (dropWhile Q xs) = filter P xs" for P Q :: "treemap_cell \<Rightarrow> bool" and xs
    by (metis filter_append takeWhile_dropWhile_id)
  show "filter (\<lambda>c. \<not> cell_muted c) (treemap_tiles D m) = map (child_tile D m) (take LIST_LIMIT (children_by_size m (focus m)))"
    by (simp add: treemap_tiles_eq Let_def r j c) (simp add: files_tile_def j c)
  show "filter cell_muted (treemap_tiles D m) = (if 0 < own_bytes (tree m) (focus m) then [files_tile m] else [])"
    by (simp add: treemap_tiles_eq Let_def r w c) (simp add: files_tile_def w c)
qed

lemma treemap_tiles_descend: "model_ok m \<Longrightarrow> descends cell_bytes (treemap_tiles D m)"
proof -
  assume "model_ok m"
  then have "descends (subtree_bytes (tree m)) (take LIST_LIMIT (children_by_size m (focus m)))"
    by (intro descends_take model_children)
  then have "descends cell_bytes (map (child_tile D m) (take LIST_LIMIT (children_by_size m (focus m))))"
    by (simp add: descends_def sorted_wrt_map child_tile_def)
  then show ?thesis by (simp add: treemap_tiles_eq Let_def descends_ranked_insert)
qed

section \<open>Drawing and clicking\<close>

lemma gather_Some: "list_all (\<lambda>x. x \<noteq> None) xs \<Longrightarrow> gather xs \<noteq> None"
  by (induction xs) auto

lemma draw_treemap_Some:
  assumes "tm_palette tm \<noteq> []" "length (squarify (areas (tm_cells tm)) width height) \<le> length (tm_cells tm)"
  shows "draw_treemap dark tm width height st \<noteq> None"
proof -
  have "draw_tile dark tm h (i, r) \<noteq> None" if "i < length (tm_cells tm)" for h i r
    using that assms(1) by (simp add: draw_tile_def slot_def)
  then have "list_all (\<lambda>x. x \<noteq> None) (map (draw_tile dark tm (tm_hovered st)) (enumerate 0 (squarify (areas (tm_cells tm)) width height)))"
    using assms(2) by (fastforce simp: list_all_iff in_set_enumerate_eq)
  from gather_Some [OF this] show ?thesis by (simp add: draw_treemap_def)
qed

lemma treemap_publishes:
  assumes "treemap_update within instant tm width height cursor event st = (st', Some (Publish msg))"
  shows "event = LeftPressed \<and> (\<exists>i < length (tm_cells tm). tm_hovered st = Some i
    \<and> (msg = NodeSelected (cell_id (tm_cells tm ! i))
       \<or> msg = FocusDirectory (cell_id (tm_cells tm ! i)) \<and> cell_drill (tm_cells tm ! i)
         \<and> (\<exists>earlier. last_click (tm_clicks st) = Some (earlier, i) \<and> (instant - earlier) div 1000000 < 400)
         \<and> last_click (tm_clicks st') = None))"
  using assms
  by (cases event)
    (auto simp: treemap_update_def slot_def click_def Let_def split: option.splits if_splits prod.splits)


section \<open>Breadcrumbs\<close>

fun crumb_id :: "crumb \<Rightarrow> u32 list" where
  "crumb_id (Crumb i _ _) = [i]"
| "crumb_id _ = []"

fun hidden_id :: "crumb \<Rightarrow> u32 list" where
  "hidden_id (Hidden i) = [i]"
| "hidden_id _ = []"

lemma concat_map_concat: "concat (map f (concat (map g xs))) = concat (map (\<lambda>i. concat (map f (g i))) xs)"
  by (induction xs) simp_all

lemma breadcrumbs_lead:
  fixes D m
  defines "chain \<equiv> ancestor_chain m (focus m)" and "crumbs \<equiv> breadcrumbs D m"
  shows "concat (map crumb_id crumbs) = (if length chain \<le> 5 then chain else hd chain # drop (length chain - 3) chain)"
    "concat (map hidden_id crumbs) = (if length chain \<le> 5 then [] else [chain ! (length chain - 4)])"
proof -
  let ?as = "ancestors m (focus m)"
  have as: "length ?as = length chain" "i < length chain \<Longrightarrow> fst (?as ! i) = chain ! i" for i
    by (simp_all add: ancestors_def chain_def)
  have at: "concat (map crumb_id (crumb_at D m ?as i)) = (if length chain \<le> 5 \<or> i = 0 \<or> length chain - 3 \<le> i then [chain ! i] else [])"
    "concat (map hidden_id (crumb_at D m ?as i)) = (if length chain \<le> 5 \<or> i \<noteq> length chain - 3 then [] else [chain ! (i - 1)])"
    if "i < length chain" for i
    using that by (auto simp: crumb_at_def TAIL_def Let_def as)
  have c: "concat (map f crumbs) = concat (map (\<lambda>i. concat (map f (crumb_at D m ?as i))) [0..<length chain])" for f :: "crumb \<Rightarrow> u32 list"
    by (simp add: crumbs_def breadcrumbs_def Let_def as(1) concat_map_concat)
  have split: "[0..<length chain] = 0 # [1..<length chain - 3] @ [length chain - 3..<length chain]" if "5 < length chain"
  proof -
    have "[0..<length chain] = 0 # [1..<length chain]" using that upt_conv_Cons [of 0 "length chain"] by (cases chain) simp_all
    moreover have "[1..<length chain] = [1..<length chain - 3] @ [length chain - 3..<length chain]"
      using upt_add_eq_append [of 1 "length chain - 3" 3] that by simp
    ultimately show ?thesis by simp
  qed
  have single: "concat (map (\<lambda>i. [f i]) xs) = map f xs" for f :: "nat \<Rightarrow> u32" and xs by (induction xs) simp_all
  have none: "concat (map (\<lambda>i. []) xs) = ([] :: u32 list)" for xs :: "nat list" by (induction xs) simp_all
  show "concat (map crumb_id crumbs) = (if length chain \<le> 5 then chain else hd chain # drop (length chain - 3) chain)"
  proof (cases "length chain \<le> 5")
    case True
    then have "concat (map crumb_id crumbs) = concat (map (\<lambda>i. [chain ! i]) [0..<length chain])"
      unfolding c by (intro arg_cong [where f = concat] map_cong) (simp_all add: at)
    then show ?thesis using True by (simp only: single map_nth if_True)
  next
    case False
    then have n: "5 < length chain" and ne: "chain \<noteq> []" by auto
    have "concat (map crumb_id (crumb_at D m ?as i)) = []" if "i \<in> set [1..<length chain - 3]" for i
    proof -
      have "1 \<le> i" "i < length chain - 3" "i < length chain" using that by auto
      then show ?thesis using n by (subst at(1)) simp_all
    qed
    then have "map (\<lambda>i. concat (map crumb_id (crumb_at D m ?as i))) [1..<length chain - 3] = map (\<lambda>i. []) [1..<length chain - 3]"
      by (rule map_cong [OF refl])
    moreover have "map (\<lambda>i. concat (map crumb_id (crumb_at D m ?as i))) [length chain - 3..<length chain]
        = map (\<lambda>i. [chain ! i]) [length chain - 3..<length chain]"
      using n by (intro map_cong) (auto simp: at)
    moreover have "concat (map crumb_id (crumb_at D m ?as 0)) = [hd chain]"
      using n ne at(1) [of 0] by (simp add: hd_conv_nth)
    moreover have "map ((!) chain) [length chain - 3..<length chain] = drop (length chain - 3) chain"
      by (simp add: list_eq_iff_nth_eq)
    ultimately have "concat (map crumb_id crumbs) = hd chain # drop (length chain - 3) chain"
      unfolding c split [OF n] by (simp only: list.map map_append concat.simps concat_append single none append_Nil append_Cons)
    then show ?thesis using False by (simp only: if_False)
  qed
  show "concat (map hidden_id crumbs) = (if length chain \<le> 5 then [] else [chain ! (length chain - 4)])"
  proof (cases "length chain \<le> 5")
    case True
    then have "concat (map hidden_id crumbs) = concat (map (\<lambda>i. []) [0..<length chain])"
      unfolding c by (intro arg_cong [where f = concat] map_cong) (simp_all add: at)
    then show ?thesis using True by (simp only: none if_True)
  next
    case False
    then have n: "5 < length chain" and ne: "chain \<noteq> []" by auto
    have "concat (map hidden_id (crumb_at D m ?as i)) = []" if "i \<in> set [1..<length chain - 3]" for i
    proof -
      have "1 \<le> i" "i < length chain - 3" "i < length chain" using that by auto
      then show ?thesis using n by (subst at(2)) simp_all
    qed
    then have "map (\<lambda>i. concat (map hidden_id (crumb_at D m ?as i))) [1..<length chain - 3] = map (\<lambda>i. []) [1..<length chain - 3]"
      by (rule map_cong [OF refl])
    moreover have "[length chain - 3..<length chain] = [length chain - 3, length chain - 2, length chain - 1]"
      using n by (simp add: upt_conv_Cons) arith
    moreover have "concat (map hidden_id (crumb_at D m ?as 0)) = []"
      "concat (map hidden_id (crumb_at D m ?as (length chain - 3))) = [chain ! (length chain - 4)]"
      "concat (map hidden_id (crumb_at D m ?as (length chain - 2))) = []"
      "concat (map hidden_id (crumb_at D m ?as (length chain - 1))) = []"
      using n by (subst at(2); force)+
    ultimately have "concat (map hidden_id crumbs) = [chain ! (length chain - 4)]"
      unfolding c split [OF n] by (simp only: list.map map_append concat.simps concat_append none append_Nil append_Nil2)
    then show ?thesis using False by (simp only: if_False)
  qed
qed

end
