(* ===== verification/View_Demo.thy ===== *)
theory View_Demo
  imports View_Props Scan_Demo Desktop_Props
begin

text \<open>The treemap and the outline of a small scan, and the witnesses of their properties.\<close>

definition demo_display :: display where
  "demo_display = \<lparr>dark_mode = False, hide_names = False, hidden_terms = []\<rparr>"

lemma demo_focused:
  obtains m where "apply_events demo_events (new_model limit) = Some m" "model_ok (focus_directory 0 m)"
    "children_by_size (focus_directory 0 m) 0 \<noteq> []"
proof -
  obtain m where m: "apply_events demo_events (new_model limit) = Some m" "model_ok m"
    using apply_events_ok [OF model_ok_new demo_events_ok(1)] by blast
  let ?ds = "concat (map event_dirs demo_events)"
  have "tree_batches (dir_batches demo_events) empty_tree = Some (tree m)"
    using apply_events_tree [OF m(1)] by (simp add: new_model_def)
  moreover have "parents_first [] (concat (dir_batches demo_events))" using demo_events_ok(3) by (simp add: concat_dir_batches)
  ultimately have h: "holds ?ds (tree m)" using tree_batches_holds by (fastforce simp: concat_dir_batches)
  have ds: "?ds = [demo_root_dir, demo_sub_dir, demo_lost_dir]" by (simp add: demo_events_def event_dirs_def)
  let ?f = "parent_of ?ds"
  have up: "?f 1 = Some 0" by (simp add: ds parent_of_def demo_root_dir_def demo_sub_dir_def demo_dir_def)
  have "1 \<in> set (climb ?f MAX_DEPTH 1)" by (simp add: MAX_DEPTH_def climb.simps(2) [of _ 511, simplified])
  then have "60 \<le> total_bytes ?ds 1"
    by (simp add: total_bytes_def ds) (simp add: demo_root_dir_def demo_sub_dir_def demo_lost_dir_def demo_dir_def)
  then have b: "0 < subtree_bytes (tree m) 1" using h by (simp add: holds_def word_less_nat_alt)
  have "parent (tree m) 1 = Some 0" using h up by (simp add: holds_def)
  then have "1 \<in> set (children (tree m) 0)" using h by (simp add: holds_def tree_ok_def family_def)
  then have "1 \<in> set (children_by_size m 0)" using b model_children(1) [OF m(2)] by simp
  then have "children_by_size (focus_directory 0 m) 0 \<noteq> []" by (auto simp: children_by_size_def focus_directory_def)
  then show thesis using that m by simp
qed

lemma insert_at_ne: "insert_at i x xs \<noteq> []"
  by (simp add: insert_at_def)



end
