(* ===== verification/F32_Order.thy ===== *)
theory F32_Order
  imports F32_Exact
begin

text \<open>
  The order of \<open>f32\<close> numbers and of rounded results: a result lies on the same side of every number as the
  exact value it is rounded from. The magnitudes are ordered like their bit patterns.
\<close>

section \<open>Magnitudes\<close>

definition f32_rank :: "f32_bits \<Rightarrow> nat" where
  \<comment> \<open>the bits without the sign\<close>
  "f32_rank x = unat x mod 2 ^ 31"

definition f32_magnitude :: "f32_bits \<Rightarrow> nat" where
  \<comment> \<open>in units of \<open>2 ^ - 149\<close>; infinity comes after the largest number\<close>
  "f32_magnitude x = f32_significand x * 2 ^ f32_scale x"

definition f32_units :: "f32_bits \<Rightarrow> int" where
  "f32_units x = (if f32_negative x then - int (f32_magnitude x) else int (f32_magnitude x))"

lemma f32_rank_parts:
  "f32_rank x = f32_scale x * 2 ^ 23 + f32_significand x"
  "0 < f32_scale x \<Longrightarrow> 2 ^ 23 \<le> f32_significand x"
  "f32_scale x = f32_rank x div 2 ^ 23 - 1"
proof -
  have e: "f32_exponent x = f32_rank x div 2 ^ 23"
    using mod_mult2_eq [of "unat x" "2 ^ 23" "2 ^ 8"] by (simp add: f32_exponent_def f32_rank_def)
  have f: "f32_fraction x = f32_rank x mod 2 ^ 23"
    unfolding f32_fraction_def f32_rank_def by (simp add: mod_mod_cancel)
  show "f32_scale x = f32_rank x div 2 ^ 23 - 1" by (simp add: f32_scale_def e)
  show "0 < f32_scale x \<Longrightarrow> 2 ^ 23 \<le> f32_significand x"
    by (auto simp: f32_scale_def f32_significand_def)
  have "f32_rank x = f32_exponent x * 2 ^ 23 + f32_fraction x" unfolding e f by (simp only: div_mult_mod_eq)
  then show "f32_rank x = f32_scale x * 2 ^ 23 + f32_significand x"
    by (cases "f32_exponent x") (simp_all add: f32_scale_def f32_significand_def)
qed

lemma f32_nan_rank: "f32_nan x \<longleftrightarrow> 255 * 2 ^ 23 < f32_rank x"
proof -
  have b: "f32_rank x < 2 ^ 31" by (simp add: f32_rank_def)
  have e: "f32_exponent x = f32_rank x div 2 ^ 23"
    using mod_mult2_eq [of "unat x" "2 ^ 23" "2 ^ 8"] by (simp add: f32_exponent_def f32_rank_def)
  have f: "f32_fraction x = f32_rank x mod 2 ^ 23"
    unfolding f32_fraction_def f32_rank_def by (simp add: mod_mod_cancel)
  have "f32_rank x = f32_rank x div 2 ^ 23 * 2 ^ 23 + f32_rank x mod 2 ^ 23" by (simp only: div_mult_mod_eq)
  moreover have "f32_rank x mod 2 ^ 23 < 2 ^ 23" by (rule mod_less_divisor) simp
  moreover define q r where "q = f32_rank x div 2 ^ 23" and "r = f32_rank x mod 2 ^ 23"
  ultimately have "f32_rank x = q * 2 ^ 23 + r" "r < 2 ^ 23" by simp_all
  moreover from this b have "q \<le> 255" by simp
  ultimately show ?thesis unfolding f32_nan_def e f q_def [symmetric] r_def [symmetric] by (cases "q = 255") auto
qed

lemma f32_magnitude_mono: "f32_rank x \<le> f32_rank y \<Longrightarrow> f32_magnitude x \<le> f32_magnitude y"
proof -
  assume le: "f32_rank x \<le> f32_rank y"
  then have s: "f32_scale x \<le> f32_scale y"
    using div_le_mono [OF le, of "2 ^ 23"] by (simp add: f32_rank_parts(3) diff_le_mono)
  show ?thesis
  proof (cases "f32_scale x = f32_scale y")
    case True
    then show ?thesis using le by (simp add: f32_magnitude_def f32_rank_parts(1))
  next
    case False
    with s have lt: "Suc (f32_scale x) \<le> f32_scale y" by simp
    have "f32_magnitude x \<le> 2 ^ 23 * 2 ^ Suc (f32_scale x)"
      using f32_significand_less [of x] by (simp add: f32_magnitude_def)
    also have "\<dots> \<le> 2 ^ 23 * 2 ^ f32_scale y" using lt by (intro mult_left_mono power_increasing) simp_all
    also have "\<dots> \<le> f32_magnitude y" using f32_rank_parts(2) [of y] lt by (simp add: f32_magnitude_def)
    finally show ?thesis .
  qed
qed

lemma f32_value_units: "s \<le> f32_scale x \<Longrightarrow> f32_value s x * 2 ^ s = f32_units x"
  by (simp add: f32_value_def f32_units_def f32_magnitude_def Let_def mult.assoc flip: power_add)

lemma f32_less_units: "f32_less x y \<longleftrightarrow> \<not> f32_nan x \<and> \<not> f32_nan y \<and> f32_units x < f32_units y"
proof -
  let ?s = "min (f32_scale x) (f32_scale y)"
  have "f32_value ?s x < f32_value ?s y \<longleftrightarrow> f32_value ?s x * 2 ^ ?s < f32_value ?s y * 2 ^ ?s" by simp
  then show ?thesis by (simp add: f32_less_def Let_def f32_value_units)
qed

lemma f32_le_units: "f32_le x y \<longleftrightarrow> \<not> f32_nan x \<and> \<not> f32_nan y \<and> f32_units x \<le> f32_units y"
  by (auto simp: f32_le_def f32_less_units)

section \<open>Rounding\<close>

lemma div_mod_scale: "0 < c \<Longrightarrow> round_half_even (c * x) (c * y) = round_half_even x y"
proof -
  assume "0 < c"
  moreover have "2 * (c * z) = c * (2 * z)" for z :: nat by simp
  ultimately show ?thesis by (simp add: round_half_even_def Let_def flip: mult_mod_right)
qed

lemma round_half_even_le: "a \<le> c * d \<Longrightarrow> 0 < d \<Longrightarrow> round_half_even a d \<le> c"
proof -
  assume a: "a \<le> c * d" "0 < d"
  then have q: "a div d \<le> c" by (metis div_le_mono nonzero_mult_div_cancel_right less_not_refl)
  show ?thesis
  proof (cases "a div d = c")
    case True
    then have "c * d + a mod d = a" using div_mult_mod_eq [of a d] by simp
    then have "a mod d = 0" using a(1) by simp
    then show ?thesis using a(2) True by (simp add: round_half_even_def)
  qed (use q in \<open>simp add: round_half_even_def Let_def\<close>)
qed

lemma round_half_even_ge: "c * d \<le> a \<Longrightarrow> 0 < d \<Longrightarrow> c \<le> round_half_even a d"
  using less_eq_div_iff_mult_less_eq [of d c a] by (simp add: round_half_even_def Let_def le_Suc_eq)

definition numerator :: "nat \<Rightarrow> int \<Rightarrow> nat" where
  \<comment> \<open>\<open>num / den * 2 ^ scale\<close> is the fraction \<open>numerator num scale / denominator den scale\<close>\<close>
  "numerator num scale = num * 2 ^ nat scale"

definition denominator :: "nat \<Rightarrow> int \<Rightarrow> nat" where
  "denominator den scale = den * 2 ^ nat (- scale)"

lemma round_at:
  assumes "0 < den" "0 \<le> k"
  shows "(if scale \<le> k then round_half_even num (den * 2 ^ nat (k - scale)) else round_half_even (num * 2 ^ nat (scale - k)) den)
    = round_half_even (numerator num scale) (denominator den scale * 2 ^ nat k)"
proof (cases "scale \<le> k")
  case True
  have "(2::nat) ^ nat scale * 2 ^ nat (k - scale) = 2 ^ nat (- scale) * 2 ^ nat k"
    using True assms(2) by (simp add: nat_add_distrib flip: power_add)
  then have "denominator den scale * 2 ^ nat k = 2 ^ nat scale * (den * 2 ^ nat (k - scale))"
    by (simp add: denominator_def ac_simps)
  then show ?thesis using True div_mod_scale [of "2 ^ nat scale" num "den * 2 ^ nat (k - scale)"]
    by (simp add: numerator_def mult.commute)
next
  case False
  then have s: "nat scale = nat k + nat (scale - k)" "nat (- scale) = 0" using assms(2) by simp_all
  then have "numerator num scale = 2 ^ nat k * (num * 2 ^ nat (scale - k))" "denominator den scale * 2 ^ nat k = 2 ^ nat k * den"
    by (simp_all add: numerator_def denominator_def power_add)
  then show ?thesis using False by (simp only: if_False div_mod_scale zero_less_power zero_less_numeral)
qed

lemma fraction_bounds:
  fixes scale :: int and num den n :: nat
  assumes "0 < den" "num div den \<noteq> 0"
  defines "l \<equiv> scale + int (bit_length (num div den))"
  shows "int n \<le> l - 1 \<Longrightarrow> 2 ^ n * denominator den scale \<le> numerator num scale"
    "l \<le> int n \<Longrightarrow> numerator num scale < 2 ^ n * denominator den scale"
proof -
  define b where "b = bit_length (num div den)"
  have q: "2 ^ (b - 1) \<le> num div den" "num div den < 2 ^ b" "0 < b"
    using bit_length_bounds [of "num div den"] assms(2) by (auto simp: b_def)
  have low: "2 ^ (b - 1) * den \<le> num" using q(1) assms(1) by (simp add: less_eq_div_iff_mult_less_eq)
  have high: "num < 2 ^ b * den" using q(2) assms(1) by (simp add: div_less_iff_less_mult)
  show "int n \<le> l - 1 \<Longrightarrow> 2 ^ n * denominator den scale \<le> numerator num scale"
  proof -
    assume "int n \<le> l - 1"
    then have "n + nat (- scale) \<le> (b - 1) + nat scale" using q(3) by (simp add: l_def b_def)
    then have "(2::nat) ^ (n + nat (- scale)) * den \<le> 2 ^ ((b - 1) + nat scale) * den" by (intro mult_right_mono power_increasing) simp_all
    also have "\<dots> \<le> num * 2 ^ nat scale" using low by (simp add: power_add mult.commute mult.left_commute)
    finally show ?thesis by (simp add: numerator_def denominator_def power_add ac_simps)
  qed
  show "l \<le> int n \<Longrightarrow> numerator num scale < 2 ^ n * denominator den scale"
  proof -
    assume "l \<le> int n"
    then have "b + nat scale \<le> n + nat (- scale)" by (simp add: l_def b_def)
    then have le: "(2::nat) ^ (b + nat scale) * den \<le> 2 ^ (n + nat (- scale)) * den" by (intro mult_right_mono power_increasing) simp_all
    have "num * 2 ^ nat scale < 2 ^ b * den * 2 ^ nat scale" using high by simp
    also have "\<dots> \<le> 2 ^ (n + nat (- scale)) * den" using le by (simp add: power_add ac_simps)
    finally show ?thesis by (simp add: numerator_def denominator_def power_add ac_simps)
  qed
qed

lemma f32_round_at:
  assumes "0 < den" "num \<noteq> 0 \<Longrightarrow> num div den \<noteq> 0"
  obtains k m where "f32_round negative num den scale = word_of_nat (if negative then 2 ^ 31 + m else m)"
    "m = (if num = 0 then 0 else min (k * 2 ^ 23 + round_half_even (numerator num scale) (denominator den scale * 2 ^ k)) (255 * 2 ^ 23))"
    "num \<noteq> 0 \<longrightarrow> numerator num scale < 2 ^ (k + 24) * denominator den scale"
    "num \<noteq> 0 \<and> 0 < k \<longrightarrow> 2 ^ (k + 23) * denominator den scale \<le> numerator num scale"
proof
  define l where "l = scale + int (bit_length (num div den))"
  define k where "k = nat (max (l - 24) 0)"
  show "f32_round negative num den scale = word_of_nat (if negative
      then 2 ^ 31 + (if num = 0 then 0 else min (k * 2 ^ 23 + round_half_even (numerator num scale) (denominator den scale * 2 ^ k)) (255 * 2 ^ 23))
      else (if num = 0 then 0 else min (k * 2 ^ 23 + round_half_even (numerator num scale) (denominator den scale * 2 ^ k)) (255 * 2 ^ 23)))"
    unfolding f32_round_def Let_def l_def [symmetric] k_def
    by (simp only: round_at [OF assms(1) max.cobounded2])
  show "num \<noteq> 0 \<longrightarrow> numerator num scale < 2 ^ (k + 24) * denominator den scale"
    by (intro impI fraction_bounds(2)) (use assms in \<open>simp_all add: k_def l_def\<close>)
  show "num \<noteq> 0 \<and> 0 < k \<longrightarrow> 2 ^ (k + 23) * denominator den scale \<le> numerator num scale"
    by (intro impI fraction_bounds(1)) (use assms in \<open>auto simp: k_def l_def\<close>)
qed simp

lemma f32_word_parts:
  assumes "m \<le> 255 * 2 ^ 23"
  shows "f32_rank (word_of_nat (if negative then 2 ^ 31 + m else m)) = m"
    "f32_negative (word_of_nat (if negative then 2 ^ 31 + m else m)) = negative"
    "\<not> f32_nan (word_of_nat (if negative then 2 ^ 31 + m else m))"
proof -
  have "unat (word_of_nat (if negative then 2 ^ 31 + m else m) :: f32_bits) = (if negative then 2 ^ 31 + m else m)"
    using assms by (intro unat_word_of_nat) simp
  then show "f32_rank (word_of_nat (if negative then 2 ^ 31 + m else m)) = m"
    "f32_negative (word_of_nat (if negative then 2 ^ 31 + m else m)) = negative"
    using assms by (simp_all add: f32_rank_def f32_negative_def)
  then show "\<not> f32_nan (word_of_nat (if negative then 2 ^ 31 + m else m))" using assms by (simp add: f32_nan_rank)
qed

lemma f32_round_sandwich:
  fixes scale :: int and num den :: nat and negative :: bool
  assumes "0 < den" "num \<noteq> 0 \<Longrightarrow> num div den \<noteq> 0"
  defines "r \<equiv> f32_round negative num den scale"
  shows "\<not> f32_nan r" "f32_negative r = negative"
    "numerator num scale \<le> f32_magnitude x * denominator den scale \<Longrightarrow> f32_magnitude r \<le> f32_magnitude x"
    "f32_magnitude x * denominator den scale \<le> numerator num scale \<Longrightarrow> \<not> f32_nan x \<Longrightarrow> f32_magnitude x \<le> f32_magnitude r"
proof -
  let ?A = "numerator num scale" and ?B = "denominator den scale"
  obtain k m where km: "r = word_of_nat (if negative then 2 ^ 31 + m else m)"
    "m = (if num = 0 then 0 else min (k * 2 ^ 23 + round_half_even ?A (?B * 2 ^ k)) (255 * 2 ^ 23))"
    "num \<noteq> 0 \<longrightarrow> ?A < 2 ^ (k + 24) * ?B" "num \<noteq> 0 \<and> 0 < k \<longrightarrow> 2 ^ (k + 23) * ?B \<le> ?A"
    unfolding r_def by (rule f32_round_at [OF assms(1,2), where negative = negative and scale = scale]) blast
  have "m \<le> 255 * 2 ^ 23" by (simp add: km(2))
  note word = f32_word_parts [OF this, of negative, folded km(1)]
  show "\<not> f32_nan r" "f32_negative r = negative" by (fact word)+
  have B: "0 < ?B" using assms(1) by (simp add: denominator_def)
  let ?s = "f32_scale x" and ?S = "f32_significand x"
  have S: "?S < 2 ^ 24" "0 < ?s \<Longrightarrow> 2 ^ 23 \<le> ?S" by (fact f32_significand_less f32_rank_parts(2))+
  show "f32_magnitude r \<le> f32_magnitude x" if le: "?A \<le> f32_magnitude x * ?B"
  proof (intro f32_magnitude_mono, cases "num = 0")
    case False
    have "k \<le> ?s"
    proof (rule ccontr)
      assume "\<not> k \<le> ?s"
      then have "(2::nat) ^ (24 + ?s) * ?B \<le> 2 ^ (k + 23) * ?B" by (intro mult_right_mono power_increasing) simp_all
      also have "\<dots> \<le> ?A" using km(4) False \<open>\<not> k \<le> ?s\<close> by simp
      also have "\<dots> \<le> f32_magnitude x * ?B" by (fact le)
      also have "\<dots> < 2 ^ (24 + ?s) * ?B" using S(1) B by (simp add: f32_magnitude_def power_add)
      finally show False by simp
    qed
    moreover have "round_half_even ?A (?B * 2 ^ k) \<le> ?S" if "k = ?s"
      using le B that by (intro round_half_even_le) (simp_all add: f32_magnitude_def ac_simps)
    moreover have "round_half_even ?A (?B * 2 ^ k) \<le> 2 ^ 24"
      using km(3) False B by (intro round_half_even_le) (simp_all add: power_add ac_simps)
    ultimately have "k * 2 ^ 23 + round_half_even ?A (?B * 2 ^ k) \<le> ?s * 2 ^ 23 + ?S"
      using S(2) by (cases "k = ?s") auto
    then show "f32_rank r \<le> f32_rank x" by (auto simp: word km(2) f32_rank_parts(1) [of x] min_le_iff_disj)
  qed (simp add: word km(2))
  show "f32_magnitude x \<le> f32_magnitude r" if ge: "f32_magnitude x * ?B \<le> ?A" "\<not> f32_nan x"
  proof (cases "num = 0")
    case True
    then show ?thesis using ge B by (simp add: numerator_def)
  next
    case False
    have "?s \<le> k"
    proof (rule ccontr)
      assume "\<not> ?s \<le> k"
      then have "(2::nat) ^ (k + 24) * ?B \<le> 2 ^ (23 + ?s) * ?B" by (intro mult_right_mono power_increasing) simp_all
      also have "\<dots> \<le> f32_magnitude x * ?B" using S(2) \<open>\<not> ?s \<le> k\<close> by (simp add: f32_magnitude_def power_add)
      also have "\<dots> \<le> ?A" by (fact ge)
      also have "\<dots> < 2 ^ (k + 24) * ?B" using km(3) False by simp
      finally show False by simp
    qed
    moreover have "?S \<le> round_half_even ?A (?B * 2 ^ k)" if "k = ?s"
      using ge B that by (intro round_half_even_ge) (simp_all add: f32_magnitude_def ac_simps)
    moreover have "2 ^ 23 \<le> round_half_even ?A (?B * 2 ^ k)" if "0 < k"
      using km(4) False B that by (intro round_half_even_ge) (simp_all add: power_add ac_simps)
    ultimately have "?s * 2 ^ 23 + ?S \<le> k * 2 ^ 23 + round_half_even ?A (?B * 2 ^ k)"
      using S(1) by (cases "k = ?s") auto
    then have "f32_rank x \<le> k * 2 ^ 23 + round_half_even ?A (?B * 2 ^ k)" unfolding f32_rank_parts(1) [of x] .
    then have "f32_rank x \<le> f32_rank r" using ge(2) False by (simp add: word km(2) f32_nan_rank)
    then show ?thesis by (rule f32_magnitude_mono)
  qed
qed

lemma round_half_even_mono: "a \<le> b \<Longrightarrow> 0 < d \<Longrightarrow> round_half_even a d \<le> round_half_even b d"
proof -
  assume ab: "a \<le> b" "0 < d"
  then have q: "a div d \<le> b div d" by (simp add: div_le_mono)
  show ?thesis
  proof (cases "a div d = b div d")
    case True
    have "a = a div d * d + a mod d" "b = b div d * d + b mod d" by simp_all
    then have "a mod d \<le> b mod d" using ab(1) unfolding True by linarith
    then show ?thesis using True by (auto simp: round_half_even_def Let_def)
  qed (use q in \<open>auto simp: round_half_even_def Let_def\<close>)
qed

lemma f32_round_mono:
  assumes "0 < den" "a \<noteq> 0 \<Longrightarrow> a div den \<noteq> 0" "a \<le> b"
  shows "f32_magnitude (f32_round False a den scale) \<le> f32_magnitude (f32_round False b den scale)"
proof (cases "a = 0")
  case True
  then have "b \<noteq> 0 \<Longrightarrow> numerator a scale \<le> 0" by (simp add: numerator_def)
  then show ?thesis using True by (simp add: f32_round_def f32_magnitude_def f32_significand_def f32_exponent_def f32_fraction_def)
next
  case False
  let ?A = "numerator a scale" and ?A' = "numerator b scale" and ?B = "denominator den scale"
  have le: "?A \<le> ?A'" "0 < ?B" using assms by (simp_all add: numerator_def denominator_def)
  have b: "b \<noteq> 0 \<Longrightarrow> b div den \<noteq> 0" using assms False div_le_mono [OF assms(3), of den] by fastforce
  obtain k m where x: "f32_round False a den scale = word_of_nat (if False then 2 ^ 31 + m else m)"
    "m = (if a = 0 then 0 else min (k * 2 ^ 23 + round_half_even ?A (?B * 2 ^ k)) (255 * 2 ^ 23))"
    "a \<noteq> 0 \<longrightarrow> ?A < 2 ^ (k + 24) * ?B" "a \<noteq> 0 \<and> 0 < k \<longrightarrow> 2 ^ (k + 23) * ?B \<le> ?A"
    by (rule f32_round_at [OF assms(1,2), where negative = False and scale = scale]) blast
  obtain k' m' where y: "f32_round False b den scale = word_of_nat (if False then 2 ^ 31 + m' else m')"
    "m' = (if b = 0 then 0 else min (k' * 2 ^ 23 + round_half_even ?A' (?B * 2 ^ k')) (255 * 2 ^ 23))"
    "b \<noteq> 0 \<longrightarrow> ?A' < 2 ^ (k' + 24) * ?B" "b \<noteq> 0 \<and> 0 < k' \<longrightarrow> 2 ^ (k' + 23) * ?B \<le> ?A'"
    by (rule f32_round_at [OF assms(1) b, where negative = False and scale = scale]) blast
  have nz: "b \<noteq> 0" using False assms(3) by simp
  have "k \<le> k'"
  proof (rule ccontr)
    assume "\<not> k \<le> k'"
    then have "(2::nat) ^ (k' + 24) * ?B \<le> 2 ^ (k + 23) * ?B" by (intro mult_right_mono power_increasing) simp_all
    moreover have "2 ^ (k + 23) * ?B \<le> ?A" using x(4) False \<open>\<not> k \<le> k'\<close> by simp
    moreover have "?A' < 2 ^ (k' + 24) * ?B" using y(3) nz by simp
    ultimately show False using le(1) by linarith
  qed
  moreover have "round_half_even ?A (?B * 2 ^ k) \<le> round_half_even ?A' (?B * 2 ^ k)" using le by (intro round_half_even_mono) simp_all
  moreover have "round_half_even ?A (?B * 2 ^ k) \<le> 2 ^ 24"
    using x(3) False le(2) by (intro round_half_even_le) (simp_all add: power_add ac_simps)
  moreover have "2 ^ 23 \<le> round_half_even ?A' (?B * 2 ^ k')" if "0 < k'"
    using y(4) nz le(2) that by (intro round_half_even_ge) (simp_all add: power_add ac_simps)
  ultimately have "k * 2 ^ 23 + round_half_even ?A (?B * 2 ^ k) \<le> k' * 2 ^ 23 + round_half_even ?A' (?B * 2 ^ k')"
    by (cases "k = k'") auto
  then have m: "m \<le> m'" "m \<le> 255 * 2 ^ 23" "m' \<le> 255 * 2 ^ 23" using x(2) y(2) False nz by auto
  show ?thesis
    by (rule f32_magnitude_mono) (use m x(1) y(1) f32_word_parts(1) [of m False] f32_word_parts(1) [of m' False] in simp)
qed

section \<open>Operations\<close>

definition f32_lowest :: "f32_bits \<Rightarrow> bool" where
  \<comment> \<open>negative infinity\<close>
  "f32_lowest x \<longleftrightarrow> f32_inf x \<and> f32_negative x"

lemma f32_inf_rank: "f32_inf x \<longleftrightarrow> f32_rank x = 255 * 2 ^ 23"
proof -
  have e: "f32_exponent x = f32_rank x div 2 ^ 23"
    using mod_mult2_eq [of "unat x" "2 ^ 23" "2 ^ 8"] by (simp add: f32_exponent_def f32_rank_def)
  have f: "f32_fraction x = f32_rank x mod 2 ^ 23"
    unfolding f32_fraction_def f32_rank_def by (simp add: mod_mod_cancel)
  have "f32_rank x = f32_rank x div 2 ^ 23 * 2 ^ 23 + f32_rank x mod 2 ^ 23" by (simp only: div_mult_mod_eq)
  then show ?thesis unfolding f32_inf_def e f by auto
qed

lemma f32_inf_magnitude: "\<not> f32_nan x \<Longrightarrow> f32_inf x \<longleftrightarrow> 2 ^ 277 \<le> f32_magnitude x"
proof -
  assume n: "\<not> f32_nan x"
  have "f32_magnitude x = 2 ^ 277" if "f32_inf x"
    using that by (simp add: f32_inf_def f32_magnitude_def f32_significand_def f32_scale_def)
  moreover have "f32_magnitude x < 2 ^ 277" if "\<not> f32_inf x"
  proof -
    have "f32_rank x < 255 * 2 ^ 23" using n that by (simp add: f32_nan_rank f32_inf_rank)
    then have "f32_scale x \<le> 253" by (simp add: f32_rank_parts(3))
    then have "(2::nat) ^ f32_scale x \<le> 2 ^ 253" by (intro power_increasing) simp_all
    moreover have "f32_significand x < 2 ^ 24" by (rule f32_significand_less)
    ultimately have "f32_magnitude x < 2 ^ 24 * 2 ^ 253" unfolding f32_magnitude_def by (intro mult_less_le_imp_less) simp_all
    then show ?thesis by simp
  qed
  ultimately show ?thesis by force
qed

lemma f32_inf_unique: "\<lbrakk>f32_inf x; f32_inf y; f32_negative x = f32_negative y\<rbrakk> \<Longrightarrow> x = y"
proof -
  have "unat z = (if f32_negative z then 2 ^ 31 else 0) + f32_rank z" for z
  proof -
    have "n = (if 2 ^ 31 \<le> n then 2 ^ 31 else 0) + n mod 2 ^ 31" if "n < 2 ^ 32" for n :: nat
      using that by (auto simp: le_mod_geq)
    from this [of "unat z"] show ?thesis using unsigned_less [of z] by (simp add: f32_negative_def f32_rank_def)
  qed
  then show "\<lbrakk>f32_inf x; f32_inf y; f32_negative x = f32_negative y\<rbrakk> \<Longrightarrow> x = y" by (simp add: word_unat_eq_iff f32_inf_rank)
qed

lemma f32_lowest_units: "\<not> f32_nan x \<Longrightarrow> f32_lowest x \<longleftrightarrow> f32_units x \<le> - (2 ^ 277)"
proof -
  assume "\<not> f32_nan x"
  moreover have "f32_units x \<le> - (2 ^ 277) \<longleftrightarrow> f32_negative x \<and> 2 ^ 277 \<le> f32_magnitude x"
  proof (cases "f32_negative x")
    case True
    have "int (2 ^ 277) \<le> int (f32_magnitude x) \<longleftrightarrow> 2 ^ 277 \<le> f32_magnitude x" by (rule of_nat_le_iff)
    then show ?thesis using True by (simp only: f32_units_def if_True neg_le_iff_le of_nat_power of_nat_numeral simp_thms)
  next
    case False
    have "0 \<le> int (f32_magnitude x)" "(0 :: int) < 2 ^ 277" by (simp_all only: of_nat_0_le_iff zero_less_power zero_less_numeral)
    then have "\<not> int (f32_magnitude x) \<le> - (2 ^ 277)" by linarith
    then show ?thesis using False by (simp only: f32_units_def if_False simp_thms)
  qed
  ultimately show ?thesis by (auto simp: f32_lowest_def f32_inf_magnitude)
qed

lemma f32_magnitude_top: "\<not> f32_nan x \<Longrightarrow> f32_inf y \<Longrightarrow> f32_magnitude x \<le> f32_magnitude y"
  by (rule f32_magnitude_mono) (simp add: f32_nan_rank f32_inf_rank)

text \<open>Adding a number that is not negative never goes below.\<close>

lemma f32_add_nonneg:
  assumes "\<not> f32_nan x" "\<not> f32_lowest x" "\<not> f32_nan y" "\<not> f32_negative y"
  shows "\<not> f32_nan (f32_add x y)" "\<not> f32_lowest (f32_add x y)" "f32_units x \<le> f32_units (f32_add x y)"
proof -
  have "\<not> f32_nan (f32_add x y) \<and> f32_units x \<le> f32_units (f32_add x y)"
  proof (cases "f32_inf x \<or> f32_inf y")
    case True
    then show ?thesis
    proof (cases "f32_inf x")
      case True
      then have "f32_inf y \<Longrightarrow> x = y" using f32_inf_unique assms(2,4) by (simp add: f32_lowest_def)
      then show ?thesis using True assms by (auto simp: f32_add_def)
    next
      case False
      then have "f32_add x y = y" using True assms by (simp add: f32_add_def)
      moreover have "f32_units x \<le> f32_units y"
        using f32_magnitude_top [OF assms(1), of y] True False assms(4) by (auto simp: f32_units_def)
      ultimately show ?thesis using assms by simp
    qed
  next
    case False
    define s where "s = min (f32_scale x) (f32_scale y)"
    define v where "v = f32_value s x + f32_value s y"
    have v: "v * 2 ^ s = f32_units x + f32_units y"
      by (simp add: v_def s_def distrib_right f32_value_units)
    have y: "0 \<le> f32_units y" using assms(4) by (simp add: f32_units_def)
    show ?thesis
    proof (cases "v = 0")
      case True
      then have add: "f32_add x y = f32_round (f32_negative x \<and> f32_negative y) 0 1 0"
        using False assms by (simp add: f32_add_def Let_def s_def [symmetric] v_def [symmetric])
      have "f32_units x \<le> 0" using v y True by simp
      moreover have "f32_magnitude (f32_add x y) = 0"
        using f32_round_sandwich(3) [where den = 1 and num = 0 and scale = 0 and x = 0 and negative = "f32_negative x \<and> f32_negative y"]
        by (simp add: add numerator_def f32_magnitude_def f32_significand_def f32_exponent_def f32_fraction_def)
      ultimately show ?thesis using f32_round_sandwich(1) [where den = 1 and num = 0] by (simp add: add f32_units_def)
    next
      case nz: False
      have add: "f32_add x y = f32_round (v < 0) (nat \<bar>v\<bar>) 1 (int s)"
        using False nz assms by (simp add: f32_add_def Let_def s_def [symmetric] v_def [symmetric])
      have num: "int (numerator (nat \<bar>v\<bar>) (int s)) = \<bar>f32_units x + f32_units y\<bar>" "denominator 1 (int s) = 1"
        using nz by (simp_all add: numerator_def denominator_def abs_mult flip: v)
      have sgn: "v < 0 \<longleftrightarrow> f32_units x + f32_units y < 0" unfolding v [symmetric] by (simp add: mult_less_0_iff)
      have sand: "\<not> f32_nan (f32_add x y)" "f32_negative (f32_add x y) = (v < 0)"
        "numerator (nat \<bar>v\<bar>) (int s) \<le> f32_magnitude x \<Longrightarrow> f32_magnitude (f32_add x y) \<le> f32_magnitude x"
        "f32_magnitude x \<le> numerator (nat \<bar>v\<bar>) (int s) \<Longrightarrow> f32_magnitude x \<le> f32_magnitude (f32_add x y)"
        using f32_round_sandwich(1,2) [where den = 1 and num = "nat \<bar>v\<bar>" and negative = "v < 0" and scale = "int s"]
          f32_round_sandwich(3,4) [where den = 1 and num = "nat \<bar>v\<bar>" and negative = "v < 0" and scale = "int s" and x = x] num(2) assms(1) by (simp_all add: add)
      show ?thesis
      proof (cases "v < 0")
        case True
        then have neg: "f32_negative x" using sgn y by (auto simp: f32_units_def split: if_splits)
        then have "numerator (nat \<bar>v\<bar>) (int s) \<le> f32_magnitude x"
          using num(1) True sgn y by (simp add: f32_units_def split: if_splits)
        then show ?thesis using sand True neg by (simp add: f32_units_def)
      next
        case False
        have "f32_units x \<le> f32_units (f32_add x y)" if "\<not> f32_negative x"
          using sand(2,4) num(1) that False y by (simp add: f32_units_def)
        then show ?thesis using sand(1,2) False by (cases "f32_negative x") (simp_all add: f32_units_def)
      qed
    qed
  qed
  then show "\<not> f32_nan (f32_add x y)" "\<not> f32_lowest (f32_add x y)" "f32_units x \<le> f32_units (f32_add x y)"
    using assms(1,2) by (auto simp: f32_lowest_units)
qed

lemma power_exchange: "(a :: nat) + b = c + d \<Longrightarrow> (2::nat) ^ a * 2 ^ b = 2 ^ c * 2 ^ d"
  by (simp flip: power_add)

lemma f32_infinity_parts:
  "f32_inf (f32_infinity negative)" "f32_negative (f32_infinity negative) = negative" "\<not> f32_nan (f32_infinity negative)"
  by (simp_all add: f32_infinity_def f32_inf_def f32_negative_def f32_nan_def f32_exponent_def f32_fraction_def)

lemma f32_magnitude_0: "f32_significand x = 0 \<longleftrightarrow> f32_magnitude x = 0"
  by (simp add: f32_magnitude_def)

lemma f32_mul_nonneg:
  assumes "\<not> f32_nan x" "\<not> f32_negative x" "f32_magnitude x \<noteq> 0" "\<not> f32_nan y" "\<not> f32_negative y" "f32_magnitude y \<noteq> 0"
  shows "\<not> f32_nan (f32_mul x y)" "\<not> f32_negative (f32_mul x y)"
    "f32_magnitude y \<le> 2 ^ 149 \<Longrightarrow> f32_magnitude (f32_mul x y) \<le> f32_magnitude x"
proof -
  let ?m = "f32_significand x * f32_significand y" and ?c = "int (f32_scale x + f32_scale y) - 149"
  have inf: "f32_mul x y = f32_infinity False" if "f32_inf x \<or> f32_inf y"
    using assms that by (auto simp: f32_mul_def f32_magnitude_0)
  have fin: "f32_mul x y = f32_round False ?m 1 ?c" if "\<not> (f32_inf x \<or> f32_inf y)"
    using assms that by (simp add: f32_mul_def)
  show "\<not> f32_nan (f32_mul x y)" "\<not> f32_negative (f32_mul x y)"
    using inf fin f32_infinity_parts [of False] f32_round_sandwich(1,2) [where den = 1 and num = ?m and negative = False and scale = ?c]
    by (cases "f32_inf x \<or> f32_inf y"; simp)+
  show "f32_magnitude (f32_mul x y) \<le> f32_magnitude x" if y: "f32_magnitude y \<le> 2 ^ 149"
  proof (cases "f32_inf x")
    case True
    then show ?thesis using inf f32_infinity_parts [of False] by (simp add: f32_magnitude_top)
  next
    case False
    have "\<not> (2::nat) ^ 277 \<le> 2 ^ 149" by (simp only: power_increasing_iff)
    then have "\<not> f32_inf y" using y f32_inf_magnitude [OF assms(4)] by (metis order_trans)
    then have mul: "f32_mul x y = f32_round False ?m 1 ?c" using fin False by simp
    have "numerator ?m ?c * 2 ^ 149 = f32_magnitude x * f32_magnitude y * denominator 1 ?c"
      using power_exchange [of "nat ?c" 149 "f32_scale x + f32_scale y" "nat (- ?c)"]
      by (simp add: numerator_def denominator_def f32_magnitude_def power_add ac_simps)
    also have "\<dots> \<le> f32_magnitude x * 2 ^ 149 * denominator 1 ?c" using y by (intro mult_right_mono mult_left_mono) simp_all
    finally have "numerator ?m ?c * 2 ^ 149 \<le> f32_magnitude x * denominator 1 ?c * 2 ^ 149" by (simp only: ac_simps)
    then have "numerator ?m ?c \<le> f32_magnitude x * denominator 1 ?c" by (simp only: mult_le_cancel2) simp
    then show ?thesis unfolding mul by (intro f32_round_sandwich(3)) simp_all
  qed
qed

lemma f32_of_nat_order:
  "\<not> f32_nan (f32_of_nat n)" "\<not> f32_negative (f32_of_nat n)"
  "a \<le> b \<Longrightarrow> f32_magnitude (f32_of_nat a) \<le> f32_magnitude (f32_of_nat b)"
  "0 < n \<Longrightarrow> 2 ^ 149 \<le> f32_magnitude (f32_of_nat n)"
  "n \<le> 2 ^ 64 \<Longrightarrow> f32_magnitude (f32_of_nat n) \<le> 2 ^ 213"
proof -
  show "\<not> f32_nan (f32_of_nat n)" "\<not> f32_negative (f32_of_nat n)"
    using f32_round_sandwich(1,2) [where den = 1 and num = n and negative = False and scale = 149] by (simp_all add: f32_of_nat_def)
  show "a \<le> b \<Longrightarrow> f32_magnitude (f32_of_nat a) \<le> f32_magnitude (f32_of_nat b)"
    unfolding f32_of_nat_def by (rule f32_round_mono) simp_all
  have one: "f32_magnitude 0x3F800000 = 2 ^ 149" "\<not> f32_nan 0x3F800000" and top: "f32_magnitude 0x5F800000 = 2 ^ 213"
    by (simp_all add: f32_magnitude_def f32_significand_def f32_scale_def f32_exponent_def f32_fraction_def f32_nan_def)
  have n: "numerator n 149 = n * 2 ^ 149" "denominator 1 149 = 1" by (simp_all add: numerator_def denominator_def)
  show "0 < n \<Longrightarrow> 2 ^ 149 \<le> f32_magnitude (f32_of_nat n)"
    unfolding f32_of_nat_def one(1) [symmetric]
    by (rule f32_round_sandwich(4)) (simp_all only: n one, simp_all)
  assume "n \<le> 2 ^ 64"
  then have "n * 2 ^ 149 \<le> 2 ^ 64 * 2 ^ 149" by (rule mult_right_mono) simp
  then have "numerator n 149 \<le> f32_magnitude 0x5F800000 * denominator 1 149" unfolding n top by (simp only: mult_1_right flip: power_add) simp
  then show "f32_magnitude (f32_of_nat n) \<le> 2 ^ 213"
    unfolding f32_of_nat_def top [symmetric] by (intro f32_round_sandwich(3)) simp_all
qed

lemma f32_finite_of_nat: "n \<le> 2 ^ 64 \<Longrightarrow> \<not> f32_inf (f32_of_nat n)"
proof
  assume n: "n \<le> 2 ^ 64" and "f32_inf (f32_of_nat n)"
  then have "(2::nat) ^ 277 \<le> 2 ^ 213" using f32_of_nat_order(5) [OF n] f32_inf_magnitude [OF f32_of_nat_order(1)] by (metis order_trans)
  then show False by (simp only: power_increasing_iff)
qed

text \<open>The ratio of two counts of at most 64 bits is positive, and at most 1 if the first is not larger.\<close>

lemma f32_ratio:
  assumes "0 < a" "a \<le> 2 ^ 64" "0 < b" "b \<le> 2 ^ 64"
  defines "r \<equiv> f32_div (f32_of_nat a) (f32_of_nat b)"
  shows "\<not> f32_nan r" "\<not> f32_negative r" "f32_magnitude r \<noteq> 0" "a \<le> b \<Longrightarrow> f32_magnitude r \<le> 2 ^ 149"
proof -
  let ?x = "f32_of_nat a" and ?y = "f32_of_nat b"
  let ?n = "f32_significand ?x * 2 ^ 32" and ?d = "f32_significand ?y" and ?c = "int (f32_scale ?x) - int (f32_scale ?y) + 149 - 32"
  have x: "2 ^ 149 \<le> f32_magnitude ?x" "f32_magnitude ?x \<le> 2 ^ 213" and y: "2 ^ 149 \<le> f32_magnitude ?y" "f32_magnitude ?y \<le> 2 ^ 213"
    using f32_of_nat_order(4,5) assms by blast+
  have "f32_magnitude ?x \<noteq> 0" "f32_magnitude ?y \<noteq> 0" using x(1) y(1) by (auto dest: le_zero_eq [THEN iffD1])
  then have nz: "f32_significand ?x \<noteq> 0" "?d \<noteq> 0" by (simp_all add: f32_magnitude_0)
  have r: "r = f32_round False ?n ?d ?c"
    using nz f32_of_nat_order(1,2) f32_finite_of_nat assms(2,4) by (simp add: r_def f32_div_def)
  have div: "?n div ?d \<noteq> 0"
  proof -
    have "?d \<le> 2 ^ 32" using f32_significand_less [of ?y] by simp
    also have "\<dots> \<le> ?n" using nz(1) by simp
    finally show ?thesis using nz(2) by (simp add: div_eq_0_iff)
  qed
  have d: "0 < ?d" using nz(2) by simp
  show "\<not> f32_nan r" "\<not> f32_negative r"
    using f32_round_sandwich(1,2) [OF d div, where negative = False and scale = ?c] by (simp_all add: r)
  have exch: "(2::nat) ^ (nat ?c + 32) * 2 ^ f32_scale ?y = 2 ^ (nat (- ?c) + 149) * 2 ^ f32_scale ?x"
    by (rule power_exchange) linarith
  have n: "numerator ?n ?c * 2 ^ f32_scale ?y = f32_magnitude ?x * (2 ^ nat (- ?c) * 2 ^ 149)"
    using exch by (simp add: numerator_def f32_magnitude_def power_add ac_simps)
  have m: "denominator ?d ?c * 2 ^ f32_scale ?y = f32_magnitude ?y * 2 ^ nat (- ?c)"
    by (simp add: denominator_def f32_magnitude_def ac_simps)
  have cancel: "p * 2 ^ f32_scale ?y \<le> q * 2 ^ f32_scale ?y \<Longrightarrow> p \<le> q" for p q :: nat by simp
  have one: "f32_magnitude 0x3F800000 = 2 ^ 149" and least: "f32_magnitude 1 = 1" "\<not> f32_nan 1"
    by (simp_all add: f32_magnitude_def f32_significand_def f32_scale_def f32_exponent_def f32_fraction_def f32_nan_def)
  show "f32_magnitude r \<le> 2 ^ 149" if "a \<le> b"
  proof -
    have "f32_magnitude ?x * (2 ^ nat (- ?c) * 2 ^ 149) \<le> f32_magnitude ?y * (2 ^ nat (- ?c) * 2 ^ 149)"
      using f32_of_nat_order(3) [OF that] by (rule mult_right_mono) simp
    then have "numerator ?n ?c * 2 ^ f32_scale ?y \<le> 2 ^ 149 * denominator ?d ?c * 2 ^ f32_scale ?y"
      unfolding n mult.assoc m by (simp only: ac_simps)
    then have "numerator ?n ?c \<le> f32_magnitude 0x3F800000 * denominator ?d ?c" unfolding one by (rule cancel)
    then show ?thesis unfolding r one [symmetric] by (rule f32_round_sandwich(3) [OF d div])
  qed
  have "1 * f32_magnitude ?y * 2 ^ nat (- ?c) \<le> f32_magnitude ?x * 2 ^ 149 * 2 ^ nat (- ?c)"
  proof (intro mult_right_mono)
    have "f32_magnitude ?y \<le> 2 ^ 149 * 2 ^ 149" by (rule order_trans [OF y(2)]) simp
    also have "\<dots> \<le> f32_magnitude ?x * 2 ^ 149" using x(1) by (rule mult_right_mono) simp
    finally show "1 * f32_magnitude ?y \<le> f32_magnitude ?x * 2 ^ 149" by simp
  qed simp
  then have "1 * denominator ?d ?c * 2 ^ f32_scale ?y \<le> numerator ?n ?c * 2 ^ f32_scale ?y"
    unfolding n mult.assoc m by (simp only: ac_simps)
  then have "f32_magnitude 1 * denominator ?d ?c \<le> numerator ?n ?c" unfolding least by (rule cancel)
  then have "f32_magnitude 1 \<le> f32_magnitude r" unfolding r using least(2) by (rule f32_round_sandwich(4) [OF d div])
  then show "f32_magnitude r \<noteq> 0" by (simp add: least)
qed

end
