(* ===== verification/Sunburst_Props.thy ===== *)
theory Sunburst_Props
  imports View_Props F32_Order
begin

text \<open>
  The sunburst of \<open>view.rs\<close>: the list of its slices is the tree of the directories in depth-first order. Siblings do not
  overlap, whatever the rounding of the angles, and every slice of an outer ring lies behind that of its parent.
\<close>

section \<open>The order of the slices\<close>

abbreviation ring_of :: "sunburst_slice \<Rightarrow> nat" where
  "ring_of s \<equiv> unat (slice_ring s)"

definition slice_end :: "sunburst_slice \<Rightarrow> f32_bits" where
  "slice_end s = f32_add (slice_start s) (slice_sweep s)"

definition spans :: "sunburst_slice \<Rightarrow> f32_bits \<Rightarrow> bool" where
  \<comment> \<open>the angle belongs to the slice, as the hit test decides\<close>
  "spans s angle \<longleftrightarrow> f32_le (slice_start s) angle \<and> f32_less angle (slice_end s)"

definition siblings :: "sunburst_slice list \<Rightarrow> nat \<Rightarrow> nat \<Rightarrow> bool" where
  \<comment> \<open>no slice of an inner ring comes between them\<close>
  "siblings b i j \<longleftrightarrow> i < j \<and> j < length b \<and> ring_of (b ! j) = ring_of (b ! i)
     \<and> (\<forall>k. i < k \<and> k < j \<longrightarrow> ring_of (b ! i) \<le> ring_of (b ! k))"

definition encloses :: "sunburst_slice list \<Rightarrow> nat \<Rightarrow> nat \<Rightarrow> bool" where
  \<comment> \<open>the last slice of the next inner ring before it\<close>
  "encloses b i j \<longleftrightarrow> i < j \<and> j < length b \<and> ring_of (b ! j) = ring_of (b ! i) + 1
     \<and> (\<forall>k. i < k \<and> k < j \<longrightarrow> ring_of (b ! j) \<le> ring_of (b ! k))"

lemma siblings_append:
  assumes "siblings (b @ c) i j" "\<forall>s \<in> set b. r \<le> ring_of s" "c \<noteq> [] \<longrightarrow> ring_of (hd c) = r"
  shows "siblings b i j \<or> (length b \<le> i \<and> siblings c (i - length b) (j - length b))
    \<or> (i < length b \<and> length b \<le> j \<and> ring_of (b ! i) = r \<and> ring_of (c ! (j - length b)) = r)"
proof -
  let ?n = "length b"
  have s: "i < j" "j < ?n + length c" "ring_of ((b @ c) ! j) = ring_of ((b @ c) ! i)"
    "\<And>k. i < k \<Longrightarrow> k < j \<Longrightarrow> ring_of ((b @ c) ! i) \<le> ring_of ((b @ c) ! k)"
    using assms(1) by (auto simp: siblings_def)
  consider "j < ?n" | "?n \<le> i" | "i < ?n" "?n \<le> j" by linarith
  then show ?thesis
  proof cases
    case 1
    then show ?thesis using assms(1) by (auto simp: siblings_def nth_append)
  next
    case 2
    have "ring_of (c ! (i - ?n)) \<le> ring_of (c ! k)" if "i - ?n < k" "k < j - ?n" for k
      using s(4) [of "k + ?n"] that 2 by (simp add: nth_append)
    moreover have "i - ?n < j - ?n" "j - ?n < length c" using 2 s(1,2) by linarith+
    ultimately show ?thesis using 2 s(1,3) by (simp add: siblings_def nth_append)
  next
    case 3
    then have c: "c \<noteq> []" using s(2) by auto
    have low: "r \<le> ring_of (b ! i)" using assms(2) 3(1) by simp
    have "ring_of (b ! i) = r"
    proof (cases "j = ?n")
      case True
      then show ?thesis using s(3) 3 assms(3) c by (simp add: nth_append hd_conv_nth)
    next
      case False
      then have "ring_of (b ! i) \<le> r" using s(4) [of ?n] 3 assms(3) c by (simp add: nth_append hd_conv_nth)
      then show ?thesis using low by simp
    qed
    then show ?thesis using 3 s(3) by (simp add: nth_append)
  qed
qed

lemma siblings_Cons:
  assumes "siblings (s # b) i j" "\<forall>t \<in> set b. ring_of s < ring_of t"
  obtains i' j' where "i = Suc i'" "j = Suc j'" "siblings b i' j'"
proof -
  have *: "i < j" "j < Suc (length b)" "ring_of ((s # b) ! j) = ring_of ((s # b) ! i)"
    "\<And>k. i < k \<Longrightarrow> k < j \<Longrightarrow> ring_of ((s # b) ! i) \<le> ring_of ((s # b) ! k)"
    using assms(1) by (auto simp: siblings_def)
  then obtain j' where j: "j = Suc j'" "j' < length b" by (cases j) auto
  then have "ring_of s < ring_of (b ! j')" using assms(2) by simp
  then obtain i' where i: "i = Suc i'" using * j by (cases i) auto
  have "ring_of (b ! i') \<le> ring_of (b ! k)" if "i' < k" "k < j'" for k
    using *(4) [of "Suc k"] that i j by simp
  then have "siblings b i' j'" using * i j by (simp add: siblings_def)
  then show thesis using that i j by blast
qed

lemma encloses_append1: "encloses b i j \<Longrightarrow> encloses (b @ c) i j"
  by (auto simp: encloses_def nth_append)

lemma encloses_append2: "encloses c i j \<Longrightarrow> encloses (b @ c) (length b + i) (length b + j)"
proof -
  assume e: "encloses c i j"
  have "ring_of (c ! j) \<le> ring_of ((b @ c) ! k)" if "length b + i < k" "k < length b + j" for k
    using e that by (auto simp: encloses_def nth_append dest!: spec [of _ "k - length b"])
  then show ?thesis using e by (simp add: encloses_def nth_append)
qed

lemma encloses_Cons: "encloses b i j \<Longrightarrow> encloses (s # b) (Suc i) (Suc j)"
  using encloses_append2 [of b i j "[s]"] by simp

section \<open>Wedges\<close>

definition proper_angle :: "f32_bits \<Rightarrow> bool" where
  "proper_angle x \<longleftrightarrow> \<not> f32_nan x \<and> \<not> f32_lowest x"

definition positive_span :: "f32_bits \<Rightarrow> bool" where
  "positive_span x \<longleftrightarrow> \<not> f32_nan x \<and> \<not> f32_negative x \<and> f32_magnitude x \<noteq> 0"

definition shows_slice :: "display \<Rightarrow> scan_model \<Rightarrow> nat \<Rightarrow> sunburst_slice \<Rightarrow> bool" where
  \<comment> \<open>a slice is drawn in a ring that exists, and a slice of a directory says what the model says, and can be seen\<close>
  "shows_slice D m rings s \<longleftrightarrow> 1 \<le> ring_of s \<and> ring_of s \<le> rings \<and> proper_angle (slice_start s) \<and> positive_span (slice_sweep s)
     \<and> (case slice_id s of None \<Rightarrow> True
        | Some c \<Rightarrow> slice_label s = shown_name D (directory_name m c) \<and> slice_bytes s = subtree_bytes (tree m) c
            \<and> slice_drill s = (children (tree m) c \<noteq> []) \<and> f32_le MINIMUM_SWEEP (slice_sweep s))"

definition part_of :: "scan_model \<Rightarrow> u32 \<Rightarrow> f32_bits \<Rightarrow> f32_bits \<Rightarrow> sunburst_slice \<Rightarrow> bool" where
  \<comment> \<open>the slice of a child of a directory with its span\<close>
  "part_of m d from sweep s \<longleftrightarrow> f32_units from \<le> f32_units (slice_start s)
     \<and> (case slice_id s of None \<Rightarrow> True
        | Some c \<Rightarrow> c \<in> set (children_by_size m d)
            \<and> (subtree_bytes (tree m) c \<le> subtree_bytes (tree m) d \<longrightarrow> f32_units (slice_sweep s) \<le> f32_units sweep))"

definition nested :: "scan_model \<Rightarrow> sunburst_slice \<Rightarrow> sunburst_slice \<Rightarrow> bool" where
  "nested m p s \<longleftrightarrow> (\<exists>d. slice_id p = Some d \<and> part_of m d (slice_start p) (slice_sweep p) s)"

definition wedge :: "display \<Rightarrow> scan_model \<Rightarrow> nat \<Rightarrow> u32 \<Rightarrow> f32_bits \<Rightarrow> f32_bits \<Rightarrow> nat \<Rightarrow> f32_bits \<Rightarrow> f32_bits \<Rightarrow> sunburst_slice list \<Rightarrow> bool" where
  \<comment> \<open>the slices that the part of a directory's span between two angles gets, its children in a given ring\<close>
  "wedge D m rings d from sweep ring low high b \<longleftrightarrow> f32_units low \<le> f32_units high
     \<and> (\<forall>s \<in> set b. ring \<le> ring_of s \<and> shows_slice D m rings s)
     \<and> (b \<noteq> [] \<longrightarrow> ring_of (hd b) = ring)
     \<and> (\<forall>s \<in> set b. ring_of s = ring \<longrightarrow> part_of m d from sweep s
          \<and> f32_units low \<le> f32_units (slice_start s) \<and> f32_units (slice_end s) \<le> f32_units high)
     \<and> (\<forall>i j. siblings b i j \<longrightarrow> f32_units (slice_end (b ! i)) \<le> f32_units (slice_start (b ! j)))
     \<and> (\<forall>j < length b. ring_of (b ! j) = ring \<or> (\<exists>i. encloses b i j \<and> nested m (b ! i) (b ! j)))"

lemma wedge_Nil: "f32_units low \<le> f32_units high \<Longrightarrow> wedge D m rings d from sweep ring low high []"
  by (simp add: wedge_def siblings_def)

lemma wedge_append:
  assumes b: "wedge D m rings d from sweep ring low mid b" and c: "wedge D m rings d from sweep ring mid high c"
  shows "wedge D m rings d from sweep ring low high (b @ c)"
proof -
  have all: "\<forall>s \<in> set b. ring \<le> ring_of s" "c \<noteq> [] \<longrightarrow> ring_of (hd c) = ring" using b c by (auto simp: wedge_def)
  have "f32_units (slice_end ((b @ c) ! i)) \<le> f32_units (slice_start ((b @ c) ! j))" if s: "siblings (b @ c) i j" for i j
    using siblings_append [OF s all]
  proof (elim disjE conjE)
    assume "siblings b i j"
    then show ?thesis using b by (auto simp: wedge_def siblings_def nth_append)
  next
    assume "length b \<le> i" "siblings c (i - length b) (j - length b)"
    then show ?thesis using c s by (auto simp: wedge_def siblings_def nth_append)
  next
    assume *: "i < length b" "length b \<le> j" "ring_of (b ! i) = ring" "ring_of (c ! (j - length b)) = ring"
    then have "j - length b < length c" using s by (auto simp: siblings_def)
    then have "f32_units mid \<le> f32_units (slice_start (c ! (j - length b)))" using c *(4) by (auto simp: wedge_def)
    moreover have "f32_units (slice_end (b ! i)) \<le> f32_units mid" using b *(1,3) by (auto simp: wedge_def)
    ultimately show ?thesis using *(1,2) by (simp add: nth_append)
  qed
  moreover have "ring_of ((b @ c) ! j) = ring \<or> (\<exists>i. encloses (b @ c) i j \<and> nested m ((b @ c) ! i) ((b @ c) ! j))"
    if "j < length (b @ c)" for j
  proof (cases "j < length b")
    case True
    then have "ring_of (b ! j) = ring \<or> (\<exists>i. encloses b i j \<and> nested m (b ! i) (b ! j))" using b by (simp add: wedge_def)
    then show ?thesis using True encloses_append1 [of b _ j c] by (auto simp: nth_append encloses_def)
  next
    case False
    then have j: "j = length b + (j - length b)" "j - length b < length c" using that by simp_all
    then have "ring_of (c ! (j - length b)) = ring \<or> (\<exists>i. encloses c i (j - length b) \<and> nested m (c ! i) (c ! (j - length b)))"
      using c by (simp add: wedge_def)
    then show ?thesis
      using False j encloses_append2 [of c _ "j - length b" b] by (metis nth_append_length_plus)
  qed
  moreover have "f32_units low \<le> f32_units mid" "f32_units mid \<le> f32_units high" using b c by (simp_all add: wedge_def)
  moreover have "b @ c \<noteq> [] \<longrightarrow> ring_of (hd (b @ c)) = ring" using b c by (auto simp: wedge_def hd_append)
  moreover have "part_of m d from sweep s \<and> f32_units low \<le> f32_units (slice_start s) \<and> f32_units (slice_end s) \<le> f32_units high"
    if "s \<in> set (b @ c)" "ring_of s = ring" for s
    using that b c by (fastforce simp: wedge_def)
  moreover have "ring \<le> ring_of s \<and> shows_slice D m rings s" if "s \<in> set (b @ c)" for s
    using that b c by (auto simp: wedge_def)
  ultimately show ?thesis by (simp add: wedge_def)
qed

lemma wedge_Cons:
  assumes b: "wedge D m rings child (slice_start s) (slice_sweep s) (ring + 1) low' high' b"
    and s: "ring_of s = ring" "slice_id s = Some child" "shows_slice D m rings s" "part_of m d from sweep s"
  shows "wedge D m rings d from sweep ring (slice_start s) (slice_end s) (s # b)"
proof -
  have all: "\<forall>t \<in> set b. ring_of s < ring_of t" using b s(1) by (auto simp: wedge_def)
  have "f32_units (slice_end ((s # b) ! i)) \<le> f32_units (slice_start ((s # b) ! j))" if "siblings (s # b) i j" for i j
    by (rule siblings_Cons [OF that all]) (use b in \<open>auto simp: wedge_def\<close>)
  moreover have "ring_of ((s # b) ! j) = ring \<or> (\<exists>i. encloses (s # b) i j \<and> nested m ((s # b) ! i) ((s # b) ! j))"
    if "j < length (s # b)" for j
  proof (cases j)
    case 0
    then show ?thesis using s(1) by simp
  next
    case (Suc k)
    then have k: "k < length b" using that by simp
    show ?thesis
    proof (cases "ring_of (b ! k) = ring + 1")
      case True
      then have "encloses (s # b) 0 j"
        using s(1) Suc k b by (auto simp: encloses_def wedge_def nth_Cons')
      moreover have "nested m s (b ! k)" using b True k s(2) by (auto simp: wedge_def nested_def)
      ultimately show ?thesis using Suc by (metis nth_Cons_0 nth_Cons_Suc)
    next
      case False
      then obtain i where "encloses b i k" "nested m (b ! i) (b ! k)" using b k by (auto simp: wedge_def)
      then show ?thesis using encloses_Cons [of b i k s] Suc by (metis nth_Cons_Suc)
    qed
  qed
  moreover have "f32_units (slice_start s) \<le> f32_units (slice_end s)"
    using s(3) f32_add_nonneg(3) by (simp add: shows_slice_def proper_angle_def positive_span_def slice_end_def)
  ultimately show ?thesis using s b all unfolding wedge_def by (simp del: nth_Cons_Suc nth_Cons_0) force
qed

section \<open>Dividing a span\<close>

lemma minimum_sweep: "\<not> f32_nan MINIMUM_SWEEP" "0 < f32_units MINIMUM_SWEEP"
  by (simp_all add: MINIMUM_SWEEP_def f32_units_def f32_magnitude_def f32_significand_def f32_scale_def f32_exponent_def
      f32_fraction_def f32_nan_def f32_negative_def)

lemma positive_units: "positive_span x \<longleftrightarrow> \<not> f32_nan x \<and> 0 < f32_units x"
  by (auto simp: positive_span_def f32_units_def)

lemma above_minimum: "\<not> f32_nan x \<Longrightarrow> \<not> f32_less x MINIMUM_SWEEP \<Longrightarrow> positive_span x \<and> f32_le MINIMUM_SWEEP x"
  using minimum_sweep by (auto simp: positive_units f32_less_units f32_le_units)

lemma u64_bound: "unat (x :: u64) \<le> 2 ^ 64"
proof -
  have "n < 2 ^ 64 \<Longrightarrow> n \<le> 2 ^ 64" for n :: nat by simp
  from this [of "unat x"] unsigned_less [of x] show ?thesis by simp
qed

lemma share_of_span:
  assumes "positive_span sweep" "0 < bytes" "0 < whole"
  shows "\<not> f32_nan (share_of sweep bytes whole)" "bytes \<le> whole \<Longrightarrow> f32_units (share_of sweep bytes whole) \<le> f32_units sweep"
proof -
  let ?r = "f32_div (f32_of_nat (unat bytes)) (f32_of_nat (unat whole))"
  have "0 < unat bytes" "unat bytes \<le> 2 ^ 64" "0 < unat whole" "unat whole \<le> 2 ^ 64"
    using assms(2,3) u64_bound by (simp_all only: word_less_nat_alt unat_0)
  note r = f32_ratio [OF this]
  have s: "\<not> f32_nan sweep" "\<not> f32_negative sweep" "f32_magnitude sweep \<noteq> 0" using assms(1) by (simp_all add: positive_span_def)
  note mul = f32_mul_nonneg [OF s r(1-3)]
  show "\<not> f32_nan (share_of sweep bytes whole)" using mul(1) by (simp add: share_of_def)
  assume "bytes \<le> whole"
  then have "f32_magnitude ?r \<le> 2 ^ 149" using r(4) by (simp add: word_le_nat_alt)
  then show "f32_units (share_of sweep bytes whole) \<le> f32_units sweep"
    using mul(2,3) s(2) by (simp add: share_of_def f32_units_def)
qed

lemma next_angle:
  "proper_angle x \<Longrightarrow> positive_span y \<Longrightarrow> proper_angle (f32_add x y) \<and> f32_units x \<le> f32_units (f32_add x y)"
  using f32_add_nonneg by (simp add: proper_angle_def positive_span_def)

lemma visible_bytes: "c \<in> set (children_by_size m d) \<Longrightarrow> 0 < subtree_bytes (tree m) c"
  by (auto simp: children_by_size_def dest: set_takeWhileD)

lemma subdivide_wedge:
  "\<lbrakk>rings \<le> 255; 1 \<le> ring; proper_angle angle; \<not> f32_nan sweep\<rbrakk> \<Longrightarrow>
     \<exists>b high. subdivide D m slices d ring angle sweep branch rings = slices @ b \<and> wedge D m rings d angle sweep ring angle high b"
  "\<And>d angle. \<lbrakk>rings \<le> 255; 1 \<le> ring; ring \<le> rings; positive_span sweep; whole = max (subtree_bytes (tree m) d) 1;
       set cs \<subseteq> set (children_by_size m d); proper_angle cursor; f32_units angle \<le> f32_units cursor\<rbrakk> \<Longrightarrow>
     \<exists>b high. subdivide_children D m whole ring sweep branch rings index cs slices cursor = (slices @ b, high)
       \<and> proper_angle high \<and> wedge D m rings d angle sweep ring cursor high b"
proof (induction D m slices d ring angle sweep branch rings and D m whole ring sweep branch rings index cs slices cursor
    rule: subdivide_subdivide_children.induct)
  case (1 D m slices d ring angle sweep branch rings)
  show ?case
  proof (cases "rings < ring \<or> f32_less sweep MINIMUM_SWEEP \<or> 2000 < length slices")
    case True
    then show ?thesis by (subst subdivide.simps) (auto intro: wedge_Nil)
  next
    case False
    then have p: "positive_span sweep" "ring \<le> rings" using above_minimum 1(5) by auto
    obtain b cursor where b: "subdivide_children D m (max (subtree_bytes (tree m) d) 1) ring sweep branch rings 0 (children_by_size m d) slices angle
        = (slices @ b, cursor)" "proper_angle cursor" "wedge D m rings d angle sweep ring angle cursor b"
      using 1(1) [OF False 1(2,3) p(2,1) refl subset_refl 1(4) order_refl] by auto
    let ?rest = "f32_sub (f32_add angle sweep) cursor"
    have eq: "subdivide D m slices d ring angle sweep branch rings
        = (if f32_less 0x3B449BA6 ?rest then slices @ b @ [filler D ring cursor ?rest] else slices @ b)"
      by (subst subdivide.simps) (use False b(1) in \<open>simp add: Let_def\<close>)
    show ?thesis
    proof (cases "f32_less 0x3B449BA6 ?rest")
      case True
      have "0 < f32_units 0x3B449BA6"
        by (simp add: f32_units_def f32_magnitude_def f32_significand_def f32_scale_def f32_exponent_def f32_fraction_def f32_negative_def)
      then have rest: "positive_span ?rest" using True by (simp add: positive_units f32_less_units)
      let ?f = "filler D ring cursor ?rest"
      have ring: "ring_of ?f = ring" using 1(2) p(2) by (simp add: filler_def unsigned_of_nat take_bit_nat_eq_self)
      have "f32_units angle \<le> f32_units cursor" using b(3) by (simp add: wedge_def)
      then have "wedge D m rings d angle sweep ring cursor (f32_add cursor ?rest) [?f]"
        using ring rest b(2) next_angle [OF b(2) rest] 1(3) p(2)
        by (auto simp: wedge_def siblings_def shows_slice_def part_of_def slice_end_def filler_def)
      from wedge_append [OF b(3) this] True eq show ?thesis by auto
    next
      case False
      then show ?thesis using eq b(3) by auto
    qed
  qed
next
  case (2 D m whole ring sweep branch rings index slices cursor)
  then show ?case by (auto simp: subdivide_children.simps intro: wedge_Nil)
next
  case (3 D m whole ring sweep branch rings index child rest slices cursor)
  note pre = 3(4-11)
  define share where "share = share_of sweep (subtree_bytes (tree m) child) whole"
  show ?case
  proof (cases "f32_less share MINIMUM_SWEEP")
    case True
    have "set rest \<subseteq> set (children_by_size m d)" using pre(6) by simp
    from 3(1) [OF share_def True pre(1-5) this pre(7,8)] True show ?thesis
      by (simp add: subdivide_children.simps share_def)
  next
    case False
    define color where "color = (case branch of Some c \<Rightarrow> c | None \<Rightarrow> branch_color index)"
    let ?s = "child_slice D m child ring cursor share color"
    have child: "child \<in> set (children_by_size m d)" "set rest \<subseteq> set (children_by_size m d)" using pre(6) by simp_all
    have whole: "0 < whole" unfolding pre(5) by (rule less_le_trans [OF _ max.cobounded2]) simp
    note share = share_of_span [OF pre(4) visible_bytes [OF child(1)] whole, folded share_def]
    have wide: "positive_span share" "f32_le MINIMUM_SWEEP share" using above_minimum [OF share(1) False] by simp_all
    have ring: "ring_of ?s = ring" using pre(1,3) by (simp add: child_slice_def unsigned_of_nat take_bit_nat_eq_self)
    obtain b high where b: "subdivide D m (slices @ [?s]) child (ring + 1) cursor share (Some color) rings = (slices @ [?s]) @ b"
      "wedge D m rings child cursor share (ring + 1) cursor high b"
      using 3(2) [OF share_def False color_def refl pre(1) _ pre(7) share(1)] by auto
    note after = next_angle [OF pre(7) wide(1)]
    have bytes: "subtree_bytes (tree m) child \<le> whole" if "subtree_bytes (tree m) child \<le> subtree_bytes (tree m) d"
      using that unfolding pre(5) by (simp add: le_max_iff_disj)
    have "wedge D m rings d angle sweep ring (slice_start ?s) (slice_end ?s) (?s # b)"
      by (rule wedge_Cons [where child = child and low' = cursor and high' = high])
        (use b(2) ring pre(2,3,7,8) wide child(1) share(2) bytes in
          \<open>auto simp: child_slice_def shows_slice_def part_of_def\<close>)
    then have first: "wedge D m rings d angle sweep ring cursor (f32_add cursor share) (?s # b)"
      by (simp add: child_slice_def slice_end_def)
    have "f32_units angle \<le> f32_units (f32_add cursor share)" using after pre(8) by simp
    from 3(3) [OF share_def False color_def refl pre(1-5) child(2) conjunct1 [OF after] this]
    obtain c high' where c: "subdivide_children D m whole ring sweep branch rings (index + 1) rest ((slices @ [?s]) @ b) (f32_add cursor share)
        = (((slices @ [?s]) @ b) @ c, high')" "proper_angle high'" "wedge D m rings d angle sweep ring (f32_add cursor share) high' c"
      unfolding b(1) by blast
    have "subdivide_children D m whole ring sweep branch rings index (child # rest) slices cursor = (slices @ ((?s # b) @ c), high')"
      using False c(1) by (simp add: subdivide_children.simps Let_def b(1) [simplified] flip: share_def color_def)
    then show ?thesis using wedge_append [OF first c(3)] c(2) by blast
  qed
qed

section \<open>The chart\<close>

lemma spans_disjoint:
  "f32_units (slice_end s) \<le> f32_units (slice_start t) \<Longrightarrow> \<not> (spans s angle \<and> spans t angle)"
  by (auto simp: spans_def f32_le_units f32_less_units)

lemma sunburst_hit_spans:
  "sunburst_hit_at atan2 sb bounds p = Some (Slice j) \<Longrightarrow> j < length (sb_slices sb) \<and> (\<exists>angle. spans (sb_slices sb ! j) angle)"
  by (auto simp: sunburst_hit_at_def Let_def spans_def slice_end_def split: prod.splits if_splits dest!: find_index_Some)

text \<open>
  C20. The slices of the sunburst are the visible directories below the focus. Each is in one of the rings with its label and
  bytes and wide enough to be seen. The slice before it in the next inner ring is its parent, begins no later, and is at
  least as wide if it has as many bytes. However the angles are rounded, siblings do not overlap: an angle that
  the hit test attributes to a slice belongs to none of its siblings.
\<close>
theorem sunburst_nested:
  assumes "sunburst_canvas D m = SunburstCanvas sb"
  shows "(\<forall>s \<in> set (sb_slices sb). shows_slice D m RINGS s)
    \<and> (\<forall>j < length (sb_slices sb).
         if ring_of (sb_slices sb ! j) = 1 then part_of m (focus m) (f32_neg FRAC_PI_2) TAU (sb_slices sb ! j)
         else \<exists>i. encloses (sb_slices sb) i j \<and> nested m (sb_slices sb ! i) (sb_slices sb ! j))
    \<and> (\<forall>i j angle. siblings (sb_slices sb) i j \<longrightarrow> \<not> (spans (sb_slices sb ! i) angle \<and> spans (sb_slices sb ! j) angle))
    \<and> (\<forall>atan2 bounds p j. sunburst_hit_at atan2 sb bounds p = Some (Slice j) \<longrightarrow>
         (\<exists>angle. spans (sb_slices sb ! j) angle
            \<and> (\<forall>i. siblings (sb_slices sb) i j \<or> siblings (sb_slices sb) j i \<longrightarrow> \<not> spans (sb_slices sb ! i) angle)))"
proof -
  have slices: "sb_slices sb = subdivide D m [] (focus m) 1 (f32_neg FRAC_PI_2) TAU None RINGS"
    using assms by (auto simp: sunburst_canvas_def sunburst_slices_def Let_def split: if_splits prod.splits)
  have "proper_angle (f32_neg FRAC_PI_2)" "\<not> f32_nan TAU"
    by (simp_all add: proper_angle_def f32_lowest_def FRAC_PI_2_def TAU_def f32_eval)
  then obtain b high where "sb_slices sb = [] @ b" "wedge D m RINGS (focus m) (f32_neg FRAC_PI_2) TAU 1 (f32_neg FRAC_PI_2) high b"
    unfolding slices using subdivide_wedge(1) [of RINGS 1 "f32_neg FRAC_PI_2" TAU D m "[]" "focus m" None] by (auto simp: RINGS_def)
  then have w: "wedge D m RINGS (focus m) (f32_neg FRAC_PI_2) TAU 1 (f32_neg FRAC_PI_2) high (sb_slices sb)" by simp
  have apart: "\<not> (spans (sb_slices sb ! i) angle \<and> spans (sb_slices sb ! j) angle)" if "siblings (sb_slices sb) i j" for i j angle
    using w that by (intro spans_disjoint) (auto simp: wedge_def)
  have "\<exists>angle. spans (sb_slices sb ! j) angle
      \<and> (\<forall>i. siblings (sb_slices sb) i j \<or> siblings (sb_slices sb) j i \<longrightarrow> \<not> spans (sb_slices sb ! i) angle)"
    if "sunburst_hit_at atan2 sb bounds p = Some (Slice j)" for atan2 bounds p j
    using sunburst_hit_spans [OF that] apart by blast
  with apart w show ?thesis by (auto simp: wedge_def)
qed

end
