(* ===== verification/Sunburst_Demo.thy ===== *)
theory Sunburst_Demo
  imports Sunburst_Props View_Demo
begin

text \<open>The sunburst of a directory with two children and a grandchild, with its angles computed.\<close>

definition demo_node :: "u32 \<Rightarrow> u64 \<Rightarrow> u32 list \<Rightarrow> size_node" where
  "demo_node up held below = fresh_node\<lparr>node_parent := up, node_subtree_bytes := held, node_name := ''d'', node_children := below\<rparr>"

definition demo_wide :: scan_model where
  \<comment> \<open>a directory of 100 bytes with children of 60 and 30, and a grandchild of 45\<close>
  "demo_wide = (new_model 1)\<lparr>tree := \<lparr>nodes = [demo_node NO_PARENT 100 [1, 2], demo_node 0 60 [3], demo_node 0 30 [], demo_node 1 45 []],
     dirty_children = []\<rparr>\<rparr>"

lemma demo_wide_tree:
  "subtree_bytes (tree demo_wide) 0 = 100" "subtree_bytes (tree demo_wide) 1 = 60" "subtree_bytes (tree demo_wide) 2 = 30" "subtree_bytes (tree demo_wide) 3 = 45"
  "children_by_size demo_wide 0 = [1, 2]" "children_by_size demo_wide 1 = [3]" "children_by_size demo_wide 2 = []" "children_by_size demo_wide 3 = []"
  "focus demo_wide = 0"
  by (simp_all add: demo_wide_def demo_node_def subtree_bytes_def node_def children_by_size_def children_def new_model_def)


lemma demo_shares:
  "share_of TAU 60 100 = 0x4071463B" "share_of TAU 30 100 = 0x3FF1463B" "share_of 0x4071463B 45 60 = 0x4034F4AC"
  by (simp_all add: share_of_def f32_eval TAU_def)

lemma demo_angles:
  "f32_neg FRAC_PI_2 = 0xBFC90FDB" "f32_add 0xBFC90FDB 0x4071463B = 0x400CBE4E" "f32_add 0x400CBE4E 0x3FF1463B = 0x4082B0B6"
  "f32_add 0xBFC90FDB TAU = 0x4096CBE4" "f32_add 0xBFC90FDB 0x4034F4AC = 0x3FA0D97D"
  "f32_sub 0x400CBE4E 0x3FA0D97D = 0x3F71463E" "f32_sub 0x4082B0B6 0x400CBE4E = 0x3FF1463C"
  by (simp_all add: f32_eval FRAC_PI_2_def TAU_def)

lemma demo_more_angles: "f32_sub 0x4096CBE4 0x4082B0B6 = 0x3F20D970" "f32_sub 0x3FA0D97D 0xBFC90FDB = 0x4034F4AC"
  by code_simp+

lemma demo_visible:
  "\<not> f32_less TAU MINIMUM_SWEEP" "\<not> f32_less 0x4071463B MINIMUM_SWEEP" "\<not> f32_less 0x3FF1463B MINIMUM_SWEEP" "\<not> f32_less 0x4034F4AC MINIMUM_SWEEP"
  "f32_less 0x3B449BA6 0x3F20D970" "f32_less 0x3B449BA6 0x3F71463E" "f32_less 0x3B449BA6 0x3FF1463C" "f32_less 0x3B449BA6 0x4034F4AC"
  by (simp_all add: f32_less_units f32_units_def f32_magnitude_def f32_nan_def f32_significand_def f32_scale_def
      f32_exponent_def f32_fraction_def f32_negative_def TAU_def MINIMUM_SWEEP_def)

lemma demo_slices:
  "map (\<lambda>s. (slice_id s, ring_of s)) (sunburst_slices demo_display demo_wide) =
     [(Some 1, 1), (Some 3, 2), (None, 3), (None, 2), (Some 2, 1), (None, 2), (None, 1)]"
  by (simp add: sunburst_slices_def subdivide.simps subdivide_children.simps demo_wide_tree demo_shares demo_angles demo_more_angles demo_visible
      RINGS_def child_slice_def filler_def Let_def)

lemma sunburst_nested_witness:
  "\<exists>sb. sunburst_canvas demo_display demo_wide = SunburstCanvas sb \<and> siblings (sb_slices sb) 0 4 \<and> encloses (sb_slices sb) 0 1
     \<and> (\<forall>angle. \<not> (spans (sb_slices sb ! 0) angle \<and> spans (sb_slices sb ! 4) angle))"
proof -
  let ?b = "sunburst_slices demo_display demo_wide"
  have ne: "length ?b = 7" using arg_cong [OF demo_slices, of length] by simp
  then have "?b \<noteq> []" by auto
  then obtain sb where sb: "sunburst_canvas demo_display demo_wide = SunburstCanvas sb" "sb_slices sb = ?b"
    by (auto simp: sunburst_canvas_def Let_def)
  have ring: "ring_of (?b ! k) = [1, 2, 3, 2, 1, 2, 1] ! k" if "k < 7" for k
  proof -
    have "map ring_of ?b = [1, 2, 3, 2, 1, 2, 1]" using arg_cong [OF demo_slices, of "map snd"] by (simp add: comp_def)
    then show ?thesis using nth_map [of k ?b ring_of] that ne by simp
  qed
  have rings: "ring_of (?b ! 0) = 1" "ring_of (?b ! 1) = 2" "ring_of (?b ! 2) = 3" "ring_of (?b ! 3) = 2" "ring_of (?b ! 4) = 1"
    using ring [of 0] ring [of 1] ring [of 2] ring [of 3] ring [of 4] by simp_all
  have "1 \<le> ring_of (?b ! k)" if "0 < k" "k < 4" for k
  proof -
    from that consider "k = 1" | "k = 2" | "k = 3" by linarith
    then show ?thesis by cases (simp_all only: rings)
  qed
  then have sib: "siblings ?b 0 4" unfolding siblings_def rings by (simp add: ne)
  have enc: "encloses ?b 0 1" unfolding encloses_def rings by (simp add: ne)
  have "\<not> (spans (?b ! 0) angle \<and> spans (?b ! 4) angle)" for angle
    using sunburst_nested [OF sb(1)] sib unfolding sb(2) by blast
  then show ?thesis using sb sib enc by auto
qed

end
