(* ===== verification/Drawing.thy ===== *)
theory Drawing
  imports Charts
begin

text \<open>
  What the charts of \<open>desktop/src/charts.rs\<close> other than the treemap draw, as lists of drawing commands. The
  trigonometric functions are an argument. A panic is \<open>None\<close>: a clamp whose bounds are in the wrong order,
  a slice out of range.
\<close>

record trigonometry =
  trig_sin :: "f32_bits \<Rightarrow> f32_bits"
  trig_cos :: "f32_bits \<Rightarrow> f32_bits"

section \<open>More of \<open>f32\<close>\<close>

definition f32_abs :: "f32_bits \<Rightarrow> f32_bits" where
  "f32_abs x = (if f32_negative x then f32_neg x else x)"

definition f32_ceil :: "f32_bits \<Rightarrow> int" where
  \<comment> \<open>\<open>x.ceil()\<close> as an integer\<close>
  "f32_ceil x = - f32_floor (f32_neg x)"

definition f32_checked_clamp :: "f32_bits \<Rightarrow> f32_bits \<Rightarrow> f32_bits \<Rightarrow> f32_bits option" where
  \<comment> \<open>\<open>clamp\<close> panics unless its bounds are ordered\<close>
  "f32_checked_clamp x low high = (if f32_le low high then Some (f32_clamp x low high) else None)"

definition f32_rem :: "f32_bits \<Rightarrow> f32_bits \<Rightarrow> f32_bits" where
  \<comment> \<open>\<open>%\<close>, exact and with the sign of the dividend\<close>
  "f32_rem x y =
     (if f32_nan x \<or> f32_nan y \<or> f32_inf x \<or> f32_significand y = 0 then F32_NAN
      else if f32_inf y then x
      else let scale = min (f32_scale x) (f32_scale y)
        in f32_round (f32_negative x) (nat \<bar>f32_value scale x\<bar> mod nat \<bar>f32_value scale y\<bar>) 1 (int scale))"

definition f32_rem_euclid :: "f32_bits \<Rightarrow> f32_bits \<Rightarrow> f32_bits" where
  "f32_rem_euclid x y = (let r = f32_rem x y in if f32_less r 0 then f32_add r (f32_abs y) else r)"

section \<open>Series\<close>

definition series_point :: "f32_bits \<Rightarrow> f32_bits \<Rightarrow> f32_bits \<Rightarrow> f32_bits \<Rightarrow> nat \<Rightarrow> u64 \<Rightarrow> point option" where
  \<comment> \<open>the closure of \<open>draw_series\<close>, with the width, the height, the peak and the span\<close>
  "series_point width height peak span age v =
     (let x = f32_div (f32_mul width (f32_sub span (f32_of_nat age))) span;
          y = f32_sub height (f32_mul (f32_div (f32_of_nat (unat v)) peak) height)
      in map_option (\<lambda>y. \<lparr>px = x, py = y\<rparr>) (f32_checked_clamp y F32_1 (f32_sub height F32_1)))"

fun all_some :: "'a option list \<Rightarrow> 'a list option" where
  "all_some [] = Some []"
| "all_some (x # xs) = Option.bind x (\<lambda>a. map_option ((#) a) (all_some xs))"

definition draw_series :: "f32_bits \<Rightarrow> f32_bits \<Rightarrow> u64 list \<Rightarrow> nat \<Rightarrow> color \<Rightarrow> f32_bits \<Rightarrow> bool \<Rightarrow> drawing list option" where
  \<comment> \<open>the constants are 1.05 and 0.14\<close>
  "draw_series width height samples window series_color stroke fill =
     (if length samples < 2 then Some []
      else
        let peak = f32_mul (f32_of_nat (unat (max (Max (set samples)) 1))) 0x3F866666;
            span = f32_of_nat (max (window - 1) 1);
            here = series_point width height peak span
        in Option.bind (all_some (map (case_prod here) (enumerate 0 samples))) (\<lambda>line.
           Option.bind (here (length samples - 1) 0) (\<lambda>corner. Some
             ((if fill
               then [FillPath (\<lparr>px = px (hd line), py = height\<rparr> # line @ [\<lparr>px = px corner, py = height\<rparr>]) (series_color\<lparr>alpha := 0x3E0F5C29\<rparr>)]
               else [])
              @ [StrokePath line series_color stroke]))))"

definition draw_sparkline :: "f32_bits \<Rightarrow> f32_bits \<Rightarrow> u64 list \<Rightarrow> color \<Rightarrow> drawing list option" where
  \<comment> \<open>the stroke is 1.2\<close>
  "draw_sparkline width height samples series_color = draw_series width height samples THROUGHPUT_HISTORY series_color 0x3F99999A True"

definition too_few_samples :: string where
  "too_few_samples = ''Not enough samples '' @ string_of_bytes [0xE2, 0x80, 0x94] @ '' the scan completed within one sampling window''"

definition grid_line :: "bool \<Rightarrow> f32_bits \<Rightarrow> f32_bits \<Rightarrow> (u64 \<Rightarrow> string) \<Rightarrow> u64 \<Rightarrow> nat \<Rightarrow> drawing list" where
  \<comment> \<open>one turn of the loop over the quarters; the multiplication of the peak wraps (it panics in a debug build)\<close>
  "grid_line dark width height format peak quarter =
     (let y = f32_sub height (f32_div (f32_mul (f32_div (f32_of_nat quarter) (f32_of_nat 4)) height) 0x3F866666)
      in [StrokePath [\<lparr>px = 0, py = y\<rparr>, \<lparr>px = width, py = y\<rparr>] (panel_highlight (ui dark)) F32_1,
          FillText (format (peak * word_of_nat quarter div 4)) (f32_of_nat 6) (f32_sub y (f32_of_nat 14)) (label_color (ui dark))])"

definition draw_area_chart :: "bool \<Rightarrow> f32_bits \<Rightarrow> f32_bits \<Rightarrow> (u64 \<Rightarrow> string) \<Rightarrow> u64 list \<Rightarrow> color \<Rightarrow> drawing list option" where
  \<comment> \<open>the stroke is 1.8\<close>
  "draw_area_chart dark width height format samples series_color =
     (if length samples < 2
      then Some [FillText too_few_samples (f32_div width (f32_of_nat 2)) (f32_div height (f32_of_nat 2)) (label_color (ui dark))]
      else
        let peak = max (Max (set samples)) 1
        in map_option (\<lambda>series.
             concat (map (grid_line dark width height format peak) [1, 2, 3])
             @ FillText (''peak '' @ format peak) (f32_of_nat 6) (f32_of_nat 4) (label_color (ui dark)) # series)
           (draw_series width height samples THROUGHPUT_HISTORY series_color 0x3FE66666 True))"

section \<open>Rings\<close>

definition sector_steps :: "f32_bits \<Rightarrow> nat" where
  \<comment> \<open>the divisor is 0.03\<close>
  "sector_steps sweep = min (max (nat (f32_ceil (f32_abs (f32_div sweep 0x3CF5C28F)))) 2) 512"

definition sector_point :: "trigonometry \<Rightarrow> point \<Rightarrow> f32_bits \<Rightarrow> f32_bits \<Rightarrow> f32_bits \<Rightarrow> nat \<Rightarrow> nat \<Rightarrow> point" where
  "sector_point T center radius from sweep steps step =
     (let angle = f32_add from (f32_mul sweep (f32_div (f32_of_nat step) (f32_of_nat steps)))
      in \<lparr>px = f32_add (px center) (f32_mul (trig_cos T angle) radius), py = f32_add (py center) (f32_mul (trig_sin T angle) radius)\<rparr>)"

definition annular_sector :: "trigonometry \<Rightarrow> point \<Rightarrow> f32_bits \<Rightarrow> f32_bits \<Rightarrow> f32_bits \<Rightarrow> f32_bits \<Rightarrow> point list" where
  "annular_sector T center inner outer from sweep =
     (let steps = sector_steps sweep
      in map (sector_point T center outer from sweep steps) [0..<steps + 1]
         @ map (sector_point T center inner from sweep steps) (rev [0..<steps + 1]))"

fun donut_sectors :: "trigonometry \<Rightarrow> point \<Rightarrow> f32_bits \<Rightarrow> f32_bits \<Rightarrow> u64 \<Rightarrow> f32_bits \<Rightarrow> (u64 \<times> color) list \<Rightarrow> drawing list" where
  \<comment> \<open>the loop over the slices; the constants are 0.02 and 0.005\<close>
  "donut_sectors T center inner outer whole angle [] = []"
| "donut_sectors T center inner outer whole angle ((v, c) # slices) =
     (if v = 0 then donut_sectors T center inner outer whole angle slices
      else
        let sweep = f32_mul (f32_div (f32_of_nat (unat v)) (f32_of_nat (unat whole))) TAU;
            drawn = f32_max (f32_sub sweep 0x3CA3D70A) 0x3BA3D70A
        in FillPath (annular_sector T center inner outer angle drawn) c
           # donut_sectors T center inner outer whole (f32_add angle sweep) slices)"

definition draw_donut :: "trigonometry \<Rightarrow> bool \<Rightarrow> f32_bits \<Rightarrow> f32_bits \<Rightarrow> (u64 \<times> color) list \<Rightarrow> string \<Rightarrow> string \<Rightarrow> drawing list" where
  \<comment> \<open>the slices, the title and the value; the sum wraps (it panics in a debug build)\<close>
  "draw_donut T dark width height slices title_text caption =
     (let two = f32_of_nat 2; center = \<lparr>px = f32_div width two, py = f32_div height two\<rparr>;
          thickness = f32_of_nat 22;
          radius = f32_max (f32_sub (f32_sub (f32_div (f32_min width height) two) (f32_div thickness two)) two) (f32_of_nat 10);
          whole = sum_list (map fst slices)
      in (if 0 < whole
          then donut_sectors T center (f32_sub radius (f32_div thickness two)) (f32_add radius (f32_div thickness two)) whole
                 (f32_neg FRAC_PI_2) slices
          else [])
         @ [FillText caption (px center) (f32_sub (py center) (f32_of_nat 10)) (text_color (ui dark)),
            FillText title_text (px center) (f32_add (py center) (f32_of_nat 10)) (label_color (ui dark))])"

section \<open>The histogram\<close>

definition last_index :: "('a \<Rightarrow> bool) \<Rightarrow> 'a list \<Rightarrow> nat option" where
  \<comment> \<open>\<open>Iterator::rposition\<close>\<close>
  "last_index P xs = map_option (\<lambda>i. length xs - 1 - i) (find_index P (rev xs))"

definition histogram_window :: "u64 list \<Rightarrow> nat \<times> nat" where
  \<comment> \<open>the first and the last bucket that are shown\<close>
  "histogram_window counts =
     (let first = (case find_index (\<lambda>c. 0 < c) counts of Some i \<Rightarrow> i | None \<Rightarrow> 0);
          final = max (case last_index (\<lambda>c. 0 < c) counts of Some i \<Rightarrow> i | None \<Rightarrow> 0) (first + 7)
      in (first, min final (length counts - 1)))"

definition slice_inclusive :: "'a list \<Rightarrow> nat \<Rightarrow> nat \<Rightarrow> 'a list option" where
  \<comment> \<open>\<open>&xs[a..=b]\<close>\<close>
  "slice_inclusive xs a b = (if a \<le> b + 1 \<and> b < length xs then Some (take (b + 1 - a) (drop a xs)) else None)"

definition draw_bar :: "f32_bits \<Rightarrow> f32_bits \<Rightarrow> f32_bits \<Rightarrow> color \<Rightarrow> nat \<times> u64 \<Rightarrow> drawing list" where
  "draw_bar chart_height peak width bar_color ic =
     (case ic of (index, c) \<Rightarrow>
        if c = 0 then []
        else
          let bar_height = f32_mul (f32_div (f32_sqrt (f32_of_nat (unat c))) peak) (f32_sub chart_height (f32_of_nat 14));
              x = f32_mul (f32_of_nat index) width
          in [FillRect (f32_add x F32_1) (f32_sub chart_height bar_height) (f32_max (f32_sub width (f32_of_nat 2)) F32_1)
                (f32_max bar_height F32_1) bar_color])"

definition draw_mark :: "bool \<Rightarrow> f32_bits \<Rightarrow> f32_bits \<Rightarrow> nat \<Rightarrow> nat \<Rightarrow> nat \<times> string \<Rightarrow> drawing list" where
  "draw_mark dark chart_height width first final bl =
     (case bl of (bucket, label) \<Rightarrow>
        if first \<le> bucket \<and> bucket \<le> final then
          let x = f32_mul (f32_of_nat (bucket - first)) width
          in [FillText label x (f32_add chart_height (f32_of_nat 2)) (label_color (ui dark)),
              StrokePath [\<lparr>px = x, py = chart_height\<rparr>, \<lparr>px = x, py = f32_sub chart_height (f32_of_nat 4)\<rparr>] (label_color (ui dark)) F32_1]
        else [])"

definition draw_histogram :: "bool \<Rightarrow> f32_bits \<Rightarrow> f32_bits \<Rightarrow> u64 list \<Rightarrow> color \<Rightarrow> drawing list option" where
  "draw_histogram dark width height counts bar_color =
     (let chart_height = f32_max (f32_sub height (f32_of_nat 16)) (f32_of_nat 10);
          (first, final) = histogram_window counts
      in map_option (\<lambda>buckets.
           let peak = f32_sqrt (f32_of_nat (unat (max (if buckets = [] then 0 else Max (set buckets)) 1)));
               bar_width = f32_div width (f32_of_nat (length buckets))
           in concat (map (draw_bar chart_height peak bar_width bar_color) (enumerate 0 buckets))
              @ concat (map (draw_mark dark chart_height bar_width first final) [(11, ''1K''), (21, ''1M''), (31, ''1G'')]))
         (slice_inclusive counts first final))"

section \<open>The sunburst\<close>

definition hover_caption :: "bool \<Rightarrow> f32_bits \<Rightarrow> string \<Rightarrow> u64 \<Rightarrow> drawing" where
  \<comment> \<open>the label and the bytes of the hovered mark, at the bottom left\<close>
  "hover_caption dark height label bytes =
     FillText (label @ '' '' @ string_of_bytes [0xC2, 0xB7] @ '' '' @ human_bytes bytes) (f32_of_nat 8) (f32_sub height (f32_of_nat 18))
       (text_color (ui dark))"

definition label_rotation :: "f32_bits \<Rightarrow> f32_bits" where
  \<comment> \<open>tangential, and flipped on the left half\<close>
  "label_rotation mid =
     (let rotation = f32_add mid FRAC_PI_2; upright = f32_rem_euclid rotation TAU
      in if f32_le FRAC_PI_2 upright \<and> f32_less upright (f32_mul (f32_of_nat 3) FRAC_PI_2) then f32_add rotation PI32 else rotation)"

definition draw_slice ::
    "trigonometry \<Rightarrow> sunburst \<Rightarrow> sunburst_state \<Rightarrow> point \<Rightarrow> f32_bits \<Rightarrow> f32_bits \<Rightarrow> nat \<times> sunburst_slice \<Rightarrow> drawing list" where
  \<comment> \<open>one turn of the loop over the slices; the constants are 0.5, 0.18 and 6.8\<close>
  "draw_slice T sb st center hole thickness indexed =
     (case indexed of (index, sl) \<Rightarrow>
        let ring = f32_of_nat (unat (slice_ring sl));
            radius = f32_add hole (f32_mul thickness (f32_sub ring 0x3F000000));
            fill = (if sb_hovered st = Some (Slice index) then mix (slice_color sl) BLACK 0x3E3851EC else slice_color sl);
            inner = f32_add (f32_add hole (f32_mul thickness (f32_sub ring F32_1))) F32_1;
            outer_ring = f32_of_nat (unat (if slice_id sl = None then sb_rings sb else slice_ring sl));
            outer = f32_sub (f32_add hole (f32_mul thickness outer_ring)) F32_1;
            gap = f32_div (f32_of_nat 2) radius;
            (from, sweep) = (if f32_less (f32_mul (f32_of_nat 2) gap) (slice_sweep sl)
               then (f32_add (slice_start sl) (f32_div gap (f32_of_nat 2)), f32_sub (slice_sweep sl) gap)
               else (slice_start sl, slice_sweep sl));
            arc = f32_mul (slice_sweep sl) radius
        in FillPath (annular_sector T center inner outer from sweep) fill
           # (if slice_id sl \<noteq> None \<and> f32_less (f32_of_nat 46) arc then
                let budget = f32_to_nat (f32_div (f32_min (f32_sub arc (f32_of_nat 12)) (f32_of_nat 150)) 0x40D9999A);
                    mid = f32_add (slice_start sl) (f32_div (slice_sweep sl) (f32_of_nat 2))
                in [RotatedText (fit_label (slice_label sl) budget)
                      (f32_add (px center) (f32_mul (trig_cos T mid) radius)) (f32_add (py center) (f32_mul (trig_sin T mid) radius))
                      (label_rotation mid) (on_color fill)]
              else []))"

definition up_label :: string where
  \<comment> \<open>with U+2191\<close>
  "up_label = string_of_bytes [0xE2, 0x86, 0x91] @ '' up''"

definition draw_sunburst :: "trigonometry \<Rightarrow> bool \<Rightarrow> f32_bits \<Rightarrow> f32_bits \<Rightarrow> sunburst \<Rightarrow> sunburst_state \<Rightarrow> drawing list" where
  \<comment> \<open>the divisor is 3.8\<close>
  "draw_sunburst T dark width height sb st =
     (let (center, hole, thickness) = sunburst_geometry sb \<lparr>rect_x = 0, rect_y = 0, rect_width = width, rect_height = height\<rparr>
      in concat (map (draw_slice T sb st center hole thickness) (enumerate 0 (sb_slices sb)))
         @ (if sb_hovered st = Some Center \<and> sb_up sb \<noteq> None
            then [FillCircle center (f32_sub hole (f32_of_nat 4)) (panel_highlight (ui dark))] else [])
         @ [FillText (fit_label (sb_center_label sb) (f32_to_nat (f32_div hole 0x40733333))) (px center)
              (f32_sub (py center) (f32_of_nat 10)) (text_color (ui dark)),
            FillText (human_bytes (sb_center_bytes sb)) (px center) (f32_add (py center) (f32_of_nat 8)) (label_color (ui dark))]
         @ (if sb_up sb \<noteq> None
            then [FillText up_label (px center) (f32_add (py center) (f32_of_nat 24)) (label_color (ui dark))] else [])
         @ (case sb_hovered st of
              Some (Slice index) \<Rightarrow>
                (case slot (sb_slices sb) index of
                   Some sl \<Rightarrow> if slice_id sl \<noteq> None then [hover_caption dark height (slice_label sl) (slice_bytes sl)] else []
                 | None \<Rightarrow> [])
            | _ \<Rightarrow> []))"

section \<open>The outline graph\<close>

definition draw_edge :: "color \<Rightarrow> node_graph_state \<Rightarrow> f32_bits \<Rightarrow> f32_bits \<Rightarrow> graph_edge \<Rightarrow> drawing list" where
  "draw_edge guide st width height e =
     (if length (edge_points e) < 2 then []
      else [StrokePath (map (point_position st width height) (edge_points e)) guide F32_1])"

definition draw_node_label :: "bool \<Rightarrow> point \<Rightarrow> f32_bits \<Rightarrow> f32_bits \<Rightarrow> graph_label \<Rightarrow> drawing list" where
  \<comment> \<open>with the position, the radius and the alpha of the node; the constants are 0.6 and 7.3\<close>
  "draw_node_label dark here radius node_alpha label =
     (let text_alpha = f32_max node_alpha 0x3F19999A;
          name_color = (text_color (ui dark))\<lparr>alpha := text_alpha\<rparr>; detail_color = (label_color (ui dark))\<lparr>alpha := text_alpha\<rparr>
      in case gl_side label of
           RightSide \<Rightarrow>
             let name_x = f32_add (f32_add (px here) radius) (f32_of_nat 8)
             in FillText (gl_name label) name_x (f32_sub (py here) (f32_of_nat 7)) name_color
                # (if gl_detail label = [] then []
                   else [FillText (gl_detail label)
                     (f32_add (f32_add name_x (f32_mul (f32_of_nat (length (characters (gl_name label)))) 0x40E9999A)) (f32_of_nat 10))
                     (f32_sub (py here) (f32_of_nat 6)) detail_color])
         | LeftSide \<Rightarrow>
             let x = f32_sub (f32_sub (px here) radius) (f32_of_nat 8)
             in FillText (gl_name label) x (f32_sub (py here) (f32_of_nat 7)) name_color
                # (if gl_detail label = [] then []
                   else [FillText (gl_detail label) x (f32_add (py here) (f32_of_nat 7)) detail_color]))"

definition draw_node :: "bool \<Rightarrow> node_graph_state \<Rightarrow> f32_bits \<Rightarrow> f32_bits \<Rightarrow> nat \<times> graph_node \<Rightarrow> drawing list" where
  \<comment> \<open>the constant is 0.18\<close>
  "draw_node dark st width height indexed =
     (case indexed of (index, n) \<Rightarrow>
        let here = node_position st width height n; radius = f32_mul (gn_radius n) (ng_zoom st);
            hovered = (ng_hovered st = Some index);
            base = (if hovered then mix (gn_color n) BLACK 0x3E3851EC else gn_color n)
        in FillCircle here radius (base\<lparr>alpha := gn_alpha n\<rparr>)
           # (if hovered then [StrokeCircle here (f32_add radius (f32_of_nat 2)) (text_color (ui dark)) F32_1] else [])
           @ (case gn_label n of None \<Rightarrow> [] | Some label \<Rightarrow> draw_node_label dark here radius (gn_alpha n) label))"

definition draw_graph :: "bool \<Rightarrow> f32_bits \<Rightarrow> f32_bits \<Rightarrow> node_graph \<Rightarrow> node_graph_state \<Rightarrow> drawing list" where
  \<comment> \<open>the constant is 0.55\<close>
  "draw_graph dark width height g st =
     (let guide = mix (label_color (ui dark)) (panel (ui dark)) 0x3F0CCCCD
      in concat (map (draw_edge guide st width height) (ng_edges g))
         @ concat (map (draw_node dark st width height) (enumerate 0 (ng_nodes g)))
         @ (case Option.bind (ng_hovered st) (slot (ng_nodes g)) of
              None \<Rightarrow> []
            | Some n \<Rightarrow> [hover_caption dark height (case gn_label n of Some label \<Rightarrow> gl_name label | None \<Rightarrow> []) (gn_bytes n)])
         @ (if 0 < ng_hidden_children g
            then [FillText (ellipsis @ '' +'' @ show_nat (ng_hidden_children g) @ '' smaller directories'')
                    (f32_sub width (f32_of_nat 8)) (f32_sub height (f32_of_nat 18)) (label_color (ui dark))]
            else []))"

section \<open>Nothing out of range\<close>

lemma histogram_window_ok:
  assumes "counts \<noteq> []" "histogram_window counts = (first, final)"
  shows "first \<le> final" "final < length counts"
proof -
  have "(case find_index (\<lambda>c. 0 < c) counts of Some i \<Rightarrow> i | None \<Rightarrow> 0) < length counts"
    using assms(1) find_index_Some [of "\<lambda>c. 0 < c" counts] by (auto split: option.split)
  then show "first \<le> final" "final < length counts" using assms by (auto simp: histogram_window_def Let_def)
qed

lemma draw_histogram_Some: "counts \<noteq> [] \<Longrightarrow> draw_histogram dark width height counts bar_color \<noteq> None"
  using histogram_window_ok [of counts] by (auto simp: draw_histogram_def Let_def slice_inclusive_def split: prod.split)

lemma all_some_Some: "\<forall>x \<in> set xs. x \<noteq> None \<Longrightarrow> \<exists>ys. all_some xs = Some ys"
  by (induction xs) auto

lemma draw_series_Some:
  assumes "f32_le F32_1 (f32_sub height F32_1)"
  shows "draw_series width height samples window series_color stroke fill \<noteq> None"
proof -
  define here where "here = series_point width height (f32_mul (f32_of_nat (unat (max (Max (set samples)) 1))) 0x3F866666) (f32_of_nat (max (window - 1) 1))"
  have p: "\<exists>q. here age v = Some q" for age v
    using assms by (simp add: here_def series_point_def f32_checked_clamp_def Let_def)
  have "\<forall>x \<in> set (map (case_prod here) (enumerate 0 samples)). x \<noteq> None"
  proof
    fix x
    assume "x \<in> set (map (case_prod here) (enumerate 0 samples))"
    then obtain age v where "x = here age v" by (auto simp only: set_map image_iff split_paired_all prod.case)
    then show "x \<noteq> None" using p [of age v] by auto
  qed
  then obtain line where "all_some (map (case_prod here) (enumerate 0 samples)) = Some line" using all_some_Some by blast
  moreover obtain corner where "here (length samples - 1) 0 = Some corner" using p by blast
  ultimately show ?thesis unfolding draw_series_def Let_def here_def [symmetric] by simp
qed

end
