(* ===== verification/Screen.thy ===== *)
theory Screen
  imports Outline Drawing
begin

text \<open>
  The screens of \<open>desktop/src/view.rs\<close> as trees of elements: texts with their colours, what can be pressed and the message it sends,
  inputs, bars and figures, in the order of the source. Rows, columns and containers are groups; spacing, sizes and
  styles are left to the user interface library. \<open>None\<close> is a panic.
\<close>

datatype figure =
    Interactive canvas
  | SparkFigure "u64 list" color
  | AreaFigure "u64 list" color "u64 \<Rightarrow> string"
  | DonutFigure "(u64 \<times> color) list" string string
  | HistogramFigure "u64 list" color

datatype 'p element =
    Text string
  | Colored string color
  | Group "'p element list"
  | Press "'p element list" "'p app_message"
  | Input string string "string \<Rightarrow> 'p app_message" "'p app_message option"
  | Pick "worker_choice list" worker_choice "worker_choice \<Rightarrow> 'p app_message"
  | Check string bool "bool \<Rightarrow> 'p app_message"
  | Bar f32_bits color
  | Figure figure

definition f64_clamp :: "f64_bits \<Rightarrow> f64_bits \<Rightarrow> f64_bits \<Rightarrow> f64_bits" where
  "f64_clamp x low high = (if f64_less x low then low else if f64_less high x then high else x)"

definition label_text :: "display \<Rightarrow> string \<Rightarrow> 'p element" where
  \<comment> \<open>a text in the colour of labels\<close>
  "label_text D s = Colored s (label_color (ui (dark_mode D)))"

definition section_label :: "display \<Rightarrow> string \<Rightarrow> 'p element" where
  "section_label D s = label_text D s"

section \<open>The form\<close>

definition theme_toggle :: "display \<Rightarrow> 'p element" where
  \<comment> \<open>with U+2600 and U+263E\<close>
  "theme_toggle D =
     Press [label_text D (if dark_mode D then string_of_bytes [0xE2, 0x98, 0x80] @ '' Light Mode''
       else string_of_bytes [0xE2, 0x98, 0xBE] @ '' Dark Mode'')] ThemeToggled"

definition form_section :: "display \<Rightarrow> string \<Rightarrow> 'p element \<Rightarrow> 'p element" where
  "form_section D label content = Group [section_label D label, content]"

definition setup_screen :: "display \<Rightarrow> setup_form \<Rightarrow> 'p element" where
  \<comment> \<open>\<open>setup\<close>\<close>
  "setup_screen D form =
     (let choice = WorkerChoice (form_concurrency form);
          location = form_section D ''LOCATION'' (Group
            [Input ''e.g. /Users/you/Projects'' (form_root form) RootChanged (Some StartScan),
             label_text D ''The directory whose tree will be indexed.'']);
          traversal = form_section D ''TRAVERSAL'' (Group
            [Group [label_text D ''Workers'', Pick WORKER_CHOICES choice WorkersSelected],
             Check ''Cross filesystem and automount boundaries'' (form_cross_mounts form) CrossMountsToggled]);
          footer_status = (case form_error form of
             Some e \<Rightarrow> Colored e SIGNAL_RED
           | None \<Rightarrow> label_text D (show_worker_choice choice @ '' workers''));
          footer = Group [footer_status, Press [Text ''Start Indexing''] StartScan]
      in Group [theme_toggle D, Colored ''ESSM'' SKY_BLUE, Group [location, traversal, footer]])"

section \<open>Around the charts\<close>

definition sidebar_tab :: "scan_model \<Rightarrow> tab \<Rightarrow> 'p element" where
  "sidebar_tab m t =
     Press [Text (title t),
       Colored (if t = Diagnostics \<and> 0 < c_directories_failed (counters m)
         then ''  '' @ human_count (c_directories_failed (counters m)) else []) SIGNAL_RED] (TabSelected t)"

definition sidebar :: "(string \<Rightarrow> string) \<Rightarrow> display \<Rightarrow> scan_model \<Rightarrow> 'p element" where
  \<comment> \<open>with \<open>str::to_uppercase\<close>\<close>
  "sidebar upper D m =
     Group (Colored ''ESSM'' SKY_BLUE # map (sidebar_tab m) ALL_TABS
       @ [theme_toggle D, Colored (upper (phase m)) (on_color (phase_color (phase m))), Press [Text ''New Scan''] NewScan])"

definition header :: "display \<Rightarrow> scan_model \<Rightarrow> 'p element" where
  "header D m =
     Group [Colored (shown_name D (root m)) (text_color (ui (dark_mode D))),
       label_text D (format_duration (c_elapsed_ms (counters m))),
       label_text D ((case concurrency m of None \<Rightarrow> ''auto'' | Some n \<Rightarrow> show_nat (unat n)) @ '' workers'' @ middle_dot
         @ ''Findex traversal'' @ middle_dot @ mount_text m)]"

definition crumb_element :: "display \<Rightarrow> crumb \<Rightarrow> 'p element" where
  "crumb_element D c =
     (let colors = ui (dark_mode D) in
      case c of
        Hidden i \<Rightarrow> Press [Colored ellipsis (link_color colors)] (FocusDirectory i)
      | Crumb i name current \<Rightarrow> Press [Colored name (if current then text_color colors else link_color colors)] (FocusDirectory i)
      | Slash \<Rightarrow> label_text D ''/'')"

definition toolbar_element :: "display \<Rightarrow> scan_model \<Rightarrow> 'p element" where
  "toolbar_element D m =
     (case viz_toolbar D m of (crumbs, bytes, hint) \<Rightarrow>
        Group [Group (map (crumb_element D) crumbs), Colored bytes (green_text (ui (dark_mode D))), label_text D hint])"

fun canvas_element :: "display \<Rightarrow> canvas \<Rightarrow> 'p element" where
  "canvas_element D (EmptyCanvas msg path) = Group [label_text D msg, Press [Text ''Reveal in Finder''] (Reveal path)]"
| "canvas_element D c = Figure (Interactive c)"

section \<open>The inspector\<close>

definition breakdown_row :: "display \<Rightarrow> scan_model \<Rightarrow> u64 \<Rightarrow> u32 \<Rightarrow> 'p element" where
  \<comment> \<open>a child with a bar relative to the largest\<close>
  "breakdown_row D m largest child =
     (let bytes = subtree_bytes (tree m) child;
          fraction = f32_div (f32_of_nat (unat bytes)) (f32_of_nat (unat largest))
      in Press [Group [Text (shown_name D (directory_name m child)), label_text D (human_bytes bytes)],
           Bar (f32_max (f32_mul fraction (f32_of_nat 250)) (f32_of_nat 2)) SKY_BLUE] (NodeSelected child))"

definition breakdown :: "display \<Rightarrow> scan_model \<Rightarrow> u32 \<Rightarrow> 'p element list" where
  "breakdown D m subject =
     (case children_by_size m subject of
        [] \<Rightarrow> []
      | first # rest \<Rightarrow>
          [section_label D ''LARGEST CHILDREN'',
           Group (map (breakdown_row D m (max (subtree_bytes (tree m) first) 1)) (take 8 (first # rest)))])"

definition file_row :: "display \<Rightarrow> sized_entry \<Rightarrow> 'p element" where
  "file_row D e =
     Press [Text (fit_name (shown_name D (last_segment (entry_path e))) 22), label_text D (human_bytes (entry_bytes e))] (Reveal (entry_path e))"

definition files_inside :: "display \<Rightarrow> scan_model \<Rightarrow> u32 \<Rightarrow> 'p element list" where
  "files_inside D m subject =
     (case take 6 (filter (\<lambda>e. starts_with (entry_path e) (full_path m subject @ ''/'')) (top_files m)) of
        [] \<Rightarrow> []
      | files \<Rightarrow> [section_label D ''LARGEST FILES INSIDE'', Group (map (file_row D) files)])"

definition share_text :: "scan_model \<Rightarrow> u32 \<Rightarrow> string" where
  "share_text m subject =
     (if subject = focus m then ''100%'' @ middle_dot @ ''focus''
      else show_f64_1 (f64_div (f64_mul (f64_of_u64 100) (f64_of_u64 (subtree_bytes (tree m) subject)))
             (f64_of_u64 (max (subtree_bytes (tree m) (focus m)) 1))) @ ''% of focus'')"

definition inspector :: "display \<Rightarrow> scan_model \<Rightarrow> 'p element" where
  "inspector D m =
     (let subject = inspected m; t = tree m in
      Group ([section_label D ''SELECTION'', Text (shown_name D (display_name m subject)),
          label_text D (shown_name D (full_path m subject)),
          Group [Colored (human_bytes (subtree_bytes t subject)) (link_color (ui (dark_mode D))), label_text D (share_text m subject)],
          label_text D (show_nat (length (children t subject)) @ '' child directories''),
          label_text D (human_bytes (own_bytes t subject) @ '' across '' @ show_u64 (own_entries t subject) @ '' files stored directly here'')]
        @ breakdown D m subject @ files_inside D m subject
        @ [Press [Text ''Reveal in Finder''] (Reveal (full_path m subject))]))"

section \<open>The diagnostics\<close>

definition kpi_spark :: "display \<Rightarrow> string \<Rightarrow> string \<Rightarrow> string \<Rightarrow> u64 list \<Rightarrow> color \<Rightarrow> 'p element" where
  "kpi_spark D name v sub samples c = Group [label_text D name, Text v, label_text D sub, Figure (SparkFigure samples c)]"

definition kpi_plain :: "display \<Rightarrow> string \<Rightarrow> string \<Rightarrow> string \<Rightarrow> 'p element" where
  "kpi_plain D name v sub = Group [label_text D name, Text v, label_text D sub]"

definition kpi_value_colored :: "display \<Rightarrow> string \<Rightarrow> string \<Rightarrow> string \<Rightarrow> color \<Rightarrow> 'p element" where
  "kpi_value_colored D name v sub c = Group [label_text D name, Colored v c, label_text D sub]"

definition kpi_progress :: "display \<Rightarrow> string \<Rightarrow> string \<Rightarrow> string \<Rightarrow> f32_bits \<Rightarrow> color \<Rightarrow> 'p element" where
  "kpi_progress D name v sub ratio c = Group [label_text D name, Text v, Bar ratio c, label_text D sub]"

definition coverage :: "view_counters \<Rightarrow> f64_bits" where
  "coverage c =
     (if c_directories_reserved c = 0 then F64_0
      else f64_clamp (f64_div (f64_of_u64 (c_directories_completed c)) (f64_of_u64 (c_directories_reserved c))) F64_0 (f64_of_u64 1))"

definition kpis :: "display \<Rightarrow> scan_model \<Rightarrow> 'p element" where
  \<comment> \<open>the sum for the queue wraps (it panics in a debug build)\<close>
  "kpis D m =
     (let c = counters m in
      Group
        [kpi_spark D ''ENTRIES'' (human_count (c_entries c)) (human_count (f64_to_u64 (c_entries_per_second c)) @ ''/s average'')
           (throughput_history m) SKY_BLUE,
         kpi_plain D ''ALLOCATED SIZE'' (human_bytes (c_allocated_bytes c)) (human_count (c_regular_files c) @ '' regular files''),
         kpi_progress D ''COVERAGE'' (show_f64_1 (f64_mul (coverage c) (f64_of_u64 100)) @ ''%'')
           (human_count (c_directories_completed c) @ '' / '' @ human_count (c_directories_reserved c) @ '' directories'')
           (f32_of_f64 (coverage c)) (phase_color (phase m)),
         kpi_spark D ''QUEUE'' (human_count (c_scheduler_pending c + c_in_flight c)) (human_count (c_in_flight c) @ '' in flight'')
           (queue_history m) DEEP_BLUE,
         kpi_value_colored D ''FAILURES'' (human_count (c_directories_failed c)) (show_u64 (c_metadata_errors c) @ '' metadata errors'')
           (if 0 < c_directories_failed c then SIGNAL_RED else TEAL_GREEN)])"

definition legend_row :: "display \<Rightarrow> color \<Rightarrow> string \<Rightarrow> u64 \<Rightarrow> 'p element" where
  "legend_row D c label n = Group [Bar (f32_of_nat 10) c, label_text D (label @ '' '' @ human_count n)]"

definition memory_stat :: "display \<Rightarrow> string \<Rightarrow> u64 \<Rightarrow> 'p element" where
  "memory_stat D label bytes = Group [label_text D label, Text (human_bytes bytes)]"

definition card :: "display \<Rightarrow> string \<Rightarrow> 'p element \<Rightarrow> 'p element" where
  "card D name body = Group [label_text D name, body]"

definition completion_row :: "display \<Rightarrow> recent_directory \<times> string \<Rightarrow> 'p element" where
  "completion_row D dp =
     (case dp of (d, path) \<Rightarrow>
        Press [Colored (recent_state d) (state_color (dark_mode D) (recent_state d)),
          label_text D (show_u64 (recent_entries d) @ '' / '' @ show_u64 (recent_children d)),
          Text (if recent_error d = [] then shown_name D path else shown_name D path @ ''  ['' @ recent_error d @ '']'')] (Reveal path))"

definition completions_list :: "(string \<Rightarrow> string) \<Rightarrow> display \<Rightarrow> scan_model \<Rightarrow> 'p element" where
  "completions_list lower D m = Group (map (completion_row D) (take LIST_LIMIT (filtered_recent lower m)))"

definition by_count :: "(string \<times> u64) list \<Rightarrow> (string \<times> u64) list" where
  \<comment> \<open>descending by count, then ascending by key: two stable sorts\<close>
  "by_count counts = sort_key (\<lambda>(k, n). - int (unat n)) (sort_key (\<lambda>(k, n). map unat (as_bytes k)) counts)"

definition count_bar :: "display \<Rightarrow> color \<Rightarrow> u64 \<Rightarrow> string \<times> u64 \<Rightarrow> 'p element" where
  "count_bar D c maximum kn =
     (case kn of (k, n) \<Rightarrow>
        Group [Text k,
          Bar (f32_max (f32_mul (f32_div (f32_of_nat (unat n)) (f32_of_nat (unat maximum))) (f32_of_nat 140)) (f32_of_nat 2)) c,
          label_text D (human_count n)])"

definition bars_card :: "display \<Rightarrow> string \<Rightarrow> (string \<times> u64) list \<Rightarrow> color \<Rightarrow> 'p element" where
  "bars_card D name counts c =
     (let sorted = by_count counts; maximum = (case sorted of [] \<Rightarrow> 1 | (k, n) # _ \<Rightarrow> max n 1)
      in Group [label_text D name,
           Group ((if sorted = [] then [label_text D ''none''] else []) @ map (count_bar D c maximum) (take 6 sorted))])"

fun join_parts :: "string \<Rightarrow> string list \<Rightarrow> string" where
  \<comment> \<open>\<open>[String]::join\<close>\<close>
  "join_parts sep [] = []"
| "join_parts sep [p] = p"
| "join_parts sep (p # ps) = p @ sep @ join_parts sep ps"

definition failure_row :: "display \<Rightarrow> failed_directory \<Rightarrow> 'p element" where
  "failure_row D f =
     Press [Colored (failed_reason f) SIGNAL_RED,
       label_text D (join_parts middle_dot (filter (\<lambda>p. p \<noteq> []) [failed_phase f, failed_category f])),
       Text (shown_name D (failed_path f))] (Reveal (failed_path f))"

definition failures_section :: "display \<Rightarrow> scan_model \<Rightarrow> 'p element" where
  "failures_section D m =
     (if c_directories_failed (counters m) = 0 \<and> c_metadata_errors (counters m) = 0
      then Colored ''No directory failures or metadata errors observed.'' TEAL_GREEN
      else
        let counts = Group
              [bars_card D (''METADATA ERRORS'' @ middle_dot @ show_u64 (c_metadata_errors (counters m))) (metadata_error_counts m) AMBER,
               bars_card D ''FAILURE CATEGORIES'' (directory_failure_counts m) SIGNAL_RED,
               bars_card D ''FAILURE REASONS'' (directory_failure_reasons m) SIGNAL_RED]
        in if failed_directories m = [] then counts
           else Group [counts, card D (''FAILED DIRECTORIES'' @ middle_dot @ ''CLICK TO REVEAL IN FINDER'')
                  (Group (map (failure_row D) (take (LIST_LIMIT * 2) (failed_directories m))))])"

definition largest_file_row :: "display \<Rightarrow> sized_entry \<Rightarrow> 'p element" where
  "largest_file_row D e = Press [Text (human_bytes (entry_bytes e)), Text (shown_name D (entry_path e))] (Reveal (entry_path e))"

definition per_second :: "u64 \<Rightarrow> string" where
  "per_second n = human_count n @ ''/s''"

definition diagnostics :: "(string \<Rightarrow> string) \<Rightarrow> display \<Rightarrow> scan_model \<Rightarrow> 'p element" where
  "diagnostics lower D m =
     (let c = counters m in
      Group
        [kpis D m,
         Group [card D (''INDEXING RATE'' @ middle_dot @ ''LAST MINUTE'') (Figure (AreaFigure (throughput_history m) SKY_BLUE per_second)),
           card D ''ENTRY TYPES'' (Group
             [Figure (DonutFigure [(c_regular_files c, SKY_BLUE), (c_directory_entries c, DEEP_BLUE), (c_symlinks c, BLOSSOM_PINK),
                (c_other c, AMBER)] ''entries'' (human_count (c_entries c))),
              Group [legend_row D SKY_BLUE ''files'' (c_regular_files c), legend_row D DEEP_BLUE ''dirs'' (c_directory_entries c),
                legend_row D BLOSSOM_PINK ''symlinks'' (c_symlinks c), legend_row D AMBER ''other'' (c_other c)]])],
         Group [card D (''FILE SIZE DISTRIBUTION'' @ middle_dot @ string_of_bytes [0xE2, 0x88, 0x9A] @ ''COUNT'')
             (Figure (HistogramFigure (hist_counts (size_histogram m)) SKY_BLUE)),
           card D ''STORE MEMORY'' (Group
             [Figure (AreaFigure (memory_history m) DEEP_BLUE human_bytes),
              Group [memory_stat D ''blocks'' (c_block_bytes c), memory_stat D ''payload'' (c_payload_bytes c),
                memory_stat D ''table'' (c_directory_table_bytes c), memory_stat D ''journal'' (c_journal_bytes c)]])],
         failures_section D m,
         Group [card D (''COMPLETION FEED'' @ middle_dot @ ''CLICK TO REVEAL IN FINDER'') (Group
             [Input (''Filter paths'' @ ellipsis) (name_filter m) FilterChanged None, completions_list lower D m]),
           card D (''LARGEST FILES'' @ middle_dot @ ''CLICK TO REVEAL IN FINDER'')
             (Group (map (largest_file_row D) (take LIST_LIMIT (top_files m))))]])"

section \<open>The whole screen\<close>

definition visualization :: "display \<Rightarrow> scan_model \<Rightarrow> 'p element option" where
  \<comment> \<open>\<open>None\<close> is the \<open>unreachable!\<close> of the diagnostics tab\<close>
  "visualization D m =
     map_option (\<lambda>c. Group [Group [toolbar_element D m, canvas_element D c], inspector D m])
       (case active_tab m of
          Treemap \<Rightarrow> Some (treemap_canvas D m)
        | SunburstTab \<Rightarrow> Some (sunburst_canvas D m)
        | GraphTab \<Rightarrow> Some (graph_canvas D m)
        | Diagnostics \<Rightarrow> None)"

definition notice_element :: "display \<Rightarrow> notice \<Rightarrow> 'p element" where
  "notice_element D n =
     Group [Colored (notice_text n) (case notice_level n of ErrorLevel \<Rightarrow> SIGNAL_RED | Info \<Rightarrow> link_color (ui (dark_mode D))),
       Press [Text ''Dismiss''] DismissNotice]"

definition running_screen :: "(string \<Rightarrow> string) \<Rightarrow> (string \<Rightarrow> string) \<Rightarrow> display \<Rightarrow> scan_model \<Rightarrow> 'p element option" where
  \<comment> \<open>\<open>running\<close>, with the upper and the lower case of strings\<close>
  "running_screen upper lower D m =
     map_option (\<lambda>body.
       Group [sidebar upper D m,
         Group ([header D m] @ (case notice m of Some n \<Rightarrow> [notice_element D n] | None \<Rightarrow> []) @ [body])])
     (if active_tab m = Diagnostics then Some (diagnostics lower D m) else visualization D m)"

end
