(* ===== verification/Screen_Props.thy ===== *)
theory Screen_Props
  imports Screen View_Props Tours
begin

text \<open>
  The application with its screen: what the user can press, what the charts publish, and the sessions in which messages come from the
  screen, the worker and the timers only. Every screen of a session can be built and drawn, and the directories that its
  messages name are in the size tree.
\<close>

section \<open>What a screen can_send and draws\<close>

fun publishes :: "canvas \<Rightarrow> 'p app_message \<Rightarrow> bool" where
  \<comment> \<open>a chart publishes the message in some state, for some event of the mouse\<close>
  "publishes (TreemapCanvas tm) msg \<longleftrightarrow>
     (\<exists>within instant width height cursor event st st'. treemap_update within instant tm width height cursor event st = (st', Some (Publish msg)))"
| "publishes (SunburstCanvas sb) msg \<longleftrightarrow>
     (\<exists>atan2 instant bounds cursor event st st'. sunburst_update atan2 instant sb bounds cursor event st = (st', Some (Publish msg)))"
| "publishes (GraphCanvas g) msg \<longleftrightarrow>
     (\<exists>width height cursor event st st'. graph_update g width height cursor event st = (st', Some (Publish msg)))"
| "publishes (EmptyCanvas _ _) msg \<longleftrightarrow> False"

fun can_send :: "'p element \<Rightarrow> 'p app_message \<Rightarrow> bool" where
  "can_send (Text _) msg \<longleftrightarrow> False"
| "can_send (Colored _ _) msg \<longleftrightarrow> False"
| "can_send (Group es) msg \<longleftrightarrow> (\<exists>e \<in> set es. can_send e msg)"
| "can_send (Press es a) msg \<longleftrightarrow> msg = a \<or> (\<exists>e \<in> set es. can_send e msg)"
| "can_send (Input _ _ f submit) msg \<longleftrightarrow> (\<exists>s. msg = f s) \<or> submit = Some msg"
| "can_send (Pick choices _ f) msg \<longleftrightarrow> (\<exists>c \<in> set choices. msg = f c)"
| "can_send (Check _ _ f) msg \<longleftrightarrow> (\<exists>b. msg = f b)"
| "can_send (Bar _ _) msg \<longleftrightarrow> False"
| "can_send (Figure (Interactive c)) msg \<longleftrightarrow> publishes c msg"
| "can_send (Figure _) msg \<longleftrightarrow> False"

fun figures :: "'p element \<Rightarrow> figure list" where
  "figures (Group es) = concat (map figures es)"
| "figures (Press es _) = concat (map figures es)"
| "figures (Figure f) = [f]"
| "figures _ = []"

record chart_states =
  treemap_st :: treemap_state
  sunburst_st :: sunburst_state
  graph_st :: node_graph_state

fun draw_figure :: "trigonometry \<Rightarrow> bool \<Rightarrow> f32_bits \<Rightarrow> f32_bits \<Rightarrow> chart_states \<Rightarrow> figure \<Rightarrow> drawing list option" where
  \<comment> \<open>\<open>None\<close> is a panic\<close>
  "draw_figure T dark width height S (Interactive (TreemapCanvas tm)) = draw_treemap dark tm width height (treemap_st S)"
| "draw_figure T dark width height S (Interactive (SunburstCanvas sb)) = Some (draw_sunburst T dark width height sb (sunburst_st S))"
| "draw_figure T dark width height S (Interactive (GraphCanvas g)) = Some (draw_graph dark width height g (graph_st S))"
| "draw_figure T dark width height S (Interactive (EmptyCanvas _ _)) = Some []"
| "draw_figure T dark width height S (SparkFigure samples c) = draw_sparkline width height samples c"
| "draw_figure T dark width height S (AreaFigure samples c format) = draw_area_chart dark width height format samples c"
| "draw_figure T dark width height S (DonutFigure slices name caption) = Some (draw_donut T dark width height slices name caption)"
| "draw_figure T dark width height S (HistogramFigure counts c) = draw_histogram dark width height counts c"

section \<open>Directories of the tree\<close>

definition inside :: "scan_model \<Rightarrow> u32 \<Rightarrow> bool" where
  \<comment> \<open>the root's id, where a scan starts, or a directory of the tree\<close>
  "inside m i \<longleftrightarrow> i = 0 \<or> present (tree m) i"

definition view_inside :: "scan_model \<Rightarrow> bool" where
  "view_inside m \<longleftrightarrow> inside m (focus m) \<and> inside m (inspected m)"

definition proper :: "scan_model \<Rightarrow> 'p app_message \<Rightarrow> bool" where
  \<comment> \<open>a message of the user that names directories of the tree only\<close>
  "proper m msg \<longleftrightarrow> (case msg of FocusDirectory i \<Rightarrow> inside m i | NodeSelected i \<Rightarrow> inside m i
     | BackendMessage _ \<Rightarrow> False | AutoshotTick \<Rightarrow> False | ShotTaken _ \<Rightarrow> False | _ \<Rightarrow> True)"

named_theorems inside_intros \<open>directories of the tree\<close>

lemma children_inside [inside_intros]: "model_ok m \<Longrightarrow> c \<in> set (children (tree m) i) \<Longrightarrow> inside m c"
  by (auto simp: inside_def model_ok_def tree_ok_def family_def closed_def)

lemma sized_children_inside [inside_intros]: "model_ok m \<Longrightarrow> c \<in> set (children_by_size m i) \<Longrightarrow> inside m c"
  by (auto simp: model_children intro: inside_intros)

lemma parent_inside [inside_intros]: "model_ok m \<Longrightarrow> parent (tree m) i = Some p \<Longrightarrow> inside m p"
  by (auto simp: inside_def model_ok_def tree_ok_def family_def closed_def)

lemma grow_chain_inside:
  "\<lbrakk>model_ok m; t = tree m; \<forall>j \<in> set chain. inside m j; j \<in> set (grow_chain t chain i)\<rbrakk> \<Longrightarrow> inside m j"
proof (induction t chain i rule: grow_chain.induct)
  case (1 t chain current)
  then show ?case
    by (subst (asm) grow_chain.simps [of t chain current]) (auto split: option.splits if_splits intro: parent_inside)
qed

lemma ancestors_inside [inside_intros]: "\<lbrakk>model_ok m; inside m i; j \<in> set (ancestor_chain m i)\<rbrakk> \<Longrightarrow> inside m j"
  using grow_chain_inside [of m "tree m" "[i]" j i] by (simp add: ancestor_chain_def)

section \<open>What the charts publish\<close>

lemma tile_inside: "\<lbrakk>model_ok m; view_inside m; c \<in> set (treemap_tiles D m)\<rbrakk> \<Longrightarrow> inside m (cell_id c)"
  using sized_children_inside [of m _ "focus m"]
  by (auto simp: treemap_tiles_eq ranked_insert_def child_tile_def files_tile_def view_inside_def Let_def
      dest!: in_set_takeD set_takeWhileD set_dropWhileD split: if_splits)

definition slice_inside :: "scan_model \<Rightarrow> sunburst_slice \<Rightarrow> bool" where
  "slice_inside m s \<longleftrightarrow> (case slice_id s of None \<Rightarrow> True | Some i \<Rightarrow> inside m i)"

lemma slices_inside:
  "\<lbrakk>model_ok m; list_all (slice_inside m) slices\<rbrakk> \<Longrightarrow> list_all (slice_inside m) (subdivide D m slices i ring begin_angle sweep branch rings)"
  "\<lbrakk>model_ok m; list_all (slice_inside m) slices; list_all (inside m) cs\<rbrakk>
    \<Longrightarrow> list_all (slice_inside m) (fst (subdivide_children D m whole ring sweep branch rings index cs slices cursor))"
proof (induction D m slices i ring begin_angle sweep branch rings and D m whole ring sweep branch rings index cs slices cursor
    rule: subdivide_subdivide_children.induct)
  case (1 D m slices i ring begin_angle sweep branch rings)
  have cs: "list_all (inside m) (children_by_size m i)" using 1(2) by (auto simp: list_all_iff intro: sized_children_inside)
  show ?case
  proof (cases "rings < ring \<or> f32_less sweep MINIMUM_SWEEP \<or> 2000 < length slices")
    case False
    have "slice_inside m (filler D ring cursor remainder)" for cursor remainder by (simp add: slice_inside_def filler_def)
    then show ?thesis using 1(1) [OF False 1(2,3) cs] False
      by (subst subdivide.simps) (auto simp: Let_def split: prod.split)
  qed (use 1(3) in \<open>simp add: subdivide.simps\<close>)
next
  case (2 D m whole ring sweep branch rings index slices cursor)
  then show ?case by (simp add: subdivide_children.simps)
next
  case (3 D m whole ring sweep branch rings index child rest slices cursor)
  have new: "slice_inside m (child_slice D m child ring cursor share c)" for share c
    using 3(6) by (simp add: slice_inside_def child_slice_def)
  show ?case
  proof (cases "f32_less (share_of sweep (subtree_bytes (tree m) child) whole) MINIMUM_SWEEP")
    case True
    then show ?thesis using 3(1) [OF refl True] 3(4,5,6) by (simp add: subdivide_children.simps(2) Let_def)
  next
    case False
    then show ?thesis using 3(2,3) [OF refl False refl refl] 3(4,5,6) new
      by (simp add: subdivide_children.simps(2) Let_def)
  qed
qed

lemma sunburst_inside: "model_ok m \<Longrightarrow> s \<in> set (sunburst_slices D m) \<Longrightarrow> slice_id s = Some i \<Longrightarrow> inside m i"
  using slices_inside(1) [of m "[]" D "focus m"] by (fastforce simp: sunburst_slices_def list_all_iff slice_inside_def)

definition band_inside :: "scan_model \<Rightarrow> band \<Rightarrow> bool" where
  "band_inside m b \<longleftrightarrow> (case band_child b of None \<Rightarrow> True | Some c \<Rightarrow> inside m c) \<and> list_all (inside m \<circ> fst) (band_grandchildren b)"

lemma grand_rows_fst: "map fst (fst (grand_rows cursor gs)) = gs"
  by (induction gs arbitrary: cursor) (simp_all add: split_beta)

lemma bands_inside:
  "\<lbrakk>model_ok m; list_all (\<lambda>r. case snd r of None \<Rightarrow> True | Some c \<Rightarrow> inside m c) rows\<rbrakk>
    \<Longrightarrow> list_all (band_inside m) (fst (bands_from m place cursor rows))"
proof (induction m place cursor rows rule: bands_from.induct)
  case (2 m place cursor bytes row rest)
  have "list_all (inside m) (previewed m place row)"
    using 2(2) by (auto simp: previewed_def list_all_iff dest!: in_set_takeD intro: sized_children_inside split: option.splits)
  then have "list_all (inside m \<circ> fst) (fst (grand_rows c (previewed m place row)))" for c
    using grand_rows_fst [of c "previewed m place row"] by (simp add: list.pred_map [symmetric])
  moreover obtain gs c where g: "grand_rows (f32_add cursor CHILD_ROW) (previewed m place row) = (gs, c)" by force
  ultimately have "list_all (inside m \<circ> fst) gs" by (metis fst_conv)
  moreover have "list_all (band_inside m) (fst (bands_from m (place + 1) c rest))"
    using 2(1) [OF refl g [symmetric] refl 2(2)] 2(3) by simp
  moreover have "band_inside m \<lparr>band_child = row, band_bytes = bytes, band_y = y, band_grandchildren = gs\<rparr>" for y
    using 2(3) \<open>list_all (inside m \<circ> fst) gs\<close> by (simp add: band_inside_def)
  ultimately show ?case by (simp add: g split_beta)
qed simp

lemma rows_inside: "model_ok m \<Longrightarrow> list_all (\<lambda>r. case snd r of None \<Rightarrow> True | Some c \<Rightarrow> inside m c) (shown_rows m)"
  using sized_children_inside [of m _ "focus m"]
  by (auto simp: shown_rows_def insert_at_def list_all_iff Let_def dest!: in_set_takeD in_set_dropD)

lemma band_nodes_inside:
  "\<lbrakk>view_inside m; band_inside m b; n \<in> set (band_nodes D m largest offset (place, b))\<rbrakk> \<Longrightarrow> inside m (gn_id n)"
  by (auto simp: band_nodes_def row_node_def grandchild_node_def band_inside_def view_inside_def list_all_iff Let_def split: option.splits)

lemma enumerate_mem: "(k, x) \<in> set (enumerate n xs) \<Longrightarrow> x \<in> set xs"
  by (auto simp: in_set_enumerate_eq)

lemma outline_inside:
  assumes "model_ok m" "view_inside m" "n \<in> set (ng_nodes (outline D m (shown_rows m)))"
  shows "inside m (gn_id n)"
proof -
  have "inside m i" if "i \<in> set (nearest_ancestors m)" for i
  proof -
    have "i \<in> set (ancestor_chain m (focus m))"
      using that by (auto simp: nearest_ancestors_def ancestors_def Let_def rev_map take_map dest!: in_set_takeD)
    then show ?thesis using ancestors_inside [OF assms(1)] assms(2) by (auto simp: view_inside_def)
  qed
  moreover have "list_all (band_inside m) (fst (bands_from m 0 0 (shown_rows m)))"
    by (rule bands_inside [OF assms(1) rows_inside [OF assms(1)]])
  ultimately show ?thesis
    using assms(2,3) band_nodes_inside [OF assms(2)] unfolding list_all_iff
    by (auto simp: outline_def split_beta Let_def ancestor_node_def focus_node_def view_inside_def dest!: enumerate_mem)
qed

lemma treemap_update_publishes:
  "treemap_update within instant tm width height cursor event st = (st', Some (Publish msg))
    \<Longrightarrow> \<exists>c \<in> set (tm_cells tm). msg = NodeSelected (cell_id c) \<or> msg = FocusDirectory (cell_id c)"
  using treemap_publishes [of within instant tm width height cursor event st st' msg] nth_mem [of _ "tm_cells tm"] by blast

lemma sunburst_update_publishes:
  "sunburst_update atan2 instant sb bounds cursor event st = (st', Some (Publish msg))
    \<Longrightarrow> (\<exists>s \<in> set (sb_slices sb). \<exists>i. slice_id s = Some i \<and> (msg = NodeSelected i \<or> msg = FocusDirectory i))
      \<or> (\<exists>i. sb_up sb = Some i \<and> msg = FocusDirectory i)"
  using nth_mem [of _ "sb_slices sb"]
  by (cases event)
    (auto simp: sunburst_update_def slot_def click_def Let_def split: option.splits if_splits prod.splits sunburst_hit.splits)

lemma graph_update_publishes:
  "graph_update g width height cursor event st = (st', Some (Publish msg))
    \<Longrightarrow> \<exists>n \<in> set (ng_nodes g). msg = NodeSelected (gn_id n) \<or> msg = FocusDirectory (gn_id n)"
  using nth_mem [of _ "ng_nodes g"]
  by (cases event)
    (auto simp: graph_update_def slot_def Let_def split: option.splits if_splits)

lemma canvas_publishes:
  assumes "model_ok m" "view_inside m"
  shows "publishes (treemap_canvas D m) msg \<Longrightarrow> proper m msg"
    "publishes (sunburst_canvas D m) msg \<Longrightarrow> proper m msg"
    "publishes (graph_canvas D m) msg \<Longrightarrow> proper m msg"
proof -
  show "publishes (treemap_canvas D m) msg \<Longrightarrow> proper m msg"
    using tile_inside [OF assms, of _ D]
    by (auto simp: treemap_canvas_def viz_empty_def proper_def Let_def dest!: treemap_update_publishes split: if_splits)
  show "publishes (sunburst_canvas D m) msg \<Longrightarrow> proper m msg"
    using sunburst_inside [OF assms(1), of _ D] parent_inside [OF assms(1), of "focus m"]
    by (auto simp: sunburst_canvas_def viz_empty_def proper_def Let_def dest!: sunburst_update_publishes split: if_splits)
  show "publishes (graph_canvas D m) msg \<Longrightarrow> proper m msg"
    using outline_inside [OF assms, of _ D]
    by (auto simp: graph_canvas_def viz_empty_def proper_def Let_def dest!: graph_update_publishes split: if_splits)
qed

section \<open>What the screens send\<close>

lemma proper_simps [simp]:
  "proper m (FocusDirectory i) = inside m i" "proper m (NodeSelected i) = inside m i" "proper m (TabSelected t)" "proper m StartScan"
  "proper m NewScan" "proper m ThemeToggled" "proper m (Reveal p)" "proper m (RootChanged s)" "proper m (FilterChanged s)"
  "proper m (WorkersSelected c)" "proper m (CrossMountsToggled b)" "proper m DismissNotice"
  by (simp_all add: proper_def)

lemma setup_sends: "can_send (setup_screen D form) msg \<Longrightarrow> proper m msg"
  by (auto simp: setup_screen_def form_section_def section_label_def label_text_def theme_toggle_def Let_def split: option.splits)

lemma crumb_inside:
  assumes "model_ok m" "view_inside m" "crumb_message c = Some msg" "c \<in> set (breadcrumbs D m)"
  shows "proper m msg"
proof -
  let ?as = "ancestors m (focus m)"
  obtain place where p: "place < length ?as" "c \<in> set (crumb_at D m ?as place)" using assms(4) by (auto simp: breadcrumbs_def Let_def)
  have "inside m (fst (?as ! k))" if "k < length ?as" for k
    using that ancestors_inside [OF assms(1)] assms(2) by (auto simp: ancestors_def view_inside_def)
  then show ?thesis using p assms(3) by (auto simp: crumb_at_def Let_def TAIL_def split: if_splits)
qed

lemma crumb_sends: "can_send (crumb_element D c) msg \<longleftrightarrow> crumb_message c = Some msg"
  by (cases c) (auto simp: crumb_element_def label_text_def Let_def)

lemma toolbar_sends: "\<lbrakk>model_ok m; view_inside m; can_send (toolbar_element D m) msg\<rbrakk> \<Longrightarrow> proper m msg"
  by (auto simp: toolbar_element_def viz_toolbar_def label_text_def crumb_sends intro: crumb_inside)

lemma canvas_sends: "\<lbrakk>can_send (canvas_element D c) msg; publishes c msg \<Longrightarrow> proper m msg\<rbrakk> \<Longrightarrow> proper m msg"
  by (cases c) (auto simp: label_text_def)

lemma inspector_sends: "\<lbrakk>model_ok m; can_send (inspector D m) msg\<rbrakk> \<Longrightarrow> proper m msg"
  using sized_children_inside [of m _ "inspected m"]
  by (cases "children_by_size m (inspected m)")
    (auto simp: inspector_def label_text_def section_label_def breakdown_def breakdown_row_def files_inside_def file_row_def Let_def
      split: list.splits dest!: in_set_takeD)

lemma visualization_sends:
  "\<lbrakk>model_ok m; view_inside m; visualization D m = Some s; can_send s msg\<rbrakk> \<Longrightarrow> proper m msg"
  using toolbar_sends [of m D msg] inspector_sends [of m D msg] canvas_sends [OF _ canvas_publishes(1) [of m D]]
    canvas_sends [OF _ canvas_publishes(2) [of m D]] canvas_sends [OF _ canvas_publishes(3) [of m D]]
  by (auto simp: visualization_def split: tab.splits)

lemma kpis_silent: "\<not> can_send (kpis D m) msg"
  by (simp add: kpis_def kpi_spark_def kpi_plain_def kpi_progress_def kpi_value_colored_def label_text_def Let_def)

lemma bars_silent: "\<not> can_send (bars_card D name counts c) msg"
  by (auto simp: bars_card_def label_text_def count_bar_def Let_def split: prod.splits)

lemma failures_sends: "can_send (failures_section D m) msg \<Longrightarrow> \<exists>path. msg = Reveal path"
  by (auto simp: failures_section_def bars_silent card_def label_text_def failure_row_def Let_def split: if_splits)

lemma diagnostics_sends: "can_send (diagnostics lower D m) msg \<Longrightarrow> proper m' msg"
  by (auto simp: diagnostics_def kpis_silent card_def label_text_def legend_row_def memory_stat_def completions_list_def completion_row_def
      largest_file_row_def Let_def dest!: failures_sends split: prod.splits)

lemma running_sends:
  assumes "model_ok m" "view_inside m" "running_screen upper lower D m = Some s" "can_send s msg"
  shows "proper m msg"
proof -
  obtain body where b: "(if active_tab m = Diagnostics then Some (diagnostics lower D m) else visualization D m) = Some body"
    "s = Group [sidebar upper D m, Group ([header D m] @ (case notice m of Some n \<Rightarrow> [notice_element D n] | None \<Rightarrow> []) @ [body])]"
    using assms(3) by (auto simp: running_screen_def)
  have "proper m msg" if "can_send body msg"
    using that b(1) visualization_sends [OF assms(1,2)] diagnostics_sends by (auto split: if_splits)
  then show ?thesis
    using assms(4) by (auto simp: b(2) sidebar_def sidebar_tab_def header_def theme_toggle_def label_text_def notice_element_def
        split: option.splits)
qed

text \<open>
  The prefix that selects the files inside a directory is its path and a slash. For the root of the file system that
  is \<open>//\<close>, with which no joined path begins, so nothing is listed when \<open>/\<close> itself is inspected.
\<close>
lemma files_inside_root:
  assumes "full_path m subject = ''/''" "\<forall>e \<in> set (top_files m). \<not> starts_with (entry_path e) ''//''"
  shows "files_inside D m subject = []"
proof -
  have "filter (\<lambda>e. starts_with (entry_path e) (full_path m subject @ ''/'')) (top_files m) = []"
    using assms by (simp add: filter_empty_conv)
  then show ?thesis by (simp add: files_inside_def)
qed

lemma root_file_prefix: "name \<noteq> [] \<Longrightarrow> hd name \<noteq> CHR ''/'' \<Longrightarrow> \<not> starts_with (join_path ''/'' name) ''//''"
  by (cases name) (simp_all add: join_path_def starts_with_def)

section \<open>What the screens draw\<close>

lemma squarify_at_most: "length (squarify (areas cells) width height) \<le> length cells"
  using squarify_tiles [of width height cells] by (cases "f32_le width 0 \<or> f32_le height 0") (auto simp: squarify_def Let_def)

definition drawable :: "figure \<Rightarrow> bool" where
  \<comment> \<open>whatever the state of the chart, in a canvas that is two pixels high at least\<close>
  "drawable f \<longleftrightarrow> (\<forall>T dark width height S. f32_le F32_1 (f32_sub height F32_1) \<longrightarrow> draw_figure T dark width height S f \<noteq> None)"

lemma drawable_simps [simp]:
  "drawable (DonutFigure slices name caption)" "drawable (Interactive (SunburstCanvas sb))" "drawable (Interactive (GraphCanvas g))"
  "drawable (Interactive (EmptyCanvas a b))"
  by (simp_all add: drawable_def)

lemma drawable_series [simp]: "drawable (SparkFigure samples c)" "drawable (AreaFigure samples c format)"
  by (simp_all add: drawable_def draw_sparkline_def draw_area_chart_def draw_series_Some Let_def del: not_None_eq)

lemma drawable_histogram: "counts \<noteq> [] \<Longrightarrow> drawable (HistogramFigure counts c)"
  using draw_histogram_Some by (simp add: drawable_def)

lemma drawable_treemap: "tm_palette tm \<noteq> [] \<Longrightarrow> drawable (Interactive (TreemapCanvas tm))"
  using draw_treemap_Some [OF _ squarify_at_most] by (simp add: drawable_def)

lemma drawable_canvas:
  "f \<in> set (figures (canvas_element D (treemap_canvas D m))) \<Longrightarrow> drawable f"
  "f \<in> set (figures (canvas_element D (sunburst_canvas D m))) \<Longrightarrow> drawable f"
  "f \<in> set (figures (canvas_element D (graph_canvas D m))) \<Longrightarrow> drawable f"
  using drawable_treemap
  by (auto simp: treemap_canvas_def sunburst_canvas_def graph_canvas_def viz_empty_def label_text_def BRANCH_PALETTE_def Let_def
      split: if_splits)

lemma figures_crumb [simp]: "figures (crumb_element D c) = []"
  by (cases c) (simp_all add: crumb_element_def label_text_def Let_def)

lemma figures_around [simp]:
  "figures (sidebar upper D m) = []" "figures (header D m) = []" "figures (toolbar_element D m) = []"
  "figures (notice_element D n) = []" "figures (failures_section D m) = []" "figures (completions_list lower D m) = []"
  "figures (setup_screen D form) = []"
proof -
  show "figures (sidebar upper D m) = []" "figures (header D m) = []" "figures (notice_element D n) = []"
    "figures (setup_screen D form) = []"
    by (simp_all add: sidebar_def sidebar_tab_def theme_toggle_def label_text_def header_def notice_element_def setup_screen_def
        form_section_def section_label_def Let_def split: option.split)
  show "figures (toolbar_element D m) = []" by (simp add: toolbar_element_def viz_toolbar_def label_text_def)
  show "figures (failures_section D m) = []"
    by (auto simp: failures_section_def bars_card_def card_def label_text_def failure_row_def count_bar_def Let_def split: prod.splits)
  show "figures (completions_list lower D m) = []"
    by (auto simp: completions_list_def completion_row_def label_text_def split: prod.splits)
qed

lemma figures_inspector [simp]: "figures (inspector D m) = []"
  by (cases "children_by_size m (inspected m)")
    (auto simp: inspector_def label_text_def section_label_def breakdown_def breakdown_row_def files_inside_def file_row_def Let_def
      split: list.splits)

lemma diagnostics_drawable: "hist_counts (size_histogram m) \<noteq> [] \<Longrightarrow> f \<in> set (figures (diagnostics lower D m)) \<Longrightarrow> drawable f"
  by (auto simp: diagnostics_def kpis_def kpi_spark_def kpi_plain_def kpi_progress_def kpi_value_colored_def card_def label_text_def
      legend_row_def memory_stat_def largest_file_row_def drawable_histogram Let_def)

lemma running_draws:
  assumes "hist_counts (size_histogram m) \<noteq> []"
  shows "\<exists>s. running_screen upper lower D m = Some s \<and> (\<forall>f \<in> set (figures s). drawable f)"
proof (cases "active_tab m")
  case Diagnostics
  then show ?thesis using diagnostics_drawable [OF assms] by (auto simp: running_screen_def split: option.split)
qed (auto simp: running_screen_def visualization_def drawable_canvas split: option.splits)

end
