(* ===== verification/Session.thy ===== *)
theory Session
  imports Screen_Props
begin

text \<open>
  Sessions of the application: what the user does comes from the screen that is shown, the rest from the worker and the timers. The
  screen of every state of a session can be built and drawn, its messages name directories of the size tree only, and are all handled.
\<close>

section \<open>The tree only grows\<close>

definition grows :: "size_tree \<Rightarrow> size_tree \<Rightarrow> bool" where
  "grows t t' \<longleftrightarrow> length (nodes t) \<le> length (nodes t')"

lemma grows_refl [simp]: "grows t t"
  by (simp add: grows_def)

lemma grows_trans: "grows t u \<Longrightarrow> grows u v \<Longrightarrow> grows t v"
  by (simp add: grows_def)

lemma grows_ensure: "grows t (ensure i t)"
  by (simp add: grows_def ensure_def Let_def)

lemma grows_modify: "modify i f t = Some t' \<Longrightarrow> grows t t'"
  by (auto simp: grows_def modify_def split: if_splits)

lemma grows_mark: "mark_children_dirty i t = Some t' \<Longrightarrow> grows t t'"
  using grows_modify by (fastforce simp: mark_children_dirty_def bind_eq_Some_conv grows_def split: if_splits)

lemma grows_add_up: "add_up n i bytes t = Some t' \<Longrightarrow> grows t t'"
proof (induction n arbitrary: i t)
  case (Suc n)
  then show ?case
    by (auto simp: bind_eq_Some_conv split: if_splits dest!: grows_modify grows_mark Suc.IH intro: grows_trans)
qed simp

lemma grows_set_name: "set_name i name t = Some t' \<Longrightarrow> grows t t'"
  using grows_ensure [of t i] by (auto simp: set_name_def split: if_splits dest!: grows_modify intro: grows_trans)

lemma grows_set_own: "set_own i a b t = Some t' \<Longrightarrow> grows t t'"
  using grows_ensure [of t i] by (auto simp: set_own_def dest!: grows_modify intro: grows_trans)

lemma grows_add_bytes: "add_bytes i bytes t = Some t' \<Longrightarrow> grows t t'"
  using grows_ensure [of t i] by (auto simp: add_bytes_def dest!: grows_add_up intro: grows_trans)

lemma grows_link: "link i p t = Some t' \<Longrightarrow> grows t t'"
proof -
  assume l: "link i p t = Some t'"
  have e: "grows t (ensure p (ensure i t))" using grows_ensure grows_trans by blast
  from l have "grows (ensure p (ensure i t)) t'"
    by (auto simp: link_def bind_eq_Some_conv Let_def split: if_splits dest!: grows_modify grows_mark intro: grows_trans)
  with e show "grows t t'" by (rule grows_trans)
qed

lemma grows_tree_add: "tree_add d t = Some t' \<Longrightarrow> grows t t'"
  by (auto simp: tree_add_def bind_eq_Some_conv split: option.splits
      dest!: grows_link grows_set_name grows_set_own grows_add_bytes intro: grows_trans)

lemma grows_tree_add_all: "tree_add_all ds t = Some t' \<Longrightarrow> grows t t'"
  by (induction ds arbitrary: t) (auto simp: bind_eq_Some_conv dest!: grows_tree_add intro: grows_trans)

lemma grows_sort_batch: "sort_batch ps t = Some t' \<Longrightarrow> grows t t'"
  by (induction ps arbitrary: t) (auto simp: bind_eq_Some_conv dest!: grows_modify intro: grows_trans)

lemma grows_finish: "finish_batch t = Some t' \<Longrightarrow> grows t t'"
  using grows_sort_batch [of "dirty_children t" "t\<lparr>dirty_children := []\<rparr>" t'] by (simp add: finish_batch_def grows_def)

lemma grows_event: "apply_event e m = Some m' \<Longrightarrow> grows (tree m) (tree m')"
  using apply_event_tree [of e m m']
  by (cases e) (auto simp: tree_batch_def bind_eq_Some_conv dest!: grows_tree_add_all grows_finish intro: grows_trans)

lemma inside_grows: "grows (tree m) (tree m') \<Longrightarrow> inside m i \<Longrightarrow> inside m' i"
  by (auto simp: inside_def grows_def present_def)

section \<open>What an event leaves alone\<close>

lemma add_directories_view:
  "add_directories ds m = Some m' \<Longrightarrow> focus m' = focus m \<and> selected m' = selected m"
proof (induction ds arbitrary: m)
  case (Cons d ds)
  from Cons.prems obtain m1 where m1: "add_directory d m = Some m1" "add_directories ds m1 = Some m'" by (auto simp: bind_eq_Some_conv)
  have "focus m1 = focus m \<and> selected m1 = selected m"
    using m1(1) by (auto simp: add_directory_def record_recent_def record_failure_def Let_def)
  then show ?case using Cons.IH [OF m1(2)] by simp
qed simp

lemma record_rate_view: "focus (record_rate a b c d m) = focus m" "selected (record_rate a b c d m) = selected m"
  "size_histogram (record_rate a b c d m) = size_histogram m"
  by (simp_all add: record_rate_def Let_def split: option.splits prod.splits)

definition event_ok :: "backend_event \<Rightarrow> bool" where
  \<comment> \<open>arrays have their length, and a summary never names the id that stands for no parent\<close>
  "event_ok e \<longleftrightarrow> list_all (\<lambda>d. dir_parent_id d \<noteq> Some NO_PARENT) (event_dirs e)
     \<and> (case e of Update _ _ _ _ h \<Rightarrow> hist_ok h | _ \<Rightarrow> True)"

lemma apply_event_view:
  assumes "apply_event e m = Some m'"
  shows "focus m' = focus m" "selected m' = selected m" "event_ok e \<Longrightarrow> hist_ok (size_histogram m) \<Longrightarrow> hist_ok (size_histogram m')"
  using assms
  by (cases e; auto simp: apply_event_def bind_eq_Some_conv record_rate_view event_ok_def Let_def dest!: add_directories_view)+

lemma descend_inside:
  assumes "descend m i = Some j" "model_ok m" "inside m i"
  shows "inside m j"
proof -
  have "model_ok m \<longrightarrow> inside m i \<longrightarrow> inside m j"
  proof (rule descend.raw_induct [OF _ assms(1)], intro impI)
    fix f m i j
    assume IH: "\<And>m i j. f m i = Some j \<Longrightarrow> model_ok m \<longrightarrow> inside m i \<longrightarrow> inside m j"
      and body: "(if children_by_size m i = [] then Some i else f m (hd (children_by_size m i))) = Some j"
      and m: "model_ok m" "inside m i"
    show "inside m j"
      using body IH [of m "hd (children_by_size m i)" j] m sized_children_inside [OF m(1), of "hd (children_by_size m i)" i]
      by (auto split: if_splits)
  qed
  then show ?thesis using assms by blast
qed

section \<open>Sessions\<close>

record redaction =
  \<comment> \<open>the settings of a run that the screen depends on\<close>
  re_hidden :: bool
  re_terms :: "string list"
  re_upper :: "string \<Rightarrow> string"
  re_lower :: "string \<Rightarrow> string"

definition desk_display :: "redaction \<Rightarrow> 'p desktop \<Rightarrow> display" where
  "desk_display R st = \<lparr>dark_mode = d_dark st, hide_names = re_hidden R, hidden_terms = re_terms R\<rparr>"

definition desk_view :: "redaction \<Rightarrow> 'p desktop \<Rightarrow> 'p element option" where
  \<comment> \<open>\<open>view\<close> of \<open>main.rs\<close>\<close>
  "desk_view R st =
     (case d_screen st of
        SetupScreen \<Rightarrow> Some (setup_screen (desk_display R st) (d_setup st))
      | RunningScreen \<Rightarrow> running_screen (re_upper R) (re_lower R) (desk_display R st) (d_model st))"

datatype launch = FailWith string | ShowHelp | StartApp bool bool cli
  \<comment> \<open>the message and exit code 1, the help, or the application with its theme and the flag of anonymisation\<close>

definition app_main :: "string list \<Rightarrow> bool \<Rightarrow> launch" where
  \<comment> \<open>\<open>main\<close>, with the answer of \<open>system_prefers_dark\<close>\<close>
  "app_main args prefers_dark =
     (case parse_arguments args of
        Inl e \<Rightarrow> FailWith (''essm: '' @ e)
      | Inr cli \<Rightarrow>
          if cli_help cli then ShowHelp
          else StartApp (cli_dark cli \<or> prefers_dark) (cli_anonymize cli) cli)"

inductive ui_session :: "redaction \<Rightarrow> 'p desktop \<Rightarrow> bool" for R where
  launch: "app_main args prefers_dark = StartApp dark (re_hidden R) cli \<Longrightarrow> ui_session R (new_desktop H time answers dark cli)"
| press: "\<lbrakk>ui_session R st; desk_view R st = Some s; can_send s msg; update H opener time msg st = Some (st', task)\<rbrakk> \<Longrightarrow> ui_session R st'"
| worker: "\<lbrakk>ui_session R st; event_ok e; update H opener time (BackendMessage e) st = Some (st', task)\<rbrakk> \<Longrightarrow> ui_session R st'"
| timer: "\<lbrakk>ui_session R st; msg = AutoshotTick \<or> msg = ShotTaken shot; update H opener time msg st = Some (st', task)\<rbrakk> \<Longrightarrow> ui_session R st'"

definition session_ok :: "'p desktop \<Rightarrow> bool" where
  "session_ok st \<longleftrightarrow> desk_ok st \<and> hist_ok (size_histogram (d_model st)) \<and> view_inside (d_model st)"

definition same_view :: "scan_model \<Rightarrow> scan_model \<Rightarrow> bool" where
  \<comment> \<open>what a change must leave alone to keep the view inside\<close>
  "same_view m m' \<longleftrightarrow> grows (tree m) (tree m') \<and> focus m' = focus m \<and> selected m' = selected m
     \<and> (hist_ok (size_histogram m) \<longrightarrow> hist_ok (size_histogram m'))"

lemma same_view_keeps: "same_view m m' \<Longrightarrow> view_inside m \<Longrightarrow> view_inside m'"
  by (auto simp: same_view_def view_inside_def inspected_def intro: inside_grows split: option.splits)

lemma view_inside_new: "view_inside (new_model limit)"
  by (simp add: view_inside_def new_model_def inspected_def inside_def)

lemma hist_ok_new: "hist_ok (size_histogram (new_model limit))"
  by (simp add: new_model_def)

lemma session_ok_start_scan: "session_ok st \<Longrightarrow> session_ok (desktop_start_scan H st)"
  using start_scan_None [of H st] desk_ok_start_scan [of st H]
  by (cases "can_start H st") (auto simp: session_ok_def start_scan_Some started_def view_inside_new hist_ok_new)

lemma session_ok_new: "session_ok (new_desktop H time answers dark cli)"
proof -
  have init: "session_ok \<lparr>d_screen = SetupScreen, d_setup = f, d_model = new_model RECENT_LIMIT, d_scan = None,
      d_generation = 0, d_project_root = p,
      d_autoshot = map_option (\<lambda>directory. \<lparr>as_directory = directory, as_step = 0, as_armed = False, as_warmup = 3\<rparr>) a,
      d_recording = r, d_dark = dark\<rparr>" for f p a r
    by (cases a) (simp_all add: session_ok_def desk_ok_def model_ok_new hist_ok_new view_inside_new)
  show ?thesis
    by (simp only: new_desktop_def Let_def split: if_split) (intro conjI impI session_ok_start_scan init)
qed

lemma same_view_simps [simp]:
  "same_view m m" "same_view m (m\<lparr>active_tab := t\<rparr>)" "same_view m (m\<lparr>notice := n\<rparr>)" "same_view m (set_filter value m)"
  by (simp_all add: same_view_def set_filter_def)

lemma same_view_event: "apply_event e m = Some m' \<Longrightarrow> event_ok e \<Longrightarrow> same_view m m'"
  using apply_event_view [of e m m'] by (simp add: same_view_def grows_event)

lemma view_inside_focus: "inside m i \<Longrightarrow> view_inside (focus_directory i m)"
  by (simp add: view_inside_def focus_directory_def inspected_def inside_def)

lemma view_inside_select: "view_inside m \<Longrightarrow> inside m i \<Longrightarrow> view_inside (m\<lparr>selected := Some i\<rparr>)"
  by (simp add: view_inside_def inspected_def inside_def)

lemma tick_view:
  assumes "update H opener time AutoshotTick st = Some (st', task)"
  shows "\<exists>m. same_view (d_model st) m \<and> model_ok m = model_ok (d_model st)
    \<and> (d_model st' = m \<or> (\<exists>leaf. descend m (focus m) = Some leaf \<and> d_model st' = focus_directory leaf m))"
proof (cases "d_recording st = None")
  case True
  then have t: "autoshot_tick st = Some (st', task)" using assms by (simp add: update_def)
  have "d_model st' = d_model st \<or> (\<exists>t. d_model st' = (d_model st)\<lparr>active_tab := t\<rparr>
    \<or> (\<exists>leaf. descend ((d_model st)\<lparr>active_tab := t\<rparr>) (focus (d_model st)) = Some leaf
        \<and> d_model st' = focus_directory leaf ((d_model st)\<lparr>active_tab := t\<rparr>)))"
    using t by (auto simp: autoshot_tick_def Let_def split: option.splits if_splits prod.splits) blast
  then show ?thesis
  proof (elim disjE exE)
    assume "d_model st' = d_model st"
    then show ?thesis by (intro exI [of _ "d_model st"]) simp
  next
    fix t assume "d_model st' = (d_model st)\<lparr>active_tab := t\<rparr>"
    then show ?thesis by (intro exI [of _ "(d_model st)\<lparr>active_tab := t\<rparr>"]) simp
  next
    fix t leaf
    assume "descend ((d_model st)\<lparr>active_tab := t\<rparr>) (focus (d_model st)) = Some leaf
      \<and> d_model st' = focus_directory leaf ((d_model st)\<lparr>active_tab := t\<rparr>)"
    then show ?thesis by (intro exI [of _ "(d_model st)\<lparr>active_tab := t\<rparr>"]) auto
  qed
next
  case False
  then show ?thesis using assms by (auto simp: update_def recording_tick_def split: option.splits if_splits intro: exI [of _ "d_model st"])
qed

lemma shot_view:
  assumes "update H opener time (ShotTaken shot) st = Some (st', task)"
  shows "same_view (d_model st) (d_model st')"
  using assms
  by (auto simp: update_def autoshot_store_def recording_store_def Let_def split: option.splits if_splits prod.splits sum.splits)

lemma model_view_update:
  assumes "session_ok st" "update H opener time msg st = Some (st', task)"
    "case msg of BackendMessage e \<Rightarrow> event_ok e | AutoshotTick \<Rightarrow> True | ShotTaken _ \<Rightarrow> True | _ \<Rightarrow> proper (d_model st) msg"
  shows "hist_ok (size_histogram (d_model st')) \<and> view_inside (d_model st')"
proof -
  let ?m = "d_model st"
  have ok: "model_ok ?m" "hist_ok (size_histogram ?m)" "view_inside ?m" using assms(1) by (simp_all add: session_ok_def desk_ok_def)
  have same: ?thesis if "same_view ?m (d_model st')"
    using same_view_keeps [OF that ok(3)] ok(2) that by (simp add: same_view_def)
  show ?thesis
  proof (cases msg)
    case AutoshotTick
    then obtain m where m: "same_view ?m m" "model_ok m"
      "d_model st' = m \<or> (\<exists>leaf. descend m (focus m) = Some leaf \<and> d_model st' = focus_directory leaf m)"
      using tick_view [of H opener time st st' task] assms(2) ok(1) by auto
    have v: "view_inside m" "hist_ok (size_histogram m)" using same_view_keeps [OF m(1) ok(3)] m(1) ok(2) by (simp_all add: same_view_def)
    from m(3) show ?thesis
    proof (elim disjE exE conjE)
      fix leaf assume leaf: "descend m (focus m) = Some leaf" "d_model st' = focus_directory leaf m"
      have "inside m leaf" using descend_inside [OF leaf(1) m(2)] v(1) by (simp add: view_inside_def)
      from view_inside_focus [OF this] show ?thesis using leaf(2) v(2) by simp (simp add: focus_directory_def)
    qed (use v in simp)
  next
    case (ShotTaken shot)
    then have "update H opener time (ShotTaken shot) st = Some (st', task)" using assms(2) by simp
    then show ?thesis by (intro same shot_view)
  next
    case (BackendMessage e)
    then show ?thesis using assms(2,3) same same_view_event by (auto simp: update_def)
  next
    case (FocusDirectory i)
    then show ?thesis using assms(2,3) ok(2) by (auto simp: update_def view_inside_focus) (simp add: focus_directory_def)
  next
    case (NodeSelected i)
    then show ?thesis using assms(2,3) ok by (auto simp: update_def view_inside_select)
  next
    case StartScan
    then show ?thesis using assms(2) session_ok_start_scan [OF assms(1), of H] by (auto simp: update_def session_ok_def)
  next
    case (WorkersSelected choice)
    then show ?thesis using assms(2) same by (cases choice) (auto simp: update_def)
  qed (use assms(2) same in \<open>auto simp: update_def reveal_in_finder_def split: option.splits\<close>)
qed

lemma proper_legal: "proper m msg \<Longrightarrow> legal msg \<and> msg \<noteq> AutoshotTick"
  by (cases msg) (simp_all add: proper_def legal_def)

lemma event_legal: "event_ok e \<Longrightarrow> legal (BackendMessage e)"
  by (simp add: event_ok_def legal_def)

lemma view_sends:
  assumes "session_ok st" "desk_view R st = Some s" "can_send s msg"
  shows "proper (d_model st) msg"
proof (cases "d_screen st")
  case SetupScreen
  then show ?thesis using assms(2,3) setup_sends by (auto simp: desk_view_def)
next
  case RunningScreen
  have "model_ok (d_model st)" "view_inside (d_model st)" using assms(1) by (simp_all add: session_ok_def desk_ok_def)
  then show ?thesis using running_sends [OF _ _ _ assms(3)] assms(2) RunningScreen by (auto simp: desk_view_def)
qed

lemma session_ok: "ui_session R st \<Longrightarrow> session_ok st"
proof (induction rule: ui_session.induct)
  case (launch args prefers_dark dark cli H time answers)
  show ?case by (rule session_ok_new)
next
  case (press st s msg H opener time st' task)
  from view_sends [OF press.IH press.hyps(2,3)] have p: "proper (d_model st) msg" .
  then have "case msg of BackendMessage e \<Rightarrow> event_ok e | AutoshotTick \<Rightarrow> True | ShotTaken _ \<Rightarrow> True | _ \<Rightarrow> proper (d_model st) msg"
    by (cases msg) (simp_all add: proper_def)
  from model_view_update [OF press.IH press.hyps(4) this] show ?case
    using desk_ok_update [OF press.hyps(4)] proper_legal [OF p] press.IH by (simp add: session_ok_def)
next
  case (worker st e H opener time st' task)
  from model_view_update [OF worker.IH worker.hyps(3)] show ?case
    using desk_ok_update [OF worker.hyps(3) event_legal] worker.hyps(2) worker.IH by (simp add: session_ok_def)
next
  case (timer st msg shot H opener time st' task)
  then have "case msg of BackendMessage e \<Rightarrow> event_ok e | AutoshotTick \<Rightarrow> True | ShotTaken _ \<Rightarrow> True | _ \<Rightarrow> proper (d_model st) msg"
    by auto
  from model_view_update [OF timer.IH timer.hyps(3) this] show ?case
    using desk_ok_update [OF timer.hyps(3)] timer.hyps(2) timer.IH by (auto simp: session_ok_def legal_def)
qed

lemma view_draws: "session_ok st \<Longrightarrow> \<exists>s. desk_view R st = Some s \<and> (\<forall>f \<in> set (figures s). drawable f)"
proof -
  assume ok: "session_ok st"
  then have "hist_counts (size_histogram (d_model st)) \<noteq> []" by (auto simp: session_ok_def hist_ok_def HISTOGRAM_BUCKETS_def)
  from running_draws [OF this] show ?thesis by (auto simp: desk_view_def split: screen.split)
qed


end
