(* ===== verification/Session_Demo.thy ===== *)
theory Session_Demo
  imports Session View_Demo Desktop_Demo
begin

text \<open>A session with a small scan in which the user selects a directory in the inspector, and the witness of the property of sessions.\<close>

definition demo_redaction :: redaction where
  "demo_redaction = \<lparr>re_hidden = False, re_terms = [], re_upper = (\<lambda>s. s), re_lower = (\<lambda>s. s)\<rparr>"

lemma session_events:
  "\<lbrakk>ui_session R st; \<forall>e \<in> set es. event_ok e; apply_events es (d_model st) = Some m\<rbrakk> \<Longrightarrow> ui_session R (st\<lparr>d_model := m\<rparr>)"
proof (induction es arbitrary: st)
  case Nil
  then have "st\<lparr>d_model := m\<rparr> = st" by (cases st) simp
  then show ?case using Nil(1) by simp
next
  case (Cons e es)
  then obtain m1 where m1: "apply_event e (d_model st) = Some m1" "apply_events es m1 = Some m" by (auto simp: bind_eq_Some_conv)
  then have "update demo_host (\<lambda>p. None) 0 (BackendMessage e) st = Some (st\<lparr>d_model := m1\<rparr>, NoTask)" by (simp add: update_def)
  moreover have "event_ok e" using Cons.prems(2) by simp
  ultimately have "ui_session R (st\<lparr>d_model := m1\<rparr>)" using ui_session.worker [OF Cons.prems(1)] by blast
  from Cons.IH [OF this] Cons.prems(2) m1(2) show ?case by simp
qed

lemma demo_events_event_ok: "\<forall>e \<in> set demo_events. event_ok e"
  using demo_events_ok(1) by (auto simp: event_ok_def list_all_iff demo_events_def)

lemma apply_events_view:
  "apply_events es m = Some m' \<Longrightarrow> focus m' = focus m \<and> selected m' = selected m"
proof (induction es arbitrary: m)
  case (Cons e es)
  then obtain m1 where "apply_event e m = Some m1" "apply_events es m1 = Some m'" by (auto simp: bind_eq_Some_conv)
  with Cons.IH [of m1] apply_event_view(1,2) [of e m m1] show ?case by simp
qed simp

lemma tab_pressed: "running_screen upper lower D m = Some s \<Longrightarrow> can_send s (TabSelected t)"
  by (cases t) (auto simp: running_screen_def sidebar_def sidebar_tab_def ALL_TABS_def)

lemma child_pressed:
  assumes "running_screen upper lower D m = Some s" "active_tab m = Treemap" "children_by_size m (inspected m) = c # cs"
  shows "can_send s (NodeSelected c)"
proof -
  have "can_send (inspector D m) (NodeSelected c)" using assms(3) by (simp add: inspector_def breakdown_def breakdown_row_def Let_def)
  then show ?thesis using assms(1,2) by (auto simp: running_screen_def visualization_def)
qed

lemma demo_arguments: "parse_arguments ['' /srv''] = Inr (default_cli\<lparr>cli_root := Some '' /srv''\<rparr>)"
proof -
  have "parse_step '' /srv'' [] default_cli = Inr ([], default_cli\<lparr>cli_root := Some '' /srv''\<rparr>)"
    by (rule parse_step_plain) (code_simp, simp add: default_cli_def)
  then show ?thesis by (simp add: parse_arguments_def)
qed


end
