(* ===== verification/Capture.thy ===== *)
theory Capture
  imports Backend Cli
begin

text \<open>
  The trace recorder \<open>rust_client/examples/capture_trace.rs\<close>: it scans a directory through the client, reads the whole retained
  index page by page, and writes the directories with their depths, observations and totals. The file system and the
  clock are arguments. A \<open>BTreeMap\<close> is the list of its entries in ascending order of the keys.
\<close>

definition PAGE_SIZE :: u32 where "PAGE_SIZE = 4096"
definition TRACE_SCHEMA_VERSION :: u32 where "TRACE_SCHEMA_VERSION = 1"
definition RECENT_SECONDS :: i64 where "RECENT_SECONDS = 30 * 24 * 60 * 60"

section \<open>Ordered maps\<close>

fun btree_insert :: "u32 \<Rightarrow> 'a \<Rightarrow> (u32 \<times> 'a) list \<Rightarrow> (u32 \<times> 'a) list" where
  "btree_insert k v [] = [(k, v)]"
| "btree_insert k v ((j, x) # rest) =
     (if k < j then (k, v) # (j, x) # rest else if k = j then (k, v) # rest else (j, x) # btree_insert k v rest)"

fun btree_remove :: "u32 \<Rightarrow> (u32 \<times> 'a) list \<Rightarrow> 'a option \<times> (u32 \<times> 'a) list" where
  "btree_remove k [] = (None, [])"
| "btree_remove k ((j, x) # rest) =
     (if k = j then (Some x, rest) else case btree_remove k rest of (found, rest) \<Rightarrow> (found, (j, x) # rest))"

definition ascending :: "(u32 \<times> 'a) list \<Rightarrow> bool" where
  "ascending m \<longleftrightarrow> sorted_wrt (<) (map fst m)"

lemma map_of_btree_insert: "map_of (btree_insert k v m) = (map_of m)(k \<mapsto> v)"
  by (induction k v m rule: btree_insert.induct) (auto simp: fun_eq_iff)

lemma keys_btree_insert: "fst ` set (btree_insert k v m) = insert k (fst ` set m)"
  by (induction k v m rule: btree_insert.induct) auto

lemma ascending_btree_insert: "ascending m \<Longrightarrow> ascending (btree_insert k v m)"
proof (induction k v m rule: btree_insert.induct)
  case (2 k v j x rest)
  then show ?case using keys_btree_insert [of k v rest] by (force simp: ascending_def)
qed (simp add: ascending_def)

lemma btree_insert_same_keys: "k \<in> fst ` set m \<Longrightarrow> ascending m \<Longrightarrow> map fst (btree_insert k v m) = map fst m"
  by (induction k v m rule: btree_insert.induct) (auto simp: ascending_def)

section \<open>Data\<close>

record observation =
  ob_allocated_bytes :: u64
  ob_logical_bytes :: u64
  ob_entry_count :: "u64 option"
  ob_modified_seconds :: "i64 option"

definition default_observation :: observation where
  "default_observation = \<lparr>ob_allocated_bytes = 0, ob_logical_bytes = 0, ob_entry_count = None, ob_modified_seconds = None\<rparr>"

record immediate_stats =
  im_entry_count :: u64
  im_regular_count :: u64
  im_directory_count :: u64
  im_symlink_count :: u64
  im_other_count :: u64
  im_allocated_bytes :: u64
  im_logical_bytes :: u64
  im_writable_count :: u64
  im_hidden_count :: u64
  im_recent_count :: u64
  im_code_bytes :: u64
  im_config_bytes :: u64
  im_media_bytes :: u64
  im_archive_bytes :: u64
  im_recent_code_bytes :: u64

definition default_immediate :: immediate_stats where
  "default_immediate =
     \<lparr>im_entry_count = 0, im_regular_count = 0, im_directory_count = 0, im_symlink_count = 0, im_other_count = 0,
      im_allocated_bytes = 0, im_logical_bytes = 0, im_writable_count = 0, im_hidden_count = 0, im_recent_count = 0,
      im_code_bytes = 0, im_config_bytes = 0, im_media_bytes = 0, im_archive_bytes = 0, im_recent_code_bytes = 0\<rparr>"

record trace_directory =
  td_id :: u32
  td_parent_id :: "u32 option"
  td_name :: string
  td_state :: string
  td_depth :: u32
  td_observation :: observation
  td_children :: "u32 list"
  td_immediate :: immediate_stats

record trace =
  tr_schema_version :: u32
  tr_root :: string
  tr_captured_unix_seconds :: u64
  tr_complete :: bool
  tr_elapsed_ms :: f64_bits
  tr_entries :: u64
  tr_directory_failures :: u64
  tr_directories :: "trace_directory list"

section \<open>Values of an entry\<close>

definition binary_label :: "encoded_binary \<Rightarrow> string" where
  "binary_label b = (case b of Utf8 v \<Rightarrow> v | Base64 v \<Rightarrow> ''<base64:'' @ v @ ''>'')"

fun json_as_u64 :: "'n json_lib \<Rightarrow> 'n json \<Rightarrow> u64 option" where
  "json_as_u64 L (JNumber n) = num_as_u64 L n"
| "json_as_u64 L _ = None"

fun json_as_i64 :: "'n json_lib \<Rightarrow> 'n json \<Rightarrow> i64 option" where
  "json_as_i64 L (JNumber n) = num_as_i64 L n"
| "json_as_i64 L _ = None"

fun json_first :: "'n json \<Rightarrow> 'n json option" where
  \<comment> \<open>\<open>as_array\<close> and \<open>first\<close>\<close>
  "json_first (JArray (j # js)) = Some j"
| "json_first _ = None"

definition string_value :: "'n json option \<Rightarrow> string option" where
  "string_value v = Option.bind v json_as_str"

definition unsigned_value :: "'n json_lib \<Rightarrow> 'n json option \<Rightarrow> u64 option" where
  "unsigned_value L v = Option.bind v (json_as_u64 L)"

definition timestamp_seconds :: "'n json_lib \<Rightarrow> 'n json option \<Rightarrow> i64 option" where
  "timestamp_seconds L v = Option.bind (Option.bind v json_first) (json_as_i64 L)"

definition unwrap_or :: "'a option \<Rightarrow> 'a \<Rightarrow> 'a" where
  "unwrap_or v d = (case v of Some a \<Rightarrow> a | None \<Rightarrow> d)"

definition entry_name :: "(string \<times> 'n json) list \<Rightarrow> string" where
  "entry_name values = unwrap_or (string_value (map_of values ''name'')) ''<non-utf8>''"

definition observation_of :: "'n json_lib \<Rightarrow> (string \<times> 'n json) list \<Rightarrow> observation" where
  "observation_of L values =
     \<lparr>ob_allocated_bytes = unwrap_or (unsigned_value L (map_of values ''allocated_size'')) 0,
      ob_logical_bytes = unwrap_or (unsigned_value L (map_of values ''total_size'')) 0,
      ob_entry_count = unsigned_value L (map_of values ''directory_entry_count''),
      ob_modified_seconds = timestamp_seconds L (map_of values ''modified_at'')\<rparr>"

datatype file_group = Code | Config | Media | Archive

definition CODE_EXTENSIONS :: "string list" where
  "CODE_EXTENSIONS = [''c'', ''cc'', ''cpp'', ''cxx'', ''ex'', ''exs'', ''go'', ''h'', ''hh'', ''hpp'', ''java'', ''js'', ''jsx'', ''kt'', ''kts'',
     ''lean'', ''lua'', ''m'', ''mm'', ''py'', ''rb'', ''rs'', ''sh'', ''swift'', ''ts'', ''tsx'']"
definition CONFIG_EXTENSIONS :: "string list" where
  "CONFIG_EXTENSIONS = [''conf'', ''config'', ''ini'', ''json'', ''json5'', ''plist'', ''toml'', ''xml'', ''yaml'', ''yml'']"
definition MEDIA_EXTENSIONS :: "string list" where
  "MEDIA_EXTENSIONS = [''aac'', ''avi'', ''flac'', ''gif'', ''heic'', ''jpeg'', ''jpg'', ''m4a'', ''mkv'', ''mov'', ''mp3'', ''mp4'', ''png'',
     ''tif'', ''tiff'', ''wav'', ''webm'', ''webp'']"
definition ARCHIVE_EXTENSIONS :: "string list" where
  "ARCHIVE_EXTENSIONS = [''7z'', ''bz2'', ''dmg'', ''gz'', ''iso'', ''rar'', ''tar'', ''tgz'', ''xz'', ''zip'', ''zst'']"

definition lower_char :: "char \<Rightarrow> char" where
  \<comment> \<open>\<open>to_ascii_lowercase\<close>\<close>
  "lower_char c = (if 0x41 \<le> (of_char c :: nat) \<and> (of_char c :: nat) \<le> 0x5A then char_of ((of_char c :: nat) + 0x20) else c)"

definition file_extension :: "string \<Rightarrow> string option" where
  \<comment> \<open>what follows the last dot, in lower case\<close>
  "file_extension name =
     (if CHR ''.'' \<in> set name then Some (map lower_char (rev (takeWhile (\<lambda>c. c \<noteq> CHR ''.'') (rev name)))) else None)"

definition extension_group :: "string \<Rightarrow> file_group option" where
  "extension_group name =
     Option.bind (file_extension name) (\<lambda>e.
       if e \<in> set CODE_EXTENSIONS then Some Code
       else if e \<in> set CONFIG_EXTENSIONS then Some Config
       else if e \<in> set MEDIA_EXTENSIONS then Some Media
       else if e \<in> set ARCHIVE_EXTENSIONS then Some Archive
       else None)"

definition i64_sat_sub :: "i64 \<Rightarrow> i64 \<Rightarrow> i64" where
  \<comment> \<open>\<open>i64::saturating_sub\<close>\<close>
  "i64_sat_sub a b = word_of_int (max (- (2 ^ 63)) (min (2 ^ 63 - 1) (sint a - sint b)))"

definition is_recent :: "i64 \<Rightarrow> i64 option \<Rightarrow> bool" where
  "is_recent captured_at modified =
     (case modified of
        Some t \<Rightarrow> sint t \<le> sint captured_at \<and> sint (i64_sat_sub captured_at t) \<le> sint RECENT_SECONDS
      | None \<Rightarrow> False)"

definition bump :: "bool \<Rightarrow> u64 \<Rightarrow> u64" where
  "bump b n = (if b then sat_add n 1 else n)"

definition note_regular :: "'n json_lib \<Rightarrow> immediate_stats \<Rightarrow> (string \<times> 'n json) list \<Rightarrow> bool \<Rightarrow> immediate_stats" where
  \<comment> \<open>the branch for regular files\<close>
  "note_regular L stats values recently =
     (let allocated = unwrap_or (unsigned_value L (map_of values ''allocated_size'')) 0;
          logical = unwrap_or (unsigned_value L (map_of values ''total_size'')) 0;
          stats = stats\<lparr>im_regular_count := sat_add (im_regular_count stats) 1,
            im_allocated_bytes := sat_add (im_allocated_bytes stats) allocated,
            im_logical_bytes := sat_add (im_logical_bytes stats) logical\<rparr>
      in case extension_group (entry_name values) of
           Some Code \<Rightarrow> stats\<lparr>im_code_bytes := sat_add (im_code_bytes stats) allocated,
             im_recent_code_bytes := (if recently then sat_add (im_recent_code_bytes stats) allocated else im_recent_code_bytes stats)\<rparr>
         | Some Config \<Rightarrow> stats\<lparr>im_config_bytes := sat_add (im_config_bytes stats) allocated\<rparr>
         | Some Media \<Rightarrow> stats\<lparr>im_media_bytes := sat_add (im_media_bytes stats) allocated\<rparr>
         | Some Archive \<Rightarrow> stats\<lparr>im_archive_bytes := sat_add (im_archive_bytes stats) allocated\<rparr>
         | None \<Rightarrow> stats)"

definition note_entry :: "'n json_lib \<Rightarrow> immediate_stats \<Rightarrow> (string \<times> 'n json) list \<Rightarrow> i64 \<Rightarrow> immediate_stats" where
  "note_entry L stats values captured_at =
     (let recently = is_recent captured_at (timestamp_seconds L (map_of values ''modified_at''));
          writable = (case unsigned_value L (map_of values ''mode'') of Some m \<Rightarrow> and m 0x92 \<noteq> 0 | None \<Rightarrow> False);
          stats = stats\<lparr>im_entry_count := sat_add (im_entry_count stats) 1,
            im_hidden_count := bump (starts_with (entry_name values) ''.'') (im_hidden_count stats),
            im_writable_count := bump writable (im_writable_count stats),
            im_recent_count := bump recently (im_recent_count stats)\<rparr>;
          kind = string_value (map_of values ''type'')
      in if kind = Some ''regular'' then note_regular L stats values recently
         else if kind = Some ''directory'' then stats\<lparr>im_directory_count := sat_add (im_directory_count stats) 1\<rparr>
         else if kind = Some ''symlink'' then stats\<lparr>im_symlink_count := sat_add (im_symlink_count stats) 1\<rparr>
         else stats\<lparr>im_other_count := sat_add (im_other_count stats) 1\<rparr>)"

section \<open>Reading the index\<close>

lemma fetch_directory_consumes:
  assumes "fetch_directory S index directory off limit c = (Inr x, c')"
  shows "bytes_to_come c' < bytes_to_come c"
proof -
  obtain i c1 where "reserve_request_id c = (Inr i, c1)"
    "request S (de_directory S) (FetchDirectoryRequest i ''fetch_directory'' index directory off limit) i c1 = (Inr x, c')"
    using assms by (auto simp: fetch_directory_def sbind_eq_Inr_iff)
  then show ?thesis
    using request_consumes [of S "de_directory S" _ i c1 x c']
    by (auto simp: reserve_request_id_def Let_def bytes_to_come_def split: if_splits)
qed

function completion_ids :: "'n serde \<Rightarrow> index_id \<Rightarrow> u64 \<Rightarrow> u32 list \<Rightarrow> client \<Rightarrow> (client_error + u32 list) \<times> client" where
  \<comment> \<open>the loop, with the cursor and the ids so far; every turn reads a response\<close>
  "completion_ids S index cursor known c =
     (case completed_directories S index cursor PAGE_SIZE c of
        (Inl e, c) \<Rightarrow> (Inl e, c)
      | (Inr page, c) \<Rightarrow>
          if page_directory_ids page = [] then (Inr known, c)
          else completion_ids S index (page_cursor page) (known @ page_directory_ids page) c)"
  by pat_completeness auto
termination
  by (relation "measure (\<lambda>(S, index, cursor, known, c). bytes_to_come c)")
    (auto dest: completed_directories_consumes [OF sym])

declare completion_ids.simps [simp del]

record gathering =
  \<comment> \<open>the mutable variables of \<open>capture_directory\<close>\<close>
  ga_metadata :: "(u32 option \<times> string \<times> string) option"
  ga_children :: "u32 list"
  ga_immediate :: immediate_stats
  ga_observations :: "(u32 \<times> observation) list"

fun note_rows :: "'n json_lib \<Rightarrow> i64 \<Rightarrow> 'n entry_row list \<Rightarrow> gathering \<Rightarrow> gathering" where
  "note_rows L captured_at [] g = g"
| "note_rows L captured_at (row # rows) g =
     note_rows L captured_at rows
       (let g = g\<lparr>ga_immediate := note_entry L (ga_immediate g) (row_values row) captured_at\<rparr> in
        case child_directory_id row of
          None \<Rightarrow> g
        | Some child \<Rightarrow> g\<lparr>ga_children := ga_children g @ [child],
            ga_observations := btree_insert child (observation_of L (row_values row)) (ga_observations g)\<rparr>)"

definition state_name :: "directory_state \<Rightarrow> string" where
  "state_name st = (case st of DirPending \<Rightarrow> ''pending'' | DirPublished \<Rightarrow> ''published'' | DirFailed \<Rightarrow> ''failed'')"

definition note_page :: "'n json_lib \<Rightarrow> i64 \<Rightarrow> 'n directory_page \<Rightarrow> gathering \<Rightarrow> gathering" where
  "note_page L captured_at page g =
     note_rows L captured_at (dp_entries page)
       (if ga_metadata g = None
        then g\<lparr>ga_metadata := Some (dp_parent_id page, binary_label (dp_name page), state_name (dp_state page))\<rparr> else g)"

function fetch_pages :: "'n serde \<Rightarrow> index_id \<Rightarrow> u32 \<Rightarrow> i64 \<Rightarrow> u64 \<Rightarrow> gathering \<Rightarrow> client \<Rightarrow> (client_error + gathering) \<times> client" where
  \<comment> \<open>the loop of \<open>capture_directory\<close>; every turn reads a response\<close>
  "fetch_pages S index directory captured_at off g c =
     (case fetch_directory S index directory off PAGE_SIZE c of
        (Inl e, c) \<Rightarrow> (Inl e, c)
      | (Inr page, c) \<Rightarrow>
          let g = note_page (lib S) captured_at page g in
          if dp_done page then (Inr g, c) else fetch_pages S index directory captured_at (dp_next_offset page) g c)"
  by pat_completeness auto
termination
  by (relation "measure (\<lambda>(S, index, directory, captured_at, off, g, c). bytes_to_come c)")
    (auto dest: fetch_directory_consumes [OF sym])

declare fetch_pages.simps [simp del]

definition capture_directory :: "'n serde \<Rightarrow> index_id \<Rightarrow> u32 \<Rightarrow> i64 \<Rightarrow> (u32 \<times> observation) list \<Rightarrow> client
    \<Rightarrow> ((client_error + trace_directory \<times> (u32 \<times> observation) list) \<times> client) option" where
  \<comment> \<open>\<open>None\<close> is the panic of \<open>expect\<close>\<close>
  "capture_directory S index directory captured_at child_observations c =
     (case fetch_pages S index directory captured_at 0
             \<lparr>ga_metadata = None, ga_children = [], ga_immediate = default_immediate, ga_observations = child_observations\<rparr> c of
        (Inl e, c) \<Rightarrow> Some (Inl e, c)
      | (Inr g, c) \<Rightarrow>
          map_option (\<lambda>(parent_id, name, st).
            (Inr (\<lparr>td_id = directory, td_parent_id = parent_id, td_name = name, td_state = st, td_depth = 0,
                   td_observation = default_observation, td_children = ga_children g, td_immediate = ga_immediate g\<rparr>,
                  ga_observations g), c))
          (ga_metadata g))"

fun capture_all :: "'n serde \<Rightarrow> index_id \<Rightarrow> i64 \<Rightarrow> u32 list \<Rightarrow> (u32 \<times> observation) list \<Rightarrow> (u32 \<times> trace_directory) list \<Rightarrow> client
    \<Rightarrow> ((client_error + (u32 \<times> observation) list \<times> (u32 \<times> trace_directory) list) \<times> client) option" where
  \<comment> \<open>the loop over the completed directories\<close>
  "capture_all S index captured_at [] obs dirs c = Some (Inr (obs, dirs), c)"
| "capture_all S index captured_at (i # is) obs dirs c =
     Option.bind (capture_directory S index i captured_at obs c) (\<lambda>(r, c).
       case r of
         Inl e \<Rightarrow> Some (Inl e, c)
       | Inr (d, obs) \<Rightarrow> capture_all S index captured_at is obs (btree_insert i d dirs) c)"

section \<open>Depths\<close>

definition sat_succ32 :: "u32 \<Rightarrow> u32" where
  \<comment> \<open>\<open>saturating_add(1)\<close>\<close>
  "sat_succ32 n = (if n = - 1 then - 1 else n + 1)"

definition depth_below :: "u32 option \<Rightarrow> (u32 \<times> trace_directory) list \<Rightarrow> u32" where
  "depth_below parent_id dirs =
     (case parent_id of
        None \<Rightarrow> 0
      | Some p \<Rightarrow> (case map_of dirs p of None \<Rightarrow> 0 | Some d \<Rightarrow> sat_succ32 (td_depth d)))"

fun place_directories :: "u32 list \<Rightarrow> (u32 \<times> observation) list \<Rightarrow> (u32 \<times> trace_directory) list \<Rightarrow> (u32 \<times> trace_directory) list option" where
  \<comment> \<open>the loop over the ordered ids; \<open>None\<close> is the panic of an index that is not in the map\<close>
  "place_directories [] obs dirs = Some dirs"
| "place_directories (i # is) obs dirs =
     Option.bind (map_of dirs i) (\<lambda>d.
       let (found, obs) = btree_remove i obs in
       place_directories is obs
         (btree_insert i (d\<lparr>td_depth := depth_below (td_parent_id d) dirs, td_observation := unwrap_or found default_observation\<rparr>) dirs))"

section \<open>The whole capture\<close>

datatype capture_error =
    ClientFailed client_error
  | ClockFailed
  | FileFailed io_error
  | EncodingFailed string
  | UsageError string

record capture_host =
  \<comment> \<open>what the operating system and the JSON writer answer\<close>
  ch_spawned :: "io_error + (child \<times> writer option \<times> reader option)"
  ch_seconds :: "u64 option"
  ch_make_parent :: "io_error + unit"
  ch_create :: "io_error + unit"
  ch_write :: "trace \<Rightarrow> string + unit"

definition capture_options :: "u32 \<Rightarrow> scan_options" where
  "capture_options workers =
     default_scan_options\<lparr>opt_fields := [''type'', ''allocated_size'', ''total_size'', ''directory_entry_count'', ''modified_at'', ''mode''],
       opt_concurrency := Some workers\<rparr>"

definition build_trace :: "scan_report \<Rightarrow> u64 \<Rightarrow> (u32 \<times> trace_directory) list \<Rightarrow> trace" where
  "build_trace rep seconds dirs =
     \<lparr>tr_schema_version = TRACE_SCHEMA_VERSION, tr_root = report_root rep, tr_captured_unix_seconds = seconds,
      tr_complete = report_complete rep, tr_elapsed_ms = report_elapsed_ms rep, tr_entries = report_entries rep,
      tr_directory_failures = failed_directory_count (report_store rep), tr_directories = map snd dirs\<rparr>"

definition write_trace :: "capture_host \<Rightarrow> trace \<Rightarrow> capture_error + unit" where
  "write_trace host t =
     rbind (map_err FileFailed (ch_make_parent host)) (\<lambda>_.
     rbind (map_err FileFailed (ch_create host)) (\<lambda>_.
     map_err EncodingFailed (ch_write host t)))"

definition read_index :: "'n serde \<Rightarrow> index_id \<Rightarrow> u64 \<Rightarrow> client
    \<Rightarrow> ((client_error + (u32 \<times> observation) list \<times> (u32 \<times> trace_directory) list) \<times> client) option" where
  "read_index S index seconds c =
     (case completion_ids S index 0 [] c of
        (Inl e, c) \<Rightarrow> Some (Inl e, c)
      | (Inr known, c) \<Rightarrow> capture_all S index seconds known [] [] c)"

type_synonym capture_result = "(capture_error + unit) \<times> trace option \<times> child list"
  \<comment> \<open>the result, what was written, and the child processes as they were left\<close>

definition abandon :: "capture_error \<Rightarrow> trace option \<Rightarrow> client \<Rightarrow> capture_result" where
  \<comment> \<open>an early return drops the client\<close>
  "abandon e t c = (Inl e, t, children_left (drop_client c, None))"

definition finish_capture :: "'n serde \<Rightarrow> capture_host \<Rightarrow> index_id \<Rightarrow> trace \<Rightarrow> client \<Rightarrow> capture_result" where
  "finish_capture S host index t c =
     (case write_trace host t of
        Inl e \<Rightarrow> abandon e None c
      | Inr _ \<Rightarrow>
          (case release_index S index c of
             (Inl e, c) \<Rightarrow> abandon (ClientFailed e) (Some t) c
           | (Inr _, c) \<Rightarrow>
               (case shutdown S c of (down, left) \<Rightarrow> (map_err ClientFailed down, Some t, children_left left))))"

definition capture_scanned :: "'n serde \<Rightarrow> capture_host \<Rightarrow> index_id \<Rightarrow> scan_result \<Rightarrow> client \<Rightarrow> capture_result option" where
  \<comment> \<open>after \<open>await_scan\<close>\<close>
  "capture_scanned S host index result c =
     (case ch_seconds host of
        None \<Rightarrow> Some (abandon ClockFailed None c)
      | Some seconds \<Rightarrow>
          Option.bind (read_index S index seconds c) (\<lambda>(m, c).
            case m of
              Inl e \<Rightarrow> Some (abandon (ClientFailed e) None c)
            | Inr (obs, dirs) \<Rightarrow>
                map_option (\<lambda>dirs. finish_capture S host index (build_trace (result_report result) seconds dirs) c)
                  (place_directories (map fst dirs) obs dirs)))"

definition capture :: "'n serde \<Rightarrow> capture_host \<Rightarrow> u8 list \<Rightarrow> u32 \<Rightarrow> capture_result option" where
  \<comment> \<open>with what the operating system made of the development command; \<open>None\<close> is a panic\<close>
  "capture S host root_path workers =
     (case spawn S (ch_spawned host) of
        (Inl e, left) \<Rightarrow> Some (Inl (ClientFailed e), None, (case left of None \<Rightarrow> [] | Some ch \<Rightarrow> [ch]))
      | (Inr c, _) \<Rightarrow>
          (case start_scan S root_path (capture_options workers) c of
             (Inl e, c) \<Rightarrow> Some (abandon (ClientFailed e) None c)
           | (Inr index, c) \<Rightarrow>
               (case await_scan S (handle_index_id index) c of
                  (Inl e, c) \<Rightarrow> Some (abandon (ClientFailed e) None c)
                | (Inr result, c) \<Rightarrow> capture_scanned S host (handle_index_id index) result c)))"

section \<open>The command line\<close>

datatype capture_start = ExitUsage nat | Refuse string | Begin "u8 list" "u8 list" u32

definition capture_usage :: string where
  "capture_usage = ''usage: capture_trace DIRECTORY OUTPUT.json [CONCURRENCY]''"

definition capture_concurrency :: "u8 list list \<Rightarrow> string + u32" where
  \<comment> \<open>the third argument, and whether there are more\<close>
  "capture_concurrency args =
     (case args of
        [] \<Rightarrow> Inr 16
      | given # others \<Rightarrow>
          rbind (ok_or (from_utf8 given) ''CONCURRENCY must be UTF-8'') (\<lambda>t.
          rbind (ok_or (parse_u32 t) ''CONCURRENCY must be a positive integer'') (\<lambda>n.
          Inr n)))"

definition capture_main :: "u8 list list \<Rightarrow> capture_start" where
  "capture_main args =
     (case args of
        root_path # destination # rest \<Rightarrow>
          (case capture_concurrency rest of
             Inl e \<Rightarrow> Refuse e
           | Inr n \<Rightarrow> if n = 0 \<or> 1 < length rest then Refuse capture_usage else Begin root_path destination n)
      | _ \<Rightarrow> ExitUsage 64)"

end
