(* ===== verification/Capture_Props.thy ===== *)
theory Capture_Props
  imports Capture Backend_Props
begin

text \<open>
  The trace recorder never panics, leaves no child behind, and writes the completed directories in ascending order with the depths of
  a tree whose parents have smaller ids.
\<close>

section \<open>Counting entries\<close>

definition kinds_agree :: "immediate_stats \<Rightarrow> bool" where
  \<comment> \<open>every entry is counted under exactly one kind, as far as the counters reach\<close>
  "kinds_agree st \<longleftrightarrow> unat (im_entry_count st)
     = min (2 ^ 64 - 1) (unat (im_regular_count st) + unat (im_directory_count st) + unat (im_symlink_count st) + unat (im_other_count st))"

lemma note_regular_counts:
  "im_entry_count (note_regular L st values r) = im_entry_count st"
  "im_regular_count (note_regular L st values r) = sat_add (im_regular_count st) 1"
  "im_directory_count (note_regular L st values r) = im_directory_count st"
  "im_symlink_count (note_regular L st values r) = im_symlink_count st"
  "im_other_count (note_regular L st values r) = im_other_count st"
  by (auto simp: note_regular_def Let_def split: option.split file_group.split)

lemma kinds_agree_note: "kinds_agree st \<Longrightarrow> kinds_agree (note_entry L st values captured_at)"
  by (auto simp: note_entry_def kinds_agree_def Let_def note_regular_counts unat_sat_add min_def)

lemma kinds_agree_rows: "kinds_agree (ga_immediate g) \<Longrightarrow> kinds_agree (ga_immediate (note_rows L captured_at rows g))"
  by (induction rows arbitrary: g) (auto simp: Let_def kinds_agree_note split: option.split)

lemma kinds_agree_page: "kinds_agree (ga_immediate g) \<Longrightarrow> kinds_agree (ga_immediate (note_page L captured_at page g))"
  by (simp add: note_page_def kinds_agree_rows)

section \<open>Reading the index\<close>

lemma note_rows_metadata: "ga_metadata (note_rows L captured_at rows g) = ga_metadata g"
  by (induction rows arbitrary: g) (simp_all add: Let_def split: option.split)

lemma note_page_metadata: "ga_metadata (note_page L captured_at page g) \<noteq> None"
  by (simp add: note_page_def note_rows_metadata)

lemma fetch_pages_outcome:
  "\<lbrakk>fetch_pages S index directory captured_at off g c = (Inr g', c'); kinds_agree (ga_immediate g)\<rbrakk>
    \<Longrightarrow> ga_metadata g' \<noteq> None \<and> kinds_agree (ga_immediate g')"
proof (induction S index directory captured_at off g c rule: fetch_pages.induct)
  case (1 S index directory captured_at off g c)
  obtain m c1 where f: "fetch_directory S index directory off PAGE_SIZE c = (m, c1)" by force
  show ?case
  proof (cases m)
    case (Inr page)
    show ?thesis
    proof (cases "dp_done page")
      case True
      then have "g' = note_page (lib S) captured_at page g"
        using 1(2) f Inr by (simp add: fetch_pages.simps [of S index directory captured_at off g c])
      then show ?thesis using 1(3) by (simp only: note_page_metadata kinds_agree_page simp_thms)
    next
      case False
      then have "fetch_pages S index directory captured_at (dp_next_offset page) (note_page (lib S) captured_at page g) c1 = (Inr g', c')"
        using 1(2) f Inr by (simp add: fetch_pages.simps [of S index directory captured_at off g c])
      then show ?thesis using kinds_agree_page [OF 1(3)] by (rule 1(1) [OF f [symmetric] Inr refl False])
    qed
  qed (use 1(2) f in \<open>simp add: fetch_pages.simps [of S index directory captured_at off g c]\<close>)
qed

lemma fetch_pages_later: "fetch_pages S index directory captured_at off g c = (r, c') \<Longrightarrow> later c c'"
proof (induction S index directory captured_at off g c rule: fetch_pages.induct)
  case (1 S index directory captured_at off g c)
  obtain m c1 where f: "fetch_directory S index directory off PAGE_SIZE c = (m, c1)" by force
  have first: "later c c1" using fetch_directory.forward f by (rule forwardD)
  show ?case
  proof (cases "\<exists>page. m = Inr page \<and> \<not> dp_done page")
    case True
    then obtain page where page: "m = Inr page" "\<not> dp_done page" by blast
    then have "fetch_pages S index directory captured_at (dp_next_offset page) (note_page (lib S) captured_at page g) c1 = (r, c')"
      using 1(2) f by (simp add: fetch_pages.simps [of S index directory captured_at off g c])
    then have "later c1 c'" by (rule 1(1) [OF f [symmetric] page(1) refl page(2)])
    with first show ?thesis by (rule later_trans)
  next
    case False
    then have "c' = c1"
      using 1(2) f by (auto simp: fetch_pages.simps [of S index directory captured_at off g c] Let_def split: sum.splits if_splits)
    with first show ?thesis by simp
  qed
qed

lemma completion_ids_later: "completion_ids S index cursor known c = (r, c') \<Longrightarrow> later c c'"
proof (induction S index cursor known c rule: completion_ids.induct)
  case (1 S index cursor known c)
  obtain m c1 where f: "completed_directories S index cursor PAGE_SIZE c = (m, c1)" by force
  have first: "later c c1" using completed_directories.forward f by (rule forwardD)
  show ?case
  proof (cases "\<exists>page. m = Inr page \<and> page_directory_ids page \<noteq> []")
    case True
    then obtain page where page: "m = Inr page" "page_directory_ids page \<noteq> []" by blast
    then have "completion_ids S index (page_cursor page) (known @ page_directory_ids page) c1 = (r, c')"
      using 1(2) f by (simp add: completion_ids.simps [of S index cursor known c])
    then have "later c1 c'" by (rule 1(1) [OF f [symmetric] page])
    with first show ?thesis by (rule later_trans)
  next
    case False
    then have "c' = c1"
      using 1(2) f by (auto simp: completion_ids.simps [of S index cursor known c] split: sum.splits if_splits)
    with first show ?thesis by simp
  qed
qed

definition fresh :: "(u32 \<times> trace_directory) list \<Rightarrow> bool" where
  \<comment> \<open>directories as they are captured, before their depths are known\<close>
  "fresh dirs \<longleftrightarrow> ascending dirs \<and> (\<forall>i d. map_of dirs i = Some d \<longrightarrow> td_id d = i \<and> td_depth d = 0 \<and> kinds_agree (td_immediate d))"

lemma capture_directory_outcome:
  "\<exists>r c'. capture_directory S index i captured_at obs c = Some (r, c') \<and> later c c'
     \<and> (case r of Inl _ \<Rightarrow> True | Inr (d, _) \<Rightarrow> td_id d = i \<and> td_depth d = 0 \<and> kinds_agree (td_immediate d))"
proof -
  let ?g = "\<lparr>ga_metadata = None, ga_children = [], ga_immediate = default_immediate, ga_observations = obs\<rparr>"
  obtain r c' where f: "fetch_pages S index i captured_at 0 ?g c = (r, c')" by force
  show ?thesis
  proof (cases r)
    case (Inr g)
    have "kinds_agree default_immediate" by (simp add: kinds_agree_def default_immediate_def)
    then have g: "ga_metadata g \<noteq> None" "kinds_agree (ga_immediate g)" using fetch_pages_outcome [of S index i captured_at 0 ?g c g c'] f Inr by simp_all
    then obtain parent_id name st where "ga_metadata g = Some (parent_id, name, st)" by (metis not_None_eq prod_cases3)
    with g show ?thesis using f Inr fetch_pages_later [OF f] by (simp add: capture_directory_def)
  qed (use f fetch_pages_later [OF f] in \<open>simp add: capture_directory_def\<close>)
qed

lemma capture_all_outcome:
  "fresh dirs \<Longrightarrow> \<exists>r c'. capture_all S index captured_at is obs dirs c = Some (r, c') \<and> later c c'
     \<and> (case r of Inl _ \<Rightarrow> True | Inr (_, dirs') \<Rightarrow> fresh dirs' \<and> fst ` set dirs' = fst ` set dirs \<union> set is)"
proof (induction "is" arbitrary: obs dirs c)
  case (Cons i "is")
  obtain r c1 where d: "capture_directory S index i captured_at obs c = Some (r, c1)" "later c c1"
    "case r of Inl _ \<Rightarrow> True | Inr (d, _) \<Rightarrow> td_id d = i \<and> td_depth d = 0 \<and> kinds_agree (td_immediate d)"
    using capture_directory_outcome by blast
  show ?case
  proof (cases r)
    case (Inr p)
    obtain d obs1 where p: "p = (d, obs1)" by force
    have "fresh (btree_insert i d dirs)"
      using Cons.prems d(3) Inr p by (simp add: fresh_def map_of_btree_insert ascending_btree_insert)
    from Cons.IH [OF this, of obs1 c1] show ?thesis
      using d Inr p by (fastforce simp: keys_btree_insert intro: later_trans split: sum.splits)
  qed (use d in simp)
qed simp

section \<open>Depths\<close>

definition depth_of :: "(u32 \<times> trace_directory) list \<Rightarrow> trace_directory \<Rightarrow> u32" where
  \<comment> \<open>one below the parent's, where the parent has the smaller id\<close>
  "depth_of dirs d =
     (case td_parent_id d of
        None \<Rightarrow> 0
      | Some p \<Rightarrow>
          (case map_of dirs p of
             None \<Rightarrow> 0
           | Some q \<Rightarrow> if p < td_id d then sat_succ32 (td_depth q) else 1))"

lemma ascending_split:
  assumes "sorted_wrt (<) (ps @ i # is)" "(j :: u32) \<in> set (ps @ i # is)"
  shows "j < i \<longleftrightarrow> j \<in> set ps"
  using assms by (auto simp: sorted_wrt_append dest: less_asym)

lemma place_directories_outcome:
  assumes "map fst dirs = ps @ is" "ascending dirs"
    and "\<forall>i d. map_of dirs i = Some d \<longrightarrow> td_id d = i \<and> kinds_agree (td_immediate d)"
    and "\<forall>i \<in> set is. \<forall>d. map_of dirs i = Some d \<longrightarrow> td_depth d = 0"
  shows "\<exists>dirs'. place_directories is obs dirs = Some dirs' \<and> map fst dirs' = map fst dirs
    \<and> (\<forall>i d. map_of dirs' i = Some d \<longrightarrow> td_id d = i \<and> kinds_agree (td_immediate d))
    \<and> (\<forall>i. i \<notin> set is \<longrightarrow> map_of dirs' i = map_of dirs i)
    \<and> (\<forall>i \<in> set is. \<forall>d. map_of dirs' i = Some d \<longrightarrow> td_depth d = depth_of dirs' d)"
  using assms
proof (induction "is" arbitrary: ps obs dirs)
  case (Cons i "is")
  have mem: "i \<in> fst ` set dirs" using Cons.prems(1) by (metis in_set_conv_decomp list.set_map)
  then obtain d where d: "map_of dirs i = Some d" by (metis domIff dom_map_of_conv_image_fst not_None_eq)
  obtain found obs1 where rm: "btree_remove i obs = (found, obs1)" by force
  define d1 where "d1 = d\<lparr>td_depth := depth_below (td_parent_id d) dirs, td_observation := unwrap_or found default_observation\<rparr>"
  let ?dirs = "btree_insert i d1 dirs"
  have keys: "map fst ?dirs = (ps @ [i]) @ is" using btree_insert_same_keys [OF mem Cons.prems(2)] Cons.prems(1) by simp
  have sorted: "sorted_wrt (<) (ps @ i # is)" using Cons.prems(1,2) by (simp add: ascending_def)
  then have fresh_tail: "i \<notin> set is" by (auto simp: sorted_wrt_append)
  have id: "td_id d1 = i" "td_parent_id d1 = td_parent_id d" "kinds_agree (td_immediate d1)" using Cons.prems(3) d by (simp_all add: d1_def)
  have "\<forall>j e. map_of ?dirs j = Some e \<longrightarrow> td_id e = j \<and> kinds_agree (td_immediate e)" using Cons.prems(3) id by (simp add: map_of_btree_insert)
  moreover have "\<forall>j \<in> set is. \<forall>e. map_of ?dirs j = Some e \<longrightarrow> td_depth e = 0"
    using Cons.prems(4) fresh_tail by (auto simp: map_of_btree_insert)
  ultimately obtain dirs' where IH: "place_directories is obs1 ?dirs = Some dirs'" "map fst dirs' = map fst ?dirs"
    "\<forall>j e. map_of dirs' j = Some e \<longrightarrow> td_id e = j \<and> kinds_agree (td_immediate e)" "\<forall>j. j \<notin> set is \<longrightarrow> map_of dirs' j = map_of ?dirs j"
    "\<forall>j \<in> set is. \<forall>e. map_of dirs' j = Some e \<longrightarrow> td_depth e = depth_of dirs' e"
    using Cons.IH [OF keys ascending_btree_insert [OF Cons.prems(2)], of obs1] by blast
  have at_i: "map_of dirs' i = Some d1" using IH(4) fresh_tail by (simp add: map_of_btree_insert)
  have same: "map_of dirs' p = map_of dirs p" if "p \<in> set ps" for p
  proof -
    have "p \<noteq> i" "p \<notin> set is" using that sorted by (auto simp: sorted_wrt_append dest: less_asym)
    then show ?thesis using IH(4) by (simp add: map_of_btree_insert)
  qed
  have there: "map_of dirs' p = None \<longleftrightarrow> map_of dirs p = None" for p
    using IH(2) btree_insert_same_keys [OF mem Cons.prems(2), of d1] by (metis list.set_map map_of_eq_None_iff)
  have "td_depth d1 = depth_of dirs' d1"
  proof (cases "td_parent_id d")
    case (Some p)
    show ?thesis
    proof (cases "map_of dirs p")
      case None
      then show ?thesis using Some there [of p] by (simp add: d1_def depth_of_def depth_below_def)
    next
      case (Some q)
      then have p: "p \<in> set (ps @ i # is)" using Cons.prems(1) by (metis image_eqI list.set_map map_of_SomeD fst_conv)
      show ?thesis
      proof (cases "p \<in> set ps")
        case True
        then show ?thesis using \<open>td_parent_id d = Some p\<close> Some same [OF True] ascending_split [OF sorted p] id
          by (simp add: depth_of_def) (simp add: d1_def depth_below_def)
      next
        case False
        then have "td_depth q = 0" using p Cons.prems(4) Some by auto
        moreover obtain q' where "map_of dirs' p = Some q'" using there [of p] Some by auto
        ultimately show ?thesis using \<open>td_parent_id d = Some p\<close> Some False ascending_split [OF sorted p] id
          by (simp add: depth_of_def) (simp add: d1_def depth_below_def sat_succ32_def)
      qed
    qed
  qed (simp add: d1_def depth_of_def depth_below_def)
  moreover have "place_directories (i # is) obs dirs = Some dirs'"
    using d rm IH(1) by (simp add: d1_def)
  ultimately show ?case using IH(2-5) keys Cons.prems(1) at_i by (intro exI [of _ dirs']) (auto simp: map_of_btree_insert)
qed simp

section \<open>The capture\<close>

definition trace_ok :: "trace \<Rightarrow> bool" where
  "trace_ok t \<longleftrightarrow> sorted_wrt (<) (map td_id (tr_directories t))
     \<and> list_all (\<lambda>d. kinds_agree (td_immediate d)) (tr_directories t)
     \<and> list_all (\<lambda>d. td_depth d = depth_of (map (\<lambda>d. (td_id d, d)) (tr_directories t)) d) (tr_directories t)"

definition clean :: "child list \<Rightarrow> bool" where
  "clean left \<longleftrightarrow> (\<exists>ch. left = [ch] \<and> reaped ch)"

lemma abandon_clean: "client_child c \<noteq> None \<Longrightarrow> clean (snd (snd (abandon e t c)))"
  by (auto simp: abandon_def clean_def children_left_def drop_client_def)

lemma finish_capture_outcome:
  assumes "client_child c \<noteq> None"
  shows "case finish_capture S host index t c of (r, written, left) \<Rightarrow>
    clean left \<and> (written = Some t \<or> written = None \<and> isl r)"
proof (cases "write_trace host t")
  case (Inl e)
  then show ?thesis using abandon_clean [OF assms, of e None] by (simp add: finish_capture_def split_beta) (simp add: abandon_def)
next
  case (Inr u)
  obtain m c1 where rel: "release_index S index c = (m, c1)" by force
  have child: "client_child c1 \<noteq> None" using later_child [OF forwardD [OF release_index.forward rel] assms] .
  show ?thesis
  proof (cases m)
    case (Inl e)
    then show ?thesis using Inr rel abandon_clean [OF child, of "ClientFailed e" "Some t"]
      by (simp add: finish_capture_def split_beta) (simp add: abandon_def)
  next
    case (Inr v)
    obtain d p where d: "shutdown S c1 = (d, p)" using surj_pair by metis
    then show ?thesis using \<open>write_trace host t = Inr u\<close> rel Inr children_left_shutdown [OF child d]
      by (auto simp: finish_capture_def clean_def)
  qed
qed

definition captured_from :: "'n serde \<Rightarrow> trace \<Rightarrow> bool" where
  \<comment> \<open>the directories are those that the completion journal listed\<close>
  "captured_from S t \<longleftrightarrow> (\<exists>index c c' known. completion_ids S index 0 [] c = (Inr known, c')
     \<and> set (map td_id (tr_directories t)) = set known)"

lemma map_of_unique_ids:
  "ascending dirs \<Longrightarrow> \<forall>i d. map_of dirs i = Some d \<longrightarrow> td_id d = i \<Longrightarrow> map (\<lambda>d. (td_id d, d)) (map snd dirs) = dirs"
proof (induction dirs)
  case (Cons p dirs)
  obtain i d where p: "p = (i, d)" by (cases p)
  have "map_of dirs j = Some e \<Longrightarrow> td_id e = j" for j e
    using Cons.prems p by (metis (no_types, lifting) ascending_def fun_upd_apply list.simps(9) map_of.simps(2) map_of_SomeD
        fst_conv snd_conv image_eqI less_irrefl list.set_map sorted_wrt.simps(2))
  moreover have "ascending dirs" "td_id d = i" using Cons.prems p by (auto simp: ascending_def)
  ultimately show ?case using Cons.IH p by simp
qed simp

lemma capture_scanned_outcome:
  assumes "client_child c \<noteq> None"
  shows "\<exists>r written left. capture_scanned S host index result c = Some (r, written, left) \<and> clean left
    \<and> (case written of None \<Rightarrow> isl r | Some t \<Rightarrow> trace_ok t \<and> captured_from S t)"
proof (cases "ch_seconds host")
  case None
  then show ?thesis using abandon_clean [OF assms, of ClockFailed None] by (auto simp: capture_scanned_def abandon_def)
next
  case (Some seconds)
  obtain m c1 where ids: "completion_ids S index 0 [] c = (m, c1)" by force
  have child: "client_child c1 \<noteq> None" using later_child [OF completion_ids_later [OF ids] assms] .
  show ?thesis
  proof (cases m)
    case (Inl e)
    then show ?thesis using Some ids abandon_clean [OF child, of "ClientFailed e" None]
      by (auto simp: capture_scanned_def read_index_def abandon_def)
  next
    case (Inr known)
    have "fresh []" by (simp add: fresh_def ascending_def)
    then obtain r c2 where all: "capture_all S index seconds known [] [] c1 = Some (r, c2)" "later c1 c2"
      "case r of Inl _ \<Rightarrow> True | Inr (_, dirs) \<Rightarrow> fresh dirs \<and> fst ` set dirs = fst ` set ([] :: (u32 \<times> trace_directory) list) \<union> set known"
      using capture_all_outcome [of "[]" S index seconds known "[]" c1] by blast
    have child2: "client_child c2 \<noteq> None" using later_child [OF all(2) child] .
    show ?thesis
    proof (cases r)
      case (Inl e)
      then show ?thesis using Some ids Inr all(1) abandon_clean [OF child2, of "ClientFailed e" None]
        by (auto simp: capture_scanned_def read_index_def abandon_def)
    next
      case (Inr od)
      obtain obs dirs where od: "od = (obs, dirs)" by force
      then have f: "fresh dirs" "fst ` set dirs = set known" using all(3) Inr by simp_all
      obtain dirs' where p: "place_directories (map fst dirs) obs dirs = Some dirs'" "map fst dirs' = map fst dirs"
        "\<forall>i d. map_of dirs' i = Some d \<longrightarrow> td_id d = i \<and> kinds_agree (td_immediate d)"
        "\<forall>i \<in> set (map fst dirs). \<forall>d. map_of dirs' i = Some d \<longrightarrow> td_depth d = depth_of dirs' d"
        using place_directories_outcome [of dirs "[]" "map fst dirs" obs] f(1) by (auto simp: fresh_def)
      let ?t = "build_trace (result_report result) seconds dirs'"
      have asc: "ascending dirs'" using f(1) p(2) by (simp add: fresh_def ascending_def)
      have eq: "map (\<lambda>d. (td_id d, d)) (map snd dirs') = dirs'" by (rule map_of_unique_ids [OF asc]) (use p(3) in blast)
      have ids': "map td_id (tr_directories ?t) = map fst dirs'"
        using arg_cong [OF eq, of "map fst"] by (simp add: build_trace_def o_def)
      have "td_depth d = depth_of dirs' d \<and> kinds_agree (td_immediate d)" if "d \<in> set (map snd dirs')" for d
      proof -
        have "(td_id d, d) \<in> set dirs'" using that by (subst eq [symmetric]) auto
        then have "map_of dirs' (td_id d) = Some d" "td_id d \<in> set (map fst dirs')"
          using asc by (auto simp: ascending_def strict_sorted_iff intro: map_of_is_SomeI rev_image_eqI)
        then have "map_of dirs' (td_id d) = Some d" "td_id d \<in> set (map fst dirs)" using p(2) by simp_all
        then show ?thesis using p(3,4) by blast
      qed
      then have "trace_ok ?t" using asc ids' eq by (simp add: trace_ok_def ascending_def list_all_iff) (simp add: build_trace_def)
      moreover have "captured_from S ?t"
      proof -
        have "set (map td_id (tr_directories ?t)) = set known" using ids' p(2) f(2) by (metis list.set_map)
        then show ?thesis using ids Inr \<open>m = Inr known\<close> by (auto simp: captured_from_def)
      qed
      moreover have "capture_scanned S host index result c = Some (finish_capture S host index ?t c2)"
        using Some ids \<open>m = Inr known\<close> all(1) Inr od p(1) by (simp add: capture_scanned_def read_index_def)
      ultimately show ?thesis using finish_capture_outcome [OF child2, where S = S and host = host and index = index and t = ?t]
        by (cases "finish_capture S host index ?t c2") auto
    qed
  qed
qed

text \<open>
  C21. The trace recorder never panics: whatever the backend answers, it returns, with no child left unreaped. When it has
  written a trace, its directories are those that the completion journal listed, each once and in ascending order of ids, and the
  entries of each are counted under exactly one kind. The depth of a directory is one more than that of its parent if the parent is
  in the trace with a smaller id, and 0 if it has no parent there. When it has written none, it has failed.
\<close>
theorem capture_outcome:
  "\<exists>r written left. capture S host root_path workers = Some (r, written, left)
    \<and> (if isl (ch_spawned host) then left = [] else clean left)
    \<and> (case written of None \<Rightarrow> isl r | Some t \<Rightarrow> trace_ok t \<and> captured_from S t)"
proof -
  obtain m left where sp: "spawn S (ch_spawned host) = (m, left)" by force
  show ?thesis
  proof (cases m)
    case (Inl e)
    then show ?thesis using sp
      by (auto simp: capture_def spawn_def clean_def split: sum.splits prod.splits option.splits if_splits)
  next
    case (Inr c)
    then have live: "client_child c \<noteq> None" "\<not> isl (ch_spawned host)"
      using sp by (auto simp: spawn_def split: sum.splits prod.splits option.splits if_splits)
    obtain m1 c1 where st: "start_scan S root_path (capture_options workers) c = (m1, c1)" by force
    have c1: "client_child c1 \<noteq> None" using later_child [OF forwardD [OF start_scan.forward st] live(1)] .
    show ?thesis
    proof (cases m1)
      case (Inl e)
      then show ?thesis using sp Inr st live(2) abandon_clean [OF c1, of "ClientFailed e" None] by (auto simp: capture_def abandon_def)
    next
      case (Inr index)
      obtain m2 c2 where aw: "await_scan S (handle_index_id index) c1 = (m2, c2)" by force
      have c2: "client_child c2 \<noteq> None" using later_child [OF forwardD [OF await_scan.forward aw] c1] .
      show ?thesis
      proof (cases m2)
        case (Inl e)
        then show ?thesis using sp \<open>m = Inr c\<close> st Inr aw live(2) abandon_clean [OF c2, of "ClientFailed e" None]
          by (auto simp: capture_def abandon_def)
      next
        case (Inr result)
        then show ?thesis using sp \<open>m = Inr c\<close> st \<open>m1 = Inr index\<close> aw live(2) capture_scanned_outcome [OF c2, where S = S and host = host and index = "handle_index_id index" and result = result]
          by (auto simp: capture_def)
      qed
    qed
  qed
qed

end
