(* ===== verification/Bridge_Demo.thy ===== *)
theory Bridge_Demo
  imports Pipeline_Demo
begin

text \<open>A concrete bridge, one answer at a time: what each method of the client returns when the expected message comes next.\<close>

definition json_field :: "string \<Rightarrow> demo_number json \<Rightarrow> u64" where
  "json_field k j = (case Option.bind (json_get k j) json_u64 of Some n \<Rightarrow> n | None \<Rightarrow> 0)"

fun json_list :: "demo_number json option \<Rightarrow> demo_number json list" where
  "json_list (Some (JArray js)) = js"
| "json_list _ = []"

definition demo_row :: "demo_number json \<Rightarrow> demo_number entry_row" where
  "demo_row j = \<lparr>row_number = 0, child_directory_id = map_option ucast (Option.bind (json_get ''child'' j) json_u64),
     row_values = (case j of JObject es \<Rightarrow> es | _ \<Rightarrow> [])\<rparr>"

definition demo_page :: "demo_number json \<Rightarrow> demo_number directory_page" where
  "demo_page j = \<lparr>dp_index_id = 7, dp_directory_id = 0, dp_state = DirPublished,
     dp_parent_id = map_option ucast (Option.bind (json_get ''parent'' j) json_u64), dp_name = Utf8 ''dir'', dp_error = None,
     dp_entry_count = 0, dp_child_count = 0, dp_offset = 0, dp_next_offset = 1, dp_done = (json_field ''done'' j = 1),
     dp_entries = map demo_row (json_list (json_get ''rows'' j))\<rparr>"

fun capture_to_value :: "bridge_request \<Rightarrow> string + demo_number json" where
  "capture_to_value (CompletionRequest i oper index cursor limit) = Inr (JObject [(''id'', JNumber (Whole i)), (''op'', JString oper)])"
| "capture_to_value (FetchDirectoryRequest i oper index directory off limit) = Inr (JObject [(''id'', JNumber (Whole i)), (''op'', JString oper)])"
| "capture_to_value (SummarizeDirectoriesRequest i oper index directories size_field limit) = Inr (JObject [(''id'', JNumber (Whole i)), (''op'', JString oper)])"
| "capture_to_value req = demo_to_value req"

definition final_status :: index_status_record where
  "final_status = demo_status\<lparr>status_state := Finished, status_store := demo_store\<lparr>completion_count := 2\<rparr>\<rparr>"

definition root_stats :: "demo_number directory_stats" where
  "root_stats = \<lparr>ds_directory_id = 0, ds_state = DirPublished, ds_parent_id = None, ds_name = Utf8 ''/srv'', ds_error = None,
     ds_entry_count = 2, ds_child_count = 0, ds_size_bytes = 130,
     ds_largest = [\<lparr>sized_name.sized_name = Utf8 ''big'', sized_size = 90\<rparr>, \<lparr>sized_name.sized_name = Utf8 ''mid'', sized_size = 40\<rparr>],
     ds_histogram = []\<rparr>"

definition capture_serde :: "demo_number serde" where
  "capture_serde = demo_serde\<lparr>to_value := capture_to_value,
     de_scan_finished := (\<lambda>j. Inr \<lparr>finished_index_id = 7, finished_result = Some demo_result, finished_error = None\<rparr>),
     de_completion := (\<lambda>j. Inr \<lparr>page_index_id = 7, page_from_cursor = 0, page_cursor = json_field ''cursor'' j,
       page_directory_ids = map (\<lambda>j. case json_u64 j of Some n \<Rightarrow> ucast n | None \<Rightarrow> 0) (json_list (json_get ''ids'' j))\<rparr>),
     de_directory := (\<lambda>j. Inr (demo_page j)), de_status := (\<lambda>j. Inr final_status), de_summaries := (\<lambda>j. Inr [root_stats])\<rparr>"

definition number :: "u64 \<Rightarrow> demo_number json" where
  "number n = JNumber (Whole n)"

definition finished_msg :: "demo_number json" where
  "finished_msg = JObject [(''event'', JString ''scan_finished'')]"

definition handle_json :: "demo_number json" where
  "handle_json = JObject [(''index_id'', number 7), (''root'', JString ''/srv'')]"

definition journal_json :: "demo_number json list \<Rightarrow> demo_number json" where
  "journal_json listed = JObject [(''cursor'', number 2), (''ids'', JArray listed)]"

definition shutdown_json :: "demo_number json" where
  "shutdown_json = JObject [(''shutdown'', JBool True)]"

section \<open>One answer at a time\<close>

definition bridge :: "u64 \<Rightarrow> demo_number json list \<Rightarrow> client \<Rightarrow> bool" where
  \<comment> \<open>the client has sent \<open>n\<close> requests, and its backend will send these messages\<close>
  "bridge n js c \<longleftrightarrow> client_child c = Some demo_child \<and> (\<exists>w. client_input c = Some w \<and> broken w = None)
     \<and> incoming (client_output c) = concat (map (json_frame capture_serde) js) \<and> next_request_id c = n \<and> events c = []"

lemma capture_serde_lib: "json_library (lib capture_serde)"
  by (simp add: capture_serde_def demo_serde_lib)

lemma capture_serde_simps:
  "lib capture_serde = demo_lib" "to_value capture_serde = capture_to_value"
  "de_response capture_serde = demo_response" "de_scan_finished capture_serde = (\<lambda>j. Inr \<lparr>finished_index_id = 7, finished_result = Some demo_result, finished_error = None\<rparr>)"
  by (simp_all add: capture_serde_def demo_serde_def)

lemma answered:
  assumes b: "bridge n (ok_json n r # js) c" and n: "unat n + 1 < 2 ^ 64"
    and req: "capture_to_value (req n) = Inr reqj" "sendable capture_serde reqj"
    and ans: "sendable capture_serde (ok_json n r)" "de r = Inr result"
  obtains c1 c' where "reserve_request_id c = (Inr n, c1)" "request capture_serde de (req n) n c1 = (Inr result, c')" "bridge (n + 1) js c'"
proof -
  let ?c = "c\<lparr>next_request_id := n + 1\<rparr>"
  obtain w where w: "client_input c = Some w" "broken w = None" using b by (auto simp: bridge_def)
  have j: "json_get ''event'' (ok_json n r) = None" "de_response capture_serde (ok_json n r)
      = Inr \<lparr>response_id = Some n, response_status = ''ok'', response_result = Some r, response_error = None\<rparr>"
    by (simp_all add: ok_json_def capture_serde_simps demo_response_def field_def json_u64_def rbind_def ok_or_def)
  have "reserve_request_id c = (Inr n, ?c)" using b n by (simp add: reserve_request_id_def bridge_def)
  moreover have "request capture_serde de (req n) n ?c = (Inr result, ?c\<lparr>events := events ?c @ [],
      client_input := Some (w\<lparr>sent := sent w @ json_frame capture_serde reqj\<rparr>),
      client_output := (client_output ?c)\<lparr>incoming := concat (map (json_frame capture_serde) js)\<rparr>\<rparr>)"
    by (rule request_frames [where js = "[]" and j = "ok_json n r" and resultj = r
        and response = "\<lparr>response_id = Some n, response_status = ''ok'', response_result = Some r, response_error = None\<rparr>", OF capture_serde_lib])
      (use w req ans b j in \<open>simp_all add: bridge_def capture_serde_simps(2)\<close>)
  ultimately show thesis using that b w by (simp add: bridge_def)
qed

lemma awaited:
  assumes "bridge n (finished_msg # js) c"
  obtains c' where "await_scan capture_serde 7 c = (Inr demo_result, c')" "bridge n js c'"
proof -
  let ?c = "c\<lparr>client_output := (client_output c)\<lparr>incoming := concat (map (json_frame capture_serde) js)\<rparr>\<rparr>"
  have s: "sendable capture_serde finished_msg" by code_simp
  have "parse_event capture_serde finished_msg = Inr (ScanFinished 7 (Some demo_result) None)"
    by (simp add: parse_event_def finished_msg_def capture_serde_simps rbind_def map_err_def ok_or_def)
  moreover have "read_message capture_serde c = (if json_get ''event'' finished_msg \<noteq> None
      then rbind (parse_event capture_serde finished_msg) (\<lambda>ev. Inr (Event ev))
      else rbind (map_err Serialization (de_response capture_serde finished_msg)) (\<lambda>r. Inr (Response r)), ?c)"
    using assms by (intro read_message_json [OF capture_serde_lib s]) (simp add: bridge_def)
  ultimately have "read_event capture_serde c = (Inr (ScanFinished 7 (Some demo_result) None), ?c)"
    by (simp add: read_event.simps [of capture_serde c] finished_msg_def rbind_def register_event_def)
  then have "await_scan capture_serde 7 c = (Inr demo_result, ?c)"
    using assms by (simp add: await_scan.simps [of capture_serde 7 c] take_index_event_def bridge_def event_index_id_def finished_event_def ok_or_def)
  then show thesis using that assms by (auto simp: bridge_def)
qed

lemma started_scan:
  assumes "bridge 0 (ok_json 0 handle_json # js) c"
  obtains c' where "start_scan capture_serde (as_bytes ''/srv'') options c = (Inr \<lparr>handle_index_id = 7, handle_root = ''/srv''\<rparr>, c')" "bridge 1 js c'"
proof -
  have u: "from_utf8 (as_bytes ''/srv'') = Some ''/srv''" by code_simp
  let ?o = options
  let ?req = "\<lambda>i. StartScanRequest i ''start_scan'' ''/srv'' (opt_fields ?o) (opt_concurrency ?o) (opt_buffer_size ?o) (opt_ranking ?o)
      (opt_mount_policy ?o) (opt_failure_sample_limit ?o)"
  have s: "sendable capture_serde (JObject [(''id'', JNumber (Whole 0)), (''op'', JString ''start_scan''), (''root'', JString ''/srv'')])"
    "sendable capture_serde (ok_json 0 handle_json)" "de_handle capture_serde handle_json = Inr \<lparr>handle_index_id = 7, handle_root = ''/srv''\<rparr>"
    by code_simp+
  obtain c1 c' where "reserve_request_id c = (Inr 0, c1)"
    "request capture_serde (de_handle capture_serde) (?req 0) 0 c1 = (Inr \<lparr>handle_index_id = 7, handle_root = ''/srv''\<rparr>, c')" "bridge (0 + 1) js c'"
    by (rule answered [where req = ?req and de = "de_handle capture_serde", OF assms _ _ s]) simp_all
  then show thesis using that u by (simp add: start_scan_def sbind_def spure_def ok_or_def)
qed

lemma journal_read:
  assumes "bridge n (ok_json n (journal_json listed) # js) c" "unat n + 1 < 2 ^ 64"
    and "sendable capture_serde (JObject [(''id'', JNumber (Whole n)), (''op'', JString ''completed_directories'')])"
      "sendable capture_serde (ok_json n (journal_json listed))"
  obtains page c' where "completed_directories capture_serde 7 cursor limit c = (Inr page, c')" "bridge (n + 1) js c'"
    "page_directory_ids page = map (\<lambda>j. case json_u64 j of Some n \<Rightarrow> ucast n | None \<Rightarrow> 0) listed" "page_cursor page = 2"
proof -
  define page where "page = \<lparr>page_index_id = 7, page_from_cursor = 0, page_cursor = json_field ''cursor'' (journal_json listed),
       page_directory_ids = map (\<lambda>j. case json_u64 j of Some n \<Rightarrow> ucast n | None \<Rightarrow> 0) listed\<rparr>"
  have cursor: "json_field ''cursor'' (journal_json listed) = 2" by (simp add: json_field_def journal_json_def number_def json_u64_def)
  have d: "de_completion capture_serde (journal_json listed) = Inr page" by (simp add: capture_serde_def journal_json_def page_def)
  obtain c1 c' where "reserve_request_id c = (Inr n, c1)" "bridge (n + 1) js c'"
    "request capture_serde (de_completion capture_serde) (CompletionRequest n ''completed_directories'' 7 cursor limit) n c1 = (Inr page, c')"
    by (rule answered [where req = "\<lambda>i. CompletionRequest i ''completed_directories'' 7 cursor limit" and de = "de_completion capture_serde",
          OF assms(1,2) _ assms(3,4) d]) simp_all
  then show thesis using that by (simp add: completed_directories_def sbind_def page_def cursor)
qed

lemma page_read:
  assumes "bridge n (ok_json n j # js) c" "unat n + 1 < 2 ^ 64"
    and "sendable capture_serde (JObject [(''id'', JNumber (Whole n)), (''op'', JString ''fetch_directory'')])"
      "sendable capture_serde (ok_json n j)"
  obtains c' where "fetch_directory capture_serde 7 directory off limit c = (Inr (demo_page j), c')" "bridge (n + 1) js c'"
proof -
  have d: "de_directory capture_serde j = Inr (demo_page j)" by (simp add: capture_serde_def)
  obtain c1 c' where "reserve_request_id c = (Inr n, c1)" "bridge (n + 1) js c'"
    "request capture_serde (de_directory capture_serde) (FetchDirectoryRequest n ''fetch_directory'' 7 directory off limit) n c1 = (Inr (demo_page j), c')"
    by (rule answered [where req = "\<lambda>i. FetchDirectoryRequest i ''fetch_directory'' 7 directory off limit" and de = "de_directory capture_serde",
          OF assms(1,2) _ assms(3,4) d]) simp_all
  then show thesis using that by (simp add: fetch_directory_def sbind_def)
qed

lemma ready_read:
  assumes j: "sendable capture_serde j" and r: "incoming r = json_frame capture_serde j @ rest"
  shows "read_typed_frame capture_serde de r = (map_err Serialization (de j), r\<lparr>incoming := rest\<rparr>)"
proof -
  have t: "travels (lib capture_serde) 0 j" using j by (simp add: sendable_def json_fits_travels [OF capture_serde_lib])
  have "read_frame protocol_byte r = (decode_payload (frame_payload (wire_of (lib capture_serde) j)), r\<lparr>incoming := rest\<rparr>)"
    using j r by (intro read_frame_bytes [OF _ refl]) (simp_all add: json_frame_def frame_bytes_def sendable_def)
  moreover have "decode_payload (frame_payload (wire_of (lib capture_serde) j)) = Inr (canon (wire_of (lib capture_serde) j))"
    using t j by (intro decode_payload_frame) (simp_all add: travels_def sendable_def)
  ultimately show ?thesis using t by (simp add: read_typed_frame_def travels_def)
qed

lemma started_bridge:
  obtains c where "spawn capture_serde (demo_spawned js) = (Inr c, None)" "bridge 0 js c"
proof -
  have f: "json_frame demo_serde = json_frame capture_serde" by (simp add: json_frame_def fun_eq_iff capture_serde_def)
  have s: "sendable capture_serde ready_json" "de_ready capture_serde ready_json = Inr \<lparr>ready_event = ''ready'', ready_protocol = 6, ready_pid = ''42''\<rparr>"
    by code_simp+
  let ?rest = "concat (map (json_frame capture_serde) js)"
  have "read_typed_frame capture_serde (de_ready capture_serde) \<lparr>incoming = json_frame capture_serde ready_json @ ?rest, ending = Eof\<rparr>
      = (Inr \<lparr>ready_event = ''ready'', ready_protocol = 6, ready_pid = ''42''\<rparr>, \<lparr>incoming = ?rest, ending = Eof\<rparr>)"
    using ready_read [OF s(1), where de = "de_ready capture_serde" and r = "\<lparr>incoming = json_frame capture_serde ready_json @ ?rest, ending = Eof\<rparr>" and rest = ?rest]
    by (simp add: s(2) map_err_def)
  then show thesis
    using that by (simp add: spawn_def demo_spawned_def f PROTOCOL_VERSION_def bridge_def)
qed

lemma released_index:
  assumes "bridge n (ok_json n (released_json 7) # js) c" "unat n + 1 < 2 ^ 64"
    and "sendable capture_serde (JObject [(''id'', JNumber (Whole n)), (''index_id'', JNumber (Whole 7)), (''op'', JString ''release_index'')])"
      "sendable capture_serde (ok_json n (released_json 7))"
  obtains c' where "release_index capture_serde 7 c = (Inr (), c')" "bridge (n + 1) js c'"
proof -
  have s: "de_release capture_serde (released_json 7) = Inr \<lparr>release_index_id = 7, released = True\<rparr>" by code_simp
  obtain c1 c' where c: "reserve_request_id c = (Inr n, c1)" "bridge (n + 1) js c'"
    "request capture_serde (de_release capture_serde) (IndexRequest n ''release_index'' 7) n c1 = (Inr \<lparr>release_index_id = 7, released = True\<rparr>, c')"
    by (rule answered [where req = "\<lambda>i. IndexRequest i ''release_index'' 7" and de = "de_release capture_serde", OF assms(1,2) _ assms(3,4) s]) simp_all
  then have "release_index capture_serde 7 c = (Inr (), c'\<lparr>events := []\<rparr>)"
    by (simp add: release_index_def sbind_def) (simp add: bridge_def)
  then show thesis using that c(2) by (simp add: bridge_def)
qed

lemma shut_down:
  assumes "bridge n [ok_json n shutdown_json] c" "unat n + 1 < 2 ^ 64"
    and "sendable capture_serde (JObject [(''id'', JNumber (Whole n)), (''op'', JString ''shutdown'')])"
      "sendable capture_serde (ok_json n shutdown_json)"
  obtains left where "shutdown capture_serde c = (Inr (), left)"
proof -
  have s: "de_shutdown capture_serde shutdown_json = Inr True" by code_simp
  obtain c1 c' where c: "reserve_request_id c = (Inr n, c1)" "bridge (n + 1) [] c'"
    "request capture_serde (de_shutdown capture_serde) (ShutdownRequest n ''shutdown'') n c1 = (Inr True, c')"
    by (rule answered [where req = "\<lambda>i. ShutdownRequest i ''shutdown''" and de = "de_shutdown capture_serde", OF assms(1,2) _ assms(3,4) s]) simp_all
  then have "fst (shutdown capture_serde c) = Inr ()"
    by (auto simp: shutdown_def sbind_def bridge_def demo_child_def wait_def status_success_def status_code_def)
  then show thesis using that by (metis prod.collapse)
qed

lemma summaries_read:
  assumes "bridge n (ok_json n j # js) c" "unat n + 1 < 2 ^ 64"
    and "sendable capture_serde (JObject [(''id'', JNumber (Whole n)), (''op'', JString ''summarize_directories'')])"
      "sendable capture_serde (ok_json n j)"
  obtains c' where "summarize_directories capture_serde 7 directories size_field limit c = (Inr [root_stats], c')" "bridge (n + 1) js c'"
proof -
  have d: "de_summaries capture_serde j = Inr [root_stats]" by (simp add: capture_serde_def)
  obtain c1 c' where "reserve_request_id c = (Inr n, c1)" "bridge (n + 1) js c'"
    "request capture_serde (de_summaries capture_serde) (SummarizeDirectoriesRequest n ''summarize_directories'' 7 directories size_field limit) n c1 = (Inr [root_stats], c')"
    by (rule answered [where req = "\<lambda>i. SummarizeDirectoriesRequest i ''summarize_directories'' 7 directories size_field limit" and de = "de_summaries capture_serde",
          OF assms(1,2) _ assms(3,4) d]) simp_all
  then show thesis using that by (simp add: summarize_directories_def sbind_def)
qed

lemma status_read:
  assumes "bridge n (ok_json n j # js) c" "unat n + 1 < 2 ^ 64"
    and "sendable capture_serde (JObject [(''id'', JNumber (Whole n)), (''index_id'', JNumber (Whole 7)), (''op'', JString ''index_status'')])"
      "sendable capture_serde (ok_json n j)"
  obtains c' where "index_status capture_serde 7 c = (Inr final_status, c')" "bridge (n + 1) js c'"
proof -
  have d: "de_status capture_serde j = Inr final_status" by (simp add: capture_serde_def)
  obtain c1 c' where "reserve_request_id c = (Inr n, c1)" "bridge (n + 1) js c'"
    "request capture_serde (de_status capture_serde) (IndexRequest n ''index_status'' 7) n c1 = (Inr final_status, c')"
    by (rule answered [where req = "\<lambda>i. IndexRequest i ''index_status'' 7" and de = "de_status capture_serde",
          OF assms(1,2) _ assms(3,4) d]) simp_all
  then show thesis using that by (simp add: index_status_def sbind_def)
qed

end
