(* ===== verification/Capture_Demo.thy ===== *)
theory Capture_Demo
  imports Capture_Props Bridge_Demo
begin

text \<open>
  A successful capture over a concrete bridge: two directories, the journal lists the child first, and the root is read in two pages.
\<close>

definition child_page :: "demo_number json" where
  "child_page = JObject [(''done'', number 1), (''parent'', number 0), (''rows'', JArray [])]"

definition first_page :: "demo_number json" where
  "first_page = JObject [(''done'', number 0), (''rows'', JArray [JObject
     [(''allocated_size'', number 12), (''name'', JString ''a.rs''), (''type'', JString ''regular'')]])]"

definition second_page :: "demo_number json" where
  "second_page = JObject [(''done'', number 1), (''rows'', JArray [JObject
     [(''allocated_size'', number 9), (''child'', number 1), (''type'', JString ''directory'')]])]"

definition capture_answers :: "demo_number json list" where
  "capture_answers =
     [ok_json 0 handle_json, finished_msg, ok_json 1 (journal_json [number 1, number 0]), ok_json 2 (journal_json []),
      ok_json 3 child_page, ok_json 4 first_page, ok_json 5 second_page, ok_json 6 (released_json 7), ok_json 7 shutdown_json]"

definition demo_capture_host :: capture_host where
  "demo_capture_host = \<lparr>ch_spawned = demo_spawned capture_answers, ch_seconds = Some 1000, ch_make_parent = Inr (), ch_create = Inr (),
     ch_write = (\<lambda>t. Inr ())\<rparr>"

section \<open>The capture\<close>

lemma demo_pages:
  "dp_done (demo_page child_page)" "dp_parent_id (demo_page child_page) = Some 0" "dp_entries (demo_page child_page) = []"
  "\<not> dp_done (demo_page first_page)" "dp_parent_id (demo_page first_page) = None" "map child_directory_id (dp_entries (demo_page first_page)) = [None]"
  "dp_done (demo_page second_page)" "map child_directory_id (dp_entries (demo_page second_page)) = [Some 1]"
  by code_simp+

lemma demo_read_index:
  assumes "bridge 1 (drop 2 capture_answers) c"
  obtains c' obs dirs where "read_index capture_serde 7 seconds c = Some (Inr (obs, dirs), c')"
    "bridge 6 [ok_json 6 (released_json 7), ok_json 7 shutdown_json] c'"
    "map (\<lambda>(i, d). (i, td_id d, td_parent_id d, td_children d)) dirs = [(0, 0, None, [1]), (1, 1, Some 0, [])]"
proof -
  have s: "sendable capture_serde (JObject [(''id'', JNumber (Whole 1)), (''op'', JString ''completed_directories'')])"
    "sendable capture_serde (ok_json 1 (journal_json [number 1, number 0]))"
    "sendable capture_serde (JObject [(''id'', JNumber (Whole 2)), (''op'', JString ''completed_directories'')])"
    "sendable capture_serde (ok_json 2 (journal_json []))"
    "sendable capture_serde (JObject [(''id'', JNumber (Whole 3)), (''op'', JString ''fetch_directory'')])" "sendable capture_serde (ok_json 3 child_page)"
    "sendable capture_serde (JObject [(''id'', JNumber (Whole 4)), (''op'', JString ''fetch_directory'')])" "sendable capture_serde (ok_json 4 first_page)"
    "sendable capture_serde (JObject [(''id'', JNumber (Whole 5)), (''op'', JString ''fetch_directory'')])" "sendable capture_serde (ok_json 5 second_page)"
    by code_simp+
  have b: "bridge 1 (ok_json 1 (journal_json [number 1, number 0]) # ok_json 2 (journal_json []) # ok_json 3 child_page
      # ok_json 4 first_page # ok_json 5 second_page # [ok_json 6 (released_json 7), ok_json 7 shutdown_json]) c"
    using assms by (simp add: capture_answers_def)
  obtain p1 c1 where 1: "completed_directories capture_serde 7 0 PAGE_SIZE c = (Inr p1, c1)" "page_directory_ids p1 = [1, 0]"
    "bridge 2 (ok_json 2 (journal_json []) # ok_json 3 child_page # ok_json 4 first_page # ok_json 5 second_page
      # [ok_json 6 (released_json 7), ok_json 7 shutdown_json]) c1"
    by (rule journal_read [OF b _ s(1,2), where cursor = 0 and limit = PAGE_SIZE]) (simp_all add: number_def json_u64_def)
  obtain p2 c2 where 2: "completed_directories capture_serde 7 (page_cursor p1) PAGE_SIZE c1 = (Inr p2, c2)" "page_directory_ids p2 = []"
    "bridge 3 (ok_json 3 child_page # ok_json 4 first_page # ok_json 5 second_page # [ok_json 6 (released_json 7), ok_json 7 shutdown_json]) c2"
    by (rule journal_read [OF 1(3) _ s(3,4), where cursor = "page_cursor p1" and limit = PAGE_SIZE]) simp_all
  obtain c3 where 3: "fetch_directory capture_serde 7 1 0 PAGE_SIZE c2 = (Inr (demo_page child_page), c3)"
    "bridge 4 (ok_json 4 first_page # ok_json 5 second_page # [ok_json 6 (released_json 7), ok_json 7 shutdown_json]) c3"
    by (rule page_read [OF 2(3) _ s(5,6), where directory = 1 and off = 0 and limit = PAGE_SIZE]) simp_all
  obtain c4 where 4: "fetch_directory capture_serde 7 0 0 PAGE_SIZE c3 = (Inr (demo_page first_page), c4)"
    "bridge 5 (ok_json 5 second_page # [ok_json 6 (released_json 7), ok_json 7 shutdown_json]) c4"
    by (rule page_read [OF 3(2) _ s(7,8), where directory = 0 and off = 0 and limit = PAGE_SIZE]) simp_all
  obtain c5 where 5: "fetch_directory capture_serde 7 0 (dp_next_offset (demo_page first_page)) PAGE_SIZE c4 = (Inr (demo_page second_page), c5)"
    "bridge 6 [ok_json 6 (released_json 7), ok_json 7 shutdown_json] c5"
    by (rule page_read [OF 4(2) _ s(9,10), where directory = 0 and off = "dp_next_offset (demo_page first_page)" and limit = PAGE_SIZE]) simp_all
  obtain r1 r2 where rows: "dp_entries (demo_page first_page) = [r1]" "child_directory_id r1 = None"
    "dp_entries (demo_page second_page) = [r2]" "child_directory_id r2 = Some 1"
    using demo_pages(6,8) by (auto simp: map_eq_Cons_conv)
  have "completion_ids capture_serde 7 0 [] c = (Inr [1, 0], c2)"
    using 1(1,2) 2(1,2) by (simp add: completion_ids.simps [of capture_serde 7 0] completion_ids.simps [of capture_serde 7 "page_cursor p1"])
  then show thesis
    using that 3(1) 4(1) 5 demo_pages(1-5,7) rows
    by (simp add: read_index_def capture_directory_def fetch_pages.simps [of capture_serde 7 1] fetch_pages.simps [of capture_serde 7 0]
        note_page_def Let_def)
qed

lemma demo_capture:
  "\<exists>t left. capture capture_serde demo_capture_host (as_bytes ''/srv'') 4 = Some (Inr (), Some t, left)
     \<and> map (\<lambda>d. (td_id d, td_depth d, td_children d)) (tr_directories t) = [(0, 0, [1]), (1, 1, [])]"
proof -
  have s: "sendable capture_serde (JObject [(''id'', JNumber (Whole 6)), (''index_id'', JNumber (Whole 7)), (''op'', JString ''release_index'')])"
    "sendable capture_serde (ok_json 6 (released_json 7))"
    "sendable capture_serde (JObject [(''id'', JNumber (Whole 7)), (''op'', JString ''shutdown'')])" "sendable capture_serde (ok_json 7 shutdown_json)"
    by code_simp+
  let ?start = "start_scan capture_serde (as_bytes ''/srv'') (capture_options 4)"
  obtain c0 where 0: "spawn capture_serde (demo_spawned capture_answers) = (Inr c0, None)" "bridge 0 capture_answers c0" by (rule started_bridge)
  have b: "bridge 0 (ok_json 0 handle_json # finished_msg # drop 2 capture_answers) c0" using 0(2) by (simp add: capture_answers_def)
  obtain c1 where 1: "?start c0 = (Inr \<lparr>handle_index_id = 7, handle_root = ''/srv''\<rparr>, c1)" "bridge 1 (finished_msg # drop 2 capture_answers) c1"
    by (rule started_scan [OF b, where options = "capture_options 4"])
  obtain c2 where 2: "await_scan capture_serde 7 c1 = (Inr demo_result, c2)" "bridge 1 (drop 2 capture_answers) c2" by (rule awaited [OF 1(2)])
  obtain c3 obs dirs where 3: "read_index capture_serde 7 1000 c2 = Some (Inr (obs, dirs), c3)"
    "bridge 6 [ok_json 6 (released_json 7), ok_json 7 shutdown_json] c3"
    "map (\<lambda>(i, d). (i, td_id d, td_parent_id d, td_children d)) dirs = [(0, 0, None, [1]), (1, 1, Some 0, [])]" by (rule demo_read_index [OF 2(2)])
  obtain d0 d1 where dirs: "dirs = [(0, d0), (1, d1)]" "td_id d0 = 0" "td_id d1 = 1" "td_parent_id d0 = None" "td_children d0 = [1]" "td_parent_id d1 = Some 0" "td_children d1 = []"
    using 3(3) by (auto simp: map_eq_Cons_conv)
  obtain c4 where 4: "release_index capture_serde 7 c3 = (Inr (), c4)" "bridge 7 [ok_json 7 shutdown_json] c4" by (rule released_index [OF 3(2) _ s(1,2)]) simp_all
  obtain left where 5: "shutdown capture_serde c4 = (Inr (), left)" by (rule shut_down [OF 4(2) _ s(3,4)]) simp_all
  obtain o0 obs1 where o0: "btree_remove 0 obs = (o0, obs1)" by force
  obtain o1 obs2 where o1: "btree_remove 1 obs1 = (o1, obs2)" by force
  obtain e0 e1 where place: "place_directories (map fst dirs) obs dirs = Some [(0, e0), (1, e1)]"
    "td_depth e0 = 0" "td_children e0 = [1]" "td_depth e1 = 1" "td_children e1 = []" "td_id e0 = td_id d0" "td_id e1 = td_id d1"
    using dirs o0 o1 by (simp add: depth_below_def sat_succ32_def)
  show ?thesis
    using 0(1) 1(1) 2(1) 3(1) 4(1) 5 place dirs
    by (simp add: capture_def demo_capture_host_def capture_scanned_def finish_capture_def write_trace_def build_trace_def rbind_def map_err_def)
qed

lemma capture_outcome_witness:
  "\<exists>t left. capture capture_serde demo_capture_host (as_bytes ''/srv'') 4 = Some (Inr (), Some t, left)
     \<and> clean left \<and> trace_ok t \<and> map td_depth (tr_directories t) = [0, 1]"
proof -
  obtain t left where t: "capture capture_serde demo_capture_host (as_bytes ''/srv'') 4 = Some (Inr (), Some t, left)"
    "map (\<lambda>d. (td_id d, td_depth d, td_children d)) (tr_directories t) = [(0, 0, [1]), (1, 1, [])]" using demo_capture by (elim exE conjE) (rule that)
  have "\<not> isl (ch_spawned demo_capture_host)" by (simp add: demo_capture_host_def demo_spawned_def)
  moreover have "map td_depth (tr_directories t) = [0, 1]" using arg_cong [OF t(2), of "map (fst \<circ> snd)"] by (simp add: o_def)
  ultimately show ?thesis
    using capture_outcome [of capture_serde demo_capture_host "as_bytes ''/srv''" 4] t(1) by auto
qed

end
