(* ===== verification/Interaction.thy ===== *)
theory Interaction
  imports Pipeline Desktop_Props
begin

text \<open>
  A scan while the application is used: the messages of the worker arrive in order, with those of the user and of the timers in
  between. What the user does changes how the scan is shown, never what was found.
\<close>

section \<open>Runs of the application\<close>

type_synonym 'p input = "host \<times> (string \<Rightarrow> string option) \<times> nat \<times> 'p app_message"
  \<comment> \<open>a message, with what the operating system answers while it is handled\<close>

fun play :: "'p input list \<Rightarrow> 'p desktop \<Rightarrow> 'p desktop option" where
  "play [] st = Some st"
| "play ((H, opener, time, msg) # inputs) st =
     Option.bind (update H opener time msg st) (\<lambda>(st, _). play inputs st)"

fun delivered :: "'p input list \<Rightarrow> backend_event list" where
  "delivered [] = []"
| "delivered ((_, _, _, BackendMessage e) # inputs) = e # delivered inputs"
| "delivered (_ # inputs) = delivered inputs"

definition keeps_scan :: "'p app_message \<Rightarrow> bool" where
  \<comment> \<open>the message neither starts a scan nor ends one\<close>
  "keeps_scan msg \<longleftrightarrow> (case msg of StartScan \<Rightarrow> False | NewScan \<Rightarrow> False | _ \<Rightarrow> True)"

section \<open>Data and view\<close>

definition set_view :: "tab \<Rightarrow> string \<Rightarrow> notice option \<Rightarrow> u32 \<Rightarrow> u32 option \<Rightarrow> scan_model \<Rightarrow> scan_model" where
  "set_view t f n i s m = m\<lparr>active_tab := t, name_filter := f, notice := n, focus := i, selected := s\<rparr>"

definition scan_data :: "scan_model \<Rightarrow> scan_model" where
  \<comment> \<open>the model without what the user chooses to see, and the notice he can dismiss\<close>
  "scan_data m = set_view Treemap [] None 0 None m"

lemma scan_data_iff: "scan_data m = scan_data m' \<longleftrightarrow> (\<exists>t f n i s. m' = set_view t f n i s m)"
proof
  assume "scan_data m = scan_data m'"
  then have "m' = set_view (active_tab m') (name_filter m') (notice m') (focus m') (selected m') m"
    by (cases m; cases m') (simp add: scan_data_def set_view_def)
  then show "\<exists>t f n i s. m' = set_view t f n i s m" by blast
qed (auto simp: scan_data_def set_view_def)

lemma set_view_data [simp]:
  "tree (set_view t f n i s m) = tree m" "failed_directories (set_view t f n i s m) = failed_directories m"
  "top_files (set_view t f n i s m) = top_files m" "recent_limit (set_view t f n i s m) = recent_limit m"
  "recent (set_view t f n i s m) = recent m" "last_rate_sample (set_view t f n i s m) = last_rate_sample m"
  "finished (set_view t f n i s m) = finished m" "phase (set_view t f n i s m) = phase m"
  "notice (set_view t f n i s m) = n" "counters (set_view t f n i s m) = counters m"
  by (simp_all add: set_view_def)

lemma full_path_set_view [simp]: "full_path (set_view t f n i s m) d = full_path m d"
  by (simp add: full_path_def directory_name_def [abs_def] ancestor_chain_def)

lemma set_view_commutes:
  "(set_view t f n i s m)\<lparr>tree := x\<rparr> = set_view t f n i s (m\<lparr>tree := x\<rparr>)"
  "(set_view t f n i s m)\<lparr>failed_directories := fs\<rparr> = set_view t f n i s (m\<lparr>failed_directories := fs\<rparr>)"
  "(set_view t f n i s m)\<lparr>top_files := ts\<rparr> = set_view t f n i s (m\<lparr>top_files := ts\<rparr>)"
  "(set_view t f n i s m)\<lparr>recent := rs\<rparr> = set_view t f n i s (m\<lparr>recent := rs\<rparr>)"
  by (simp_all add: set_view_def)

lemma record_set_view:
  "record_failure d (set_view t f n i s m) = set_view t f n i s (record_failure d m)"
  "record_recent d (set_view t f n i s m) = set_view t f n i s (record_recent d m)"
  by (simp_all add: record_failure_def record_recent_def set_view_commutes)

lemma add_directory_set_view:
  "add_directory d (set_view t f n i s m) = map_option (set_view t f n i s) (add_directory d m)"
  by (cases "tree_add d (tree m)") (simp_all add: add_directory_def Let_def set_view_commutes record_set_view)

lemma add_directories_set_view:
  "add_directories ds (set_view t f n i s m) = map_option (set_view t f n i s) (add_directories ds m)"
proof (induction ds arbitrary: m)
  case (Cons d ds)
  then show ?case by (cases "add_directory d m") (simp_all add: add_directory_set_view)
qed simp

lemma record_rate_set_view: "record_rate a b c e (set_view t f n i s m) = set_view t f n i s (record_rate a b c e m)"
  by (simp add: record_rate_def Let_def set_view_def split: option.split)

lemma apply_event_set_view:
  "\<exists>n'. apply_event e (set_view t f n i s m) = map_option (set_view t f n' i s) (apply_event e m)"
proof (cases e)
  case (Update status elapsed allocated ds histogram)
  show ?thesis
  proof (cases "add_directories ds m")
    case None
    then show ?thesis using Update by (simp add: apply_event_def add_directories_set_view)
  next
    case (Some m1)
    show ?thesis
    proof (cases "finish_batch (tree m1)")
      case None
      then show ?thesis using Update Some by (simp add: apply_event_def add_directories_set_view)
    next
      case t: (Some t1)
      let ?ph = "case status_state status of Running \<Rightarrow> ''running'' | Finished \<Rightarrow> ''finishing''"
      let ?m = "m1\<lparr>tree := t1, size_histogram := histogram, phase := ?ph\<rparr>"
      have "(set_view t f n i s m1)\<lparr>tree := t1, size_histogram := histogram, phase := ?ph\<rparr> = set_view t f n i s ?m" by (simp add: set_view_def)
      moreover let ?up = "\<lambda>m. m\<lparr>counters := update_counters status elapsed allocated,
          metadata_error_counts := cnt_metadata_error_counts (status_counters status),
          directory_failure_counts := cnt_directory_failure_counts (status_counters status),
          directory_failure_reasons := cnt_directory_failure_reasons (status_counters status)\<rparr>"
      have "?up (set_view t f n i s r) = set_view t f n i s (?up r)" for r by (simp add: set_view_def)
      ultimately have "apply_event e (set_view t f n i s m) = map_option (set_view t f n i s) (apply_event e m)"
        using Update Some t by (simp only: apply_event_def backend_event.case add_directories_set_view option.map bind.bind_lunit
            set_view_data record_rate_set_view Let_def)
      then show ?thesis by blast
    qed
  qed
next
  case (Started r c p)
  then show ?thesis by (intro exI [of _ n]) (simp add: apply_event_def set_view_def)
next
  case (FinishedEvent result allocated)
  then show ?thesis by (intro exI [of _ "result_notice result n"]) (simp add: apply_event_def Let_def set_view_def)
next
  case (ErrorEvent x)
  then show ?thesis
    by (intro exI [of _ "Some \<lparr>notice_text = x, notice_level = ErrorLevel\<rparr>"]) (simp add: apply_event_def set_view_def)
qed

lemma apply_event_data:
  assumes "apply_event e m = Some m1" "scan_data m = scan_data m'"
  shows "\<exists>m1'. apply_event e m' = Some m1' \<and> scan_data m1 = scan_data m1'"
proof -
  obtain t f n i s where "m' = set_view t f n i s m" using assms(2) by (auto simp: scan_data_iff)
  then show ?thesis using apply_event_set_view [of e t f n i s m] assms(1) by (fastforce simp: scan_data_iff)
qed

lemma scan_data_updates [simp]:
  "scan_data (m\<lparr>active_tab := t\<rparr>) = scan_data m" "scan_data (m\<lparr>name_filter := f\<rparr>) = scan_data m"
  "scan_data (m\<lparr>notice := n\<rparr>) = scan_data m" "scan_data (m\<lparr>selected := s\<rparr>) = scan_data m"
  "scan_data (focus_directory i m) = scan_data m" "scan_data (set_filter f m) = scan_data m"
  by (simp_all add: scan_data_def set_view_def focus_directory_def set_filter_def)

section \<open>What a message changes\<close>

lemma autoshot_tick_data: "autoshot_tick st = Some (st', task) \<Longrightarrow> scan_data (d_model st') = scan_data (d_model st)"
  by (auto simp: autoshot_tick_def Let_def split: option.splits if_splits prod.splits)

lemma recording_store_data: "scan_data (d_model (fst (recording_store time shot st))) = scan_data (d_model st)"
  by (auto simp: recording_store_def Let_def split: option.splits sum.splits prod.splits)

lemma update_data:
  assumes "update H opener time msg st = Some (st', task)" "keeps_scan msg"
  shows "case msg of BackendMessage e \<Rightarrow> apply_event e (d_model st) = Some (d_model st') | _ \<Rightarrow> scan_data (d_model st') = scan_data (d_model st)"
proof (cases msg)
  case AutoshotTick
  then show ?thesis using assms autoshot_tick_data [of st st' task]
    by (auto simp: update_def recording_tick_def split: if_splits option.splits)
next
  case (ShotTaken shot)
  then show ?thesis using assms recording_store_data [of time shot st]
    by (auto simp: update_def autoshot_store_def Let_def split: if_splits option.splits)
qed (use assms in \<open>auto simp: update_def keeps_scan_def reveal_in_finder_def split: worker_choice.splits option.splits\<close>)

lemma play_data:
  assumes "play inputs st = Some st'" "\<forall>(H, opener, time, msg) \<in> set inputs. keeps_scan msg" "scan_data (d_model st) = scan_data m"
  shows "\<exists>m'. apply_events (delivered inputs) m = Some m' \<and> scan_data (d_model st') = scan_data m'"
  using assms
proof (induction inputs arbitrary: st m)
  case (Cons x inputs)
  obtain H opener time msg where x: "x = (H, opener, time, msg)" by (cases x)
  obtain st1 task where st1: "update H opener time msg st = Some (st1, task)" "play inputs st1 = Some st'"
    using Cons.prems(1) by (auto simp: x bind_eq_Some_conv)
  have keeps: "keeps_scan msg" "\<forall>(H, opener, time, msg) \<in> set inputs. keeps_scan msg" using Cons.prems(2) by (auto simp: x)
  show ?case
  proof (cases "\<exists>e. msg = BackendMessage e")
    case True
    then obtain e where e: "msg = BackendMessage e" by blast
    then have "apply_event e (d_model st) = Some (d_model st1)" using update_data [OF st1(1) keeps(1)] by simp
    from apply_event_data [OF this Cons.prems(3)] obtain m1 where "apply_event e m = Some m1" "scan_data (d_model st1) = scan_data m1" by blast
    with Cons.IH [OF st1(2) keeps(2)] show ?thesis by (auto simp: x e)
  next
    case False
    then have "scan_data (d_model st1) = scan_data m" "delivered (x # inputs) = delivered inputs"
      using update_data [OF st1(1) keeps(1)] Cons.prems(3) by (cases msg; simp add: x)+
    with Cons.IH [OF st1(2) keeps(2)] show ?thesis by simp
  qed
qed auto

lemma play_returns:
  assumes "desk_ok st" "\<forall>(H, opener, time, msg) \<in> set inputs. legal msg \<and> msg \<noteq> AutoshotTick"
  shows "\<exists>st'. play inputs st = Some st'"
  using assms
proof (induction inputs arbitrary: st)
  case (Cons x inputs)
  obtain H opener time msg where x: "x = (H, opener, time, msg)" by (cases x)
  then obtain st1 task where st1: "update H opener time msg st = Some (st1, task)"
    using update_returns [OF Cons.prems(1), of msg H opener time] Cons.prems(2) by auto
  have "legal msg" using Cons.prems(2) x by simp
  from Cons.IH [OF desk_ok_update [OF st1 this Cons.prems(1)]] Cons.prems(2) st1 show ?case by (simp add: x)
qed simp

section \<open>From the worker to the screen\<close>

text \<open>
  C37. A scan that is watched. From the start of a scan, let the worker's events arrive in order, with any other messages but those
  that start or leave a scan in between. At every moment the application holds exactly what the view model makes of the events that
  have arrived: tabs, selections, filters, screenshots and recordings change nothing that was found. When all
  have arrived, it holds the 100 largest files, and the capped total of a scan that finished.
\<close>
theorem interaction_keeps_data:
  assumes "can_start H st = Some r"
    and "d_scan (desktop_start_scan H st) = Some config"
    and "worker_main E (config_options config) spawned \<lparr>accepted = [], accepts_more = None\<rparr> = (result, ch, left)"
    and "\<forall>d \<in> set (summaries (accepted ch)). dir_parent_id d \<noteq> Some NO_PARENT"
    and "play inputs (desktop_start_scan H st) = Some st'"
    and "\<forall>(H, opener, time, msg) \<in> set inputs. keeps_scan msg"
    and "delivered inputs = take n (accepted ch)"
  shows "\<exists>m. apply_events (take n (accepted ch)) (new_model RECENT_LIMIT) = Some m
    \<and> scan_data (d_model st') = scan_data m
    \<and> (length (accepted ch) \<le> n \<longrightarrow>
         top_files (d_model st') = take TOP_LIMIT (largest_first entry_bytes (offered (accepted ch) (new_model RECENT_LIMIT)))
         \<and> (\<forall>u. result = Inr u \<longrightarrow> finished (d_model st')
              \<and> unat (c_allocated_bytes (counters (d_model st'))) = capped (allocated_sum (summaries (accepted ch)))))"
proof -
  let ?es = "accepted ch" and ?new = "new_model RECENT_LIMIT"
  have new: "d_model (desktop_start_scan H st) = ?new" using start_scan_Some [OF assms(1)] by (simp add: started_def)
  from play_data [OF assms(5,6), of ?new] obtain m
    where m: "apply_events (take n ?es) ?new = Some m" "scan_data (d_model st') = scan_data m"
    by (auto simp: new assms(7))
  have same: "top_files (d_model st') = top_files m" "finished (d_model st') = finished m" "counters (d_model st') = counters m"
    using m(2) by (auto simp: scan_data_iff)
  have "top_files m = take TOP_LIMIT (largest_first entry_bytes (offered ?es ?new))
      \<and> (\<forall>u. result = Inr u \<longrightarrow> finished m \<and> unat (c_allocated_bytes (counters m)) = capped (allocated_sum (summaries ?es)))"
    if "length ?es \<le> n"
    using worker_to_view [OF assms(3,4), of RECENT_LIMIT] m(1) that by auto
  then show ?thesis using m same by simp
qed

end
