(* ===== verification/Interaction_Demo.thy ===== *)
theory Interaction_Demo
  imports Interaction Bridge_Demo Desktop_Demo
begin

text \<open>
  A successful run of the worker over a concrete bridge: one directory is reported, summarised and shown, and the scan finishes. The user
  changes the tab, selects, filters and dismisses a notice in between.
\<close>

definition watch_answers :: "demo_number json list" where
  "watch_answers =
     [ok_json 0 handle_json, ok_json 1 (journal_json [number 0]), ok_json 2 JNull, ok_json 3 JNull, finished_msg,
      ok_json 4 (released_json 7), ok_json 5 shutdown_json]"

definition watch_env :: "demo_number backend_env" where
  "watch_env = demo_env\<lparr>env_serde := capture_serde\<rparr>"

lemma watch_sendable:
  "sendable capture_serde (JObject [(''id'', JNumber (Whole 1)), (''op'', JString ''completed_directories'')])"
  "sendable capture_serde (ok_json 1 (journal_json [number 0]))"
  "sendable capture_serde (JObject [(''id'', JNumber (Whole 2)), (''op'', JString ''summarize_directories'')])" "sendable capture_serde (ok_json 2 JNull)"
  "sendable capture_serde (JObject [(''id'', JNumber (Whole 3)), (''index_id'', JNumber (Whole 7)), (''op'', JString ''index_status'')])"
  "sendable capture_serde (ok_json 3 JNull)"
  "sendable capture_serde (JObject [(''id'', JNumber (Whole 4)), (''index_id'', JNumber (Whole 7)), (''op'', JString ''release_index'')])"
  "sendable capture_serde (ok_json 4 (released_json 7))"
  "sendable capture_serde (JObject [(''id'', JNumber (Whole 5)), (''op'', JString ''shutdown'')])" "sendable capture_serde (ok_json 5 shutdown_json)"
  by code_simp+

definition watch_update :: backend_event where
  "watch_update = Update final_status (as_millis 0) 130 [summary_from_stats watch_env root_stats] default_histogram"

definition watch_feed :: "backend_options \<Rightarrow> backend_event list" where
  "watch_feed options = [Started ''/srv'' (bo_concurrency options) (bo_mount_policy options), watch_update, FinishedEvent demo_result 130]"

lemma watched_worker:
  assumes "bo_root options = as_bytes ''/srv''"
  obtains left where "worker_main watch_env options (demo_spawned watch_answers) \<lparr>accepted = [], accepts_more = None\<rparr>
    = (Inr (), \<lparr>accepted = watch_feed options, accepts_more = None\<rparr>, left)"
proof -
  note s = watch_sendable
  let ?e = "[ok_json 4 (released_json 7), ok_json 5 shutdown_json]"
  obtain c0 where 0: "spawn capture_serde (demo_spawned watch_answers) = (Inr c0, None)" "bridge 0 watch_answers c0" by (rule started_bridge)
  have b: "bridge 0 (ok_json 0 handle_json # ok_json 1 (journal_json [number 0]) # ok_json 2 JNull # ok_json 3 JNull # finished_msg # ?e) c0"
    using 0(2) by (simp add: watch_answers_def)
  obtain c1 where 1: "start_scan capture_serde (as_bytes ''/srv'') (backend_scan_options options) c0 = (Inr \<lparr>handle_index_id = 7, handle_root = ''/srv''\<rparr>, c1)"
    "bridge 1 (ok_json 1 (journal_json [number 0]) # ok_json 2 JNull # ok_json 3 JNull # finished_msg # ?e) c1"
    by (rule started_scan [OF b, where options = "backend_scan_options options"])
  obtain page c2 where 2: "completed_directories capture_serde 7 0 COMPLETION_BATCH_SIZE c1 = (Inr page, c2)" "page_directory_ids page = [0]"
    "page_cursor page = 2" "bridge 2 (ok_json 2 JNull # ok_json 3 JNull # finished_msg # ?e) c2"
    by (rule journal_read [OF 1(2) _ s(1,2), where cursor = 0 and limit = COMPLETION_BATCH_SIZE])
      (simp_all add: number_def json_u64_def)
  obtain c3 where 3: "summarize_directories capture_serde 7 [0] SIZE_FIELD LARGEST_PER_DIRECTORY c2 = (Inr [root_stats], c3)"
    "bridge 3 (ok_json 3 JNull # finished_msg # ?e) c3"
    by (rule summaries_read [OF 2(4) _ s(3,4), where directories = "[0]" and size_field = SIZE_FIELD and limit = LARGEST_PER_DIRECTORY]) simp_all
  obtain c4 where 4: "index_status capture_serde 7 c3 = (Inr final_status, c4)" "bridge 4 (finished_msg # ?e) c4"
    by (rule status_read [OF 3(2) _ s(5,6)]) simp_all
  obtain c5 where 5: "await_scan capture_serde 7 c4 = (Inr demo_result, c5)" "bridge 4 ?e c5" by (rule awaited [OF 4(2)])
  obtain c6 where 6: "release_index capture_serde 7 c5 = (Inr (), c6)" "bridge 5 [ok_json 5 shutdown_json] c6"
    by (rule released_index [OF 5(2) _ s(7,8)]) simp_all
  obtain left where 7: "shutdown capture_serde c6 = (Inr (), left)" by (rule shut_down [OF 6(2) _ s(9,10)]) simp_all
  have env: "env_serde watch_env = capture_serde" "env_clock watch_env n = 0" for n by (simp_all add: watch_env_def demo_env_def)
  have drained: "completion_count (status_store final_status) \<le> 2" "status_state final_status = Finished"
    by (simp_all add: final_status_def)
  let ?st = "\<lparr>next_progress_at = 0, drive_cursor = 0, buffered_summaries = [], drive_allocated = 0, drive_histogram = default_histogram\<rparr>"
  let ?w = "\<lparr>w_client = c1, w_channel = \<lparr>accepted = take 1 (watch_feed options), accepts_more = None\<rparr>, w_reads = 1\<rparr>"
  have absorbed: "absorb watch_env [root_stats] (?st\<lparr>drive_cursor := 2\<rparr>)
      = ?st\<lparr>drive_cursor := 2, drive_allocated := 130, buffered_summaries := [summary_from_stats watch_env root_stats]\<rparr>"
    by (simp add: root_stats_def sat_add_def)
  have "drive_step watch_env 7 options 0 ?st ?w
      = (Inr None, \<lparr>w_client = c5, w_channel = \<lparr>accepted = watch_feed options, accepts_more = None\<rparr>, w_reads = 3\<rparr>)"
    using 2 3(1) 4(1) 5(1) drained absorbed
    by (simp add: drive_step_def publish_def sbind_def spure_def calling_def now_def send_event_def push_accepted_def map_err_def env Let_def
        watch_feed_def watch_update_def)
  then have "session watch_env \<lparr>handle_index_id = 7, handle_root = ''/srv''\<rparr> options
      \<lparr>w_client = c1, w_channel = \<lparr>accepted = [], accepts_more = None\<rparr>, w_reads = 0\<rparr>
      = (Inr (), \<lparr>w_client = c5, w_channel = \<lparr>accepted = watch_feed options, accepts_more = None\<rparr>, w_reads = 3\<rparr>)"
    by (simp add: session_def drive_index_def drive_loop.simps [of watch_env 7 options 0 ?st] sbind_def send_event_def push_accepted_def now_def env
        watch_feed_def)
  then show thesis
    using that 0(1) 1(1) 6(1) 7 by (simp add: worker_main_def run_def env assms rbind_def map_err_def)
qed

section \<open>The user in between\<close>

definition user :: "nat app_message \<Rightarrow> nat input" where
  "user msg = (demo_host, \<lambda>p. None, 0, msg)"

definition watch_inputs :: "backend_options \<Rightarrow> nat input list" where
  "watch_inputs options =
     [user (BackendMessage (Started ''/srv'' (bo_concurrency options) (bo_mount_policy options))), user (TabSelected GraphTab),
      user (BackendMessage watch_update), user (NodeSelected 0), user (FilterChanged ''log''),
      user (BackendMessage (FinishedEvent demo_result 130)), user DismissNotice]"

lemma interaction_keeps_data_witness:
  "\<exists>config left st'. worker_main watch_env (config_options config) (demo_spawned watch_answers) \<lparr>accepted = [], accepts_more = None\<rparr>
        = (Inr (), \<lparr>accepted = watch_feed (config_options config), accepts_more = None\<rparr>, left)
     \<and> play (watch_inputs (config_options config)) (desktop_start_scan demo_host demo_app) = Some st'
     \<and> finished (d_model st') \<and> unat (c_allocated_bytes (counters (d_model st'))) = 130"
proof -
  have can: "can_start demo_host demo_app = Some ''/srv''" by (simp add: can_start_def demo_app_form demo_roots)
  obtain config where config: "d_scan (desktop_start_scan demo_host demo_app) = Some config" "sc_root config = ''/srv''"
    using start_scan_Some [OF can] by (simp add: started_def)
  let ?o = "config_options config"
  have "bo_root ?o = as_bytes ''/srv''" by (simp add: config_options_def config(2))
  then obtain left where run: "worker_main watch_env ?o (demo_spawned watch_answers) \<lparr>accepted = [], accepts_more = None\<rparr>
      = (Inr (), \<lparr>accepted = watch_feed ?o, accepts_more = None\<rparr>, left)" by (rule watched_worker)
  have sum: "summaries (watch_feed ?o) = [summary_from_stats watch_env root_stats]"
    by (simp add: summaries_def watch_feed_def watch_update_def event_dirs_def)
  have dir: "dir_parent_id (summary_from_stats watch_env root_stats) = None" "dir_allocated_bytes (summary_from_stats watch_env root_stats) = 130"
    by (simp_all add: summary_from_stats_def root_stats_def)
  have ok: "desk_ok (desktop_start_scan demo_host demo_app)" unfolding demo_app_def by (intro desk_ok_start_scan desk_ok_new)
  have "\<forall>(H, opener, time, msg) \<in> set (watch_inputs ?o). legal msg \<and> msg \<noteq> AutoshotTick"
    by (simp add: watch_inputs_def user_def legal_def event_dirs_def watch_update_def dir NO_PARENT_def)
  from play_returns [OF ok this] obtain st' where play: "play (watch_inputs ?o) (desktop_start_scan demo_host demo_app) = Some st'" by blast
  have keeps: "\<forall>(H, opener, time, msg) \<in> set (watch_inputs ?o). keeps_scan msg" by (simp add: watch_inputs_def user_def keeps_scan_def)
  have del: "delivered (watch_inputs ?o) = take 3 (accepted \<lparr>accepted = watch_feed ?o, accepts_more = None\<rparr>)"
    by (simp add: watch_inputs_def user_def watch_feed_def)
  have "\<forall>d \<in> set (summaries (accepted \<lparr>accepted = watch_feed ?o, accepts_more = None\<rparr>)). dir_parent_id d \<noteq> Some NO_PARENT"
    by (simp add: sum dir)
  note shown = interaction_keeps_data [OF can config(1) run this play keeps del]
  have "length (watch_feed ?o) \<le> 3" "capped (allocated_sum (summaries (watch_feed ?o))) = 130"
    by (simp_all add: watch_feed_def sum [unfolded watch_feed_def]) (simp_all add: allocated_sum_def dir capped_def)
  then show ?thesis using shown run play by auto
qed

end
