(* ===== verification/Spec2Isabelle.thy ===== *)
theory Spec2Isabelle
  imports Json_Demo Client_Demo Scan_Demo Pipeline_Demo Desktop_Demo View_Demo Sunburst_Demo Session_Demo Capture_Demo
    Interaction_Demo
begin

text \<open>
  Verification of the Rust part of the repository: the client of the indexing backend
  (\<open>src/rust_client/src\<close>) and the desktop application that shows a scan (\<open>src/desktop/src\<close>), and the trace recorder
  (\<open>src/rust_client/examples/capture_trace.rs\<close>).

  How the program works. A \<open>Client\<close> (\<open>client.rs\<close>) starts the Elixir backend as a child process and
  exchanges frames with it: a length, then a term in Erlang's external format (\<open>wire.rs\<close>). Requests
  carry increasing ids; while a response is awaited the completions of scans may arrive, and are
  queued. The desktop's worker thread (\<open>backend.rs\<close>) drives one scan through the client: it polls the
  journal of completed directories, summarises each directory's entries, and sends events over a bounded channel.
  The view model (\<open>app.rs\<close>) folds the events into a size tree, a leaderboard of files, counters and
  histories. The shell (\<open>main.rs\<close>) owns the form, the running scan and the model and handles the
  user's messages; it can drive itself for screenshots and record its frames (\<open>recording.rs\<close>).

  Theories, and the code they translate. A definition has the name of its function in the source, unless that name is taken.

    \<^item> \<open>Prelude\<close>: machine integers as words of their width, fallible code as \<open>error + 'a\<close>, saturating and
      checked arithmetic, decimal rendering, UTF-8. No file of the source.
    \<^item> \<open>Wire\<close>: \<open>wire.rs\<close>, the terms, encoder, decoder, frames. \<open>Wire_Codec\<close> states what it means to read back
      what was written as the locale \<open>codec\<close>, interpreted on every element of the format; \<open>Wire_Roundtrip\<close> and \<open>Wire_Bounds\<close> carry
      the round trip and a small program logic for bounds; \<open>Wire_Frames\<close> has C1 to C3. \<open>Json\<close>: the
      conversions between JSON and terms, over a JSON library that is a parameter (C4).
    \<^item> \<open>Types\<close>: \<open>types.rs\<close> and \<open>error.rs\<close>. \<open>Client\<close>: \<open>client.rs\<close>; a client's state holds the child, its
      pipes with the bytes still to come, the next id and the queue. \<open>Client_Queue\<close>: what each method
      does with the message stream (C5, C6). \<open>Client_Contract\<close>: the contract every method keeps, as a
      locale interpreted on each of them. \<open>Client_Props\<close> (C7 to C11) and \<open>Client_Life\<close> (C12 to C14, start and shutdown).
    \<^item> \<open>Backend_Types\<close>, \<open>Backend\<close>: \<open>backend.rs\<close>, the summaries, the histogram, the worker and the
      channel. \<open>Backend_Props\<close>: the protocol of the events as a state machine \<open>feed_next\<close>, the reaping of the
      child, and the end of the polling loop (C23 to C25).
    \<^item> \<open>Size_Tree\<close>, \<open>Size_Tree_Inv\<close>, \<open>Size_Tree_Totals\<close>: \<open>SizeTree\<close> of \<open>app.rs\<close> and its specification on
      the list of summaries alone (C15 to C17). \<open>F64\<close>: the \<open>f64\<close> arithmetic of the application on bit patterns.
      \<open>Scan_Model\<close>: \<open>ScanModel\<close> of \<open>app.rs\<close>. \<open>Leaderboard\<close>: bounded leaderboards as a locale, interpreted on
      \<open>merge_top\<close>. \<open>Scan_Props\<close>, \<open>Paths\<close>: the view model over all sequences of events (C18, C19, C22).
    \<^item> \<open>Desktop_Paths\<close>, \<open>Cli\<close>, \<open>Desktop\<close>: \<open>main.rs\<close>, the paths, the command line (C26, C27) and the message handler. \<open>Desktop_Props\<close>
      (C29 to C31) treats the application as a transition system; \<open>Tours\<close> (C32 to C34) the
      screenshot tour and the end of a recording. \<open>Recording\<close>: \<open>recording.rs\<close> with all interleavings of
      the user interface and the writing thread (C28).
    \<^item> \<open>Anonymize\<close>: \<open>anonymize.rs\<close> (C35). \<open>Format\<close>: \<open>format.rs\<close>.
    \<^item> \<open>F32\<close>, \<open>F32_Exact\<close>, \<open>F32_Order\<close>: the \<open>f32\<close> arithmetic of the charts on bit patterns, its exactness on small integers, and the
      order of rounded results. \<open>Theme\<close>:
      \<open>theme.rs\<close>, the palette. \<open>Charts\<close>, \<open>Drawing\<close>: \<open>charts.rs\<close>, layout, hit testing, mouse events and drawing commands of the treemap, the
      sunburst and the outline graph, and the drawing of the other charts. \<open>View\<close>, \<open>Outline\<close>: \<open>view.rs\<close>, the breadcrumbs and
      the data of the three charts. \<open>Outline_Props\<close>: rows
      do not overlap (C39). \<open>Sunburst_Props\<close>: the slices are the directories in depth-first order and siblings do not overlap (C20). \<open>View_Props\<close>: the treemap shows the model (C40), and where the breadcrumbs lead.
    \<^item> \<open>Screen\<close>: \<open>view.rs\<close>, the screens as trees of elements with the messages they send. \<open>Screen_Props\<close>: what a screen and its
      charts can send and draw. \<open>Session\<close>: the application with its screen, as a transition system in which the user's messages come
      from what is shown, started by \<open>main\<close> (C36).
    \<^item> \<open>Capture\<close>: \<open>capture_trace.rs\<close>, the recorder of a scan as a trace file. \<open>Capture_Props\<close>: it returns, and what it writes (C21).
    \<^item> \<open>Pipeline\<close>: the worker and the view model composed (C38). \<open>Interaction\<close>: both with the application in use; the messages of the user
      and of the timers never change what was found (C37).
    \<^item> \<open>Json_Demo\<close>, \<open>Client_Demo\<close>, \<open>Scan_Demo\<close>, \<open>Desktop_Demo\<close>, \<open>Pipeline_Demo\<close>, \<open>View_Demo\<close>, \<open>Sunburst_Demo\<close>, \<open>Session_Demo\<close>,
      \<open>Bridge_Demo\<close>, \<open>Capture_Demo\<close>, \<open>Interaction_Demo\<close>: concrete inputs, and the properties applied to them.

  Conventions. A panic of the code (an index out of range, \<open>expect\<close>, \<open>unreachable!\<close>) is \<open>None\<close>. An
  \<open>Err\<close> is \<open>Inl\<close>. Arithmetic wraps, saturates or is checked as the source says. Loops are
  structural recursion or have a measure: the journal's loops and the frame reader shrink the bytes still to come (a peer's stream is a finite
  list, so \<open>drive_loop\<close> returns), ancestor walks stop at \<open>MAX_DEPTH\<close> = 512 as in the code, terms nest at most
  \<open>MAXIMUM_NESTING\<close> = 128 levels when read, the leaderboard holds \<open>TOP_LIMIT\<close> = 100 files. The one loop of the program that could run
  for ever, the descent of the screenshot tour, is a \<open>partial_function\<close>, and C32 is its termination.

  Parameters. What the source takes from libraries is an argument of the definitions: the JSON and
  base64 libraries and the derived deserialisers (\<open>serde\<close>), the file system and environment (\<open>host\<close>), the
  clock, the trigonometric functions and the rendering of library values (\<open>backend_env\<close>), the answers of the operating
  system about a child or a file (lists in the state). The hypotheses on them are named, and a witness instantiates them.

  Not modelled: the styles of \<open>theme.rs\<close> and the spacing, sizes and styles of the widgets in \<open>view.rs\<close> (an element of \<open>Screen\<close> keeps
  what is shown and sent); fonts and alignments of texts in charts; the iced runtime with its threads and timers; the PNG encoder; \<open>benches\<close> and \<open>tests\<close>; the Elixir and C parts of the repository.
\<close>

end
